theory Spec2Isabelle
  imports Main
begin

section \<open>C strings, fixed buffers and the libc calls the screens make\<close>

text \<open>
  A line handed to a line consumer is a NUL-terminated C string; it is modelled by the
  \<open>string\<close> of its bytes before the terminator. A pointer into the line is the suffix
  that starts there, so a pointer difference \<open>e - s\<close> (with \<open>e\<close> found inside \<open>s\<close>) is
  \<open>length s - length e\<close>. A \<open>char[N]\<close> field of a context block is a \<open>buf\<close>: the list
  of its \<open>N\<close> bytes. The string a buffer holds is \<open>cstr\<close>: its bytes before the first NUL.
  A store outside the buffer is undefined behaviour in C and is the error value
  \<open>BufferOverflow\<close> here.
\<close>

type_synonym buf = "char list"

abbreviation NUL :: char where
  "NUL \<equiv> CHR 0x00"

definition cstr :: "buf \<Rightarrow> string" where
  "cstr b = takeWhile (\<lambda>c. c \<noteq> NUL) b"

datatype error = BufferOverflow

definition bind_err :: "error + 'a \<Rightarrow> ('a \<Rightarrow> error + 'b) \<Rightarrow> error + 'b" where
  "bind_err m f = (case m of Inl e \<Rightarrow> Inl e | Inr x \<Rightarrow> f x)"

text \<open>\<open>strncpy(dst, src, n)\<close>: writes exactly \<open>n\<close> bytes, the bytes of \<open>src\<close> padded with NULs.\<close>

definition strncpy :: "buf \<Rightarrow> string \<Rightarrow> nat \<Rightarrow> error + buf" where
  "strncpy dst src n =
     (if n \<le> length dst then Inr (take n (src @ replicate n NUL) @ drop n dst)
      else Inl BufferOverflow)"

text \<open>\<open>dst[i] = c\<close>.\<close>

definition poke :: "buf \<Rightarrow> nat \<Rightarrow> char \<Rightarrow> error + buf" where
  "poke dst i c = (if i < length dst then Inr (dst[i := c]) else Inl BufferOverflow)"

text \<open>The pair \<open>strncpy(dst, src, n); dst[n] = '\0';\<close> that every field extraction ends with.\<close>

definition copy_field :: "buf \<Rightarrow> string \<Rightarrow> nat \<Rightarrow> error + buf" where
  "copy_field dst src n = bind_err (strncpy dst src n) (\<lambda>b. poke b n NUL)"

text \<open>
  \<open>snprintf(dst, sizeof dst, literal)\<close>: at most \<open>sizeof dst - 1\<close> bytes and a NUL;
  it never writes outside \<open>dst\<close>.
\<close>

definition snprintf_lit :: "buf \<Rightarrow> string \<Rightarrow> buf" where
  "snprintf_lit dst s =
     (if dst = [] then dst
      else (let n = min (length s) (length dst - 1) in take n s @ NUL # drop (Suc n) dst))"

fun starts_with :: "string \<Rightarrow> string \<Rightarrow> bool" where
  "starts_with s [] = True"
| "starts_with [] (p # ps) = False"
| "starts_with (c # cs) (p # ps) = (c = p \<and> starts_with cs ps)"

text \<open>\<open>strstr\<close>: the suffix at the first occurrence of the needle, or NULL.\<close>

fun strstr :: "string \<Rightarrow> string \<Rightarrow> string option" where
  "strstr [] needle = (if needle = [] then Some [] else None)"
| "strstr (c # cs) needle =
     (if starts_with (c # cs) needle then Some (c # cs) else strstr cs needle)"

text \<open>\<open>strchr\<close> for a character other than NUL: the suffix at its first occurrence, or NULL.\<close>

fun strchr :: "string \<Rightarrow> char \<Rightarrow> string option" where
  "strchr [] x = None"
| "strchr (c # cs) x = (if c = x then Some (c # cs) else strchr cs x)"

definition isdigit :: "char \<Rightarrow> bool" where
  "isdigit c = ((48::nat) \<le> of_char c \<and> of_char c \<le> (57::nat))"

definition isspace :: "char \<Rightarrow> bool" where
  "isspace c = (of_char c = (32::nat) \<or> ((9::nat) \<le> of_char c \<and> of_char c \<le> (13::nat)))"

text \<open>
  The target is a 32-bit machine: \<open>int\<close> and \<open>long\<close> are 32 bits wide. The C library's
  decimal conversions (\<open>strtol\<close>, and \<open>%d\<close> of \<open>sscanf\<close>, which is built on it) skip white
  space, take an optional sign and the longest run of digits, and clamp a value that does
  not fit. Signed arithmetic of the screens themselves wraps (\<open>int32\<close>).
\<close>

definition INT_MAX :: int where
  "INT_MAX = 2147483647"

definition INT_MIN :: int where
  "INT_MIN = - 2147483648"

definition int32 :: "int \<Rightarrow> int" where
  "int32 x = (x + 2147483648) mod 4294967296 - 2147483648"

definition digit_val :: "char \<Rightarrow> int" where
  "digit_val c = int (of_char c) - 48"

definition dec_val :: "string \<Rightarrow> int" where
  "dec_val ds = foldl (\<lambda>a c. a * 10 + digit_val c) 0 ds"

definition scan_sign :: "string \<Rightarrow> bool \<times> string" where
  "scan_sign s =
     (case s of
        [] \<Rightarrow> (False, [])
      | c # r \<Rightarrow> if c = CHR ''-'' then (True, r) else if c = CHR ''+'' then (False, r)
                else (False, c # r))"

definition scan_int :: "string \<Rightarrow> (int \<times> string) option" where
  "scan_int s =
     (let (neg, s2) = scan_sign (dropWhile isspace s);
          ds = takeWhile isdigit s2
      in if ds = [] then None
         else Some (if neg then max INT_MIN (- dec_val ds) else min INT_MAX (dec_val ds),
                    dropWhile isdigit s2))"

text \<open>\<open>(int) strtol(s, &endptr, 10)\<close>; no conversion gives 0.\<close>

definition strtol :: "string \<Rightarrow> int" where
  "strtol s = (case scan_int s of None \<Rightarrow> 0 | Some (v, r) \<Rightarrow> v)"

abbreviation EOF :: int where
  "EOF \<equiv> - 1"

text \<open>
  \<open>sscanf(s, "(%d/%d seconds)", &elapsed, &timeout)\<close> with both targets initialised to 0:
  the return value and the two targets afterwards. The return value counts the conversions
  stored; the literal text after the second \<open>%d\<close> cannot change it.
\<close>

definition sscanf_countdown :: "string \<Rightarrow> int \<times> int \<times> int" where
  "sscanf_countdown s =
     (case s of
        [] \<Rightarrow> (EOF, 0, 0)
      | c # r \<Rightarrow>
          if c \<noteq> CHR ''('' then (0, 0, 0)
          else (case scan_int r of
                  None \<Rightarrow> (if dropWhile isspace r = [] then EOF else 0, 0, 0)
                | Some (a, r1) \<Rightarrow>
                    (case r1 of
                       [] \<Rightarrow> (1, a, 0)
                     | c1 # r2 \<Rightarrow>
                         if c1 \<noteq> CHR ''/'' then (1, a, 0)
                         else (case scan_int r2 of
                                 None \<Rightarrow> (1, a, 0)
                               | Some (b, r3) \<Rightarrow> (2, a, b)))))"

text \<open>
  \<open>sscanf(s, "Wardrive promisc: %d unique networks", &n)\<close> with \<open>n\<close> initialised to 0.
  A blank in the format matches any amount of white space, also none.
\<close>

definition sscanf_promisc :: "string \<Rightarrow> int \<times> int" where
  "sscanf_promisc s =
     (if s = [] then (EOF, 0)
      else if \<not> starts_with s ''Wardrive'' then (0, 0)
      else (let r = dropWhile isspace (drop 8 s) in
            if r = [] then (EOF, 0)
            else if \<not> starts_with r ''promisc:'' then (0, 0)
            else (case scan_int (drop 8 r) of
                    None \<Rightarrow> (if dropWhile isspace (drop 8 r) = [] then EOF else 0, 0)
                  | Some (n, r1) \<Rightarrow> (1, n))))"

section \<open>What a handler does to the outside: the trace of its calls\<close>

text \<open>
  Every call a handler makes into the display, the serial bridge, the timer service, the
  allocator, the stack manager or the log is recorded, in order. Text that a handler
  formats locally before it hands it over is kept as the format and its arguments;
  a \<open>double\<close> argument is kept as the string \<open>strtod\<close> was given.
\<close>

datatype log_level = LOGI | LOGW | LOGE

datatype colour =
  UI_COLOR_TEXT | UI_COLOR_DIMMED | UI_COLOR_HIGHLIGHT | UI_COLOR_TITLE | UI_COLOR_BORDER
  | RGB565 nat nat nat

datatype fmt_arg = ArgInt int | ArgStr string | ArgDouble string

datatype ui_text = Lit string | Fmt string "fmt_arg list"

datatype block = UserData | ParamsBlock | ScreenBlock

datatype event =
    UiClear
  | UiDrawTitle ui_text
  | UiPrint int int ui_text colour
  | UiPrintCenter int ui_text colour
  | UiDrawStatus ui_text
  | UartClearLineCallback
  | UartSendCommand ui_text
  | UartSetWifiConnected bool
  | EspTimerStop nat
  | EspTimerDelete nat
  | ScreenAlloc
  | Calloc
  | Free block
  | ScreenManagerPop
  | EspLog log_level string

fun is_draw :: "event \<Rightarrow> bool" where
  "is_draw UiClear = True"
| "is_draw (UiDrawTitle t) = True"
| "is_draw (UiPrint x y t c) = True"
| "is_draw (UiPrintCenter y t c) = True"
| "is_draw (UiDrawStatus t) = True"
| "is_draw e = False"

fun is_log :: "event \<Rightarrow> bool" where
  "is_log (EspLog l s) = True"
| "is_log e = False"

text \<open>The commands a trace hands to \<open>uart_send_command\<close>, in order.\<close>

fun sent_commands :: "event list \<Rightarrow> ui_text list" where
  "sent_commands [] = []"
| "sent_commands (UartSendCommand c # es) = c # sent_commands es"
| "sent_commands (e # es) = sent_commands es"

section \<open>The wardrive screen, promiscuous variant\<close>

text \<open>
  Two variants of the wardrive screen exist. The fields and handlers of this one carry the
  prefix or suffix \<open>wp\<close>, those of the other one \<open>wd\<close>; the handlers of the other screens
  are told apart the same way (\<open>ct\<close> channel time, \<open>ni\<close> network info, \<open>ti\<close> text input,
  \<open>hs\<close> handshaker). A pointer field is an \<open>option\<close>: \<open>None\<close> is NULL.
\<close>

datatype wardrive_state_t = STATE_WAITING_GPS | STATE_RUNNING | STATE_GPS_LOST

record wardrive_data_t =
  wp_state :: wardrive_state_t
  wp_last_ssid :: buf
  wp_lat :: buf
  wp_lon :: buf
  wp_gps_wait_elapsed :: int
  wp_gps_wait_timeout :: int
  wp_unique_networks :: int
  wp_needs_redraw :: bool
  wp_refresh_timer :: "nat option"
  wp_self :: "nat option"

definition sizeof_last_ssid :: nat where
  "sizeof_last_ssid = 64"

definition sizeof_lat :: nat where
  "sizeof_lat = 16"

definition sizeof_lon :: nat where
  "sizeof_lon = 16"

text \<open>The scan of \<open>parse_lat_lon\<close> for the end of the longitude: the pointer it stops at.\<close>

fun lon_scan :: "string \<Rightarrow> string" where
  "lon_scan [] = []"
| "lon_scan (c # cs) =
     (if c = CHR '' '' \<or> c = CHR 0x0A \<or> c = CHR 0x0D then c # cs
      else if isdigit c \<or> c = CHR ''-'' then lon_scan cs
      else if c = CHR ''.'' then
        (case cs of [] \<Rightarrow> c # cs | n # r \<Rightarrow> if isdigit n then lon_scan cs else c # cs)
      else c # cs)"

definition parse_lat_lon :: "string \<Rightarrow> wardrive_data_t \<Rightarrow> error + wardrive_data_t \<times> event list" where
  "parse_lat_lon str data =
     (case strstr str ''Lat='' of
        None \<Rightarrow> Inr (data, [])
      | Some lat_ptr \<Rightarrow>
          (let lat_start = drop (length ''Lat='') lat_ptr in
           case strchr lat_start (CHR '' '') of
             None \<Rightarrow> Inr (data, [])
           | Some lat_end \<Rightarrow>
               (let lat_len = length lat_start - length lat_end in
                bind_err
                  (if lat_len < sizeof_lat then copy_field (wp_lat data) lat_start lat_len
                   else Inr (wp_lat data))
                  (\<lambda>lat_buf.
                     let data1 = data\<lparr>wp_lat := lat_buf\<rparr> in
                     case strstr lat_end ''Lon='' of
                       None \<Rightarrow> Inr (data1, [])
                     | Some lon_ptr \<Rightarrow>
                         (let lon_start = drop (length ''Lon='') lon_ptr;
                              lon_end = lon_scan lon_start;
                              lon_len = length lon_start - length lon_end
                          in bind_err
                               (if 0 < lon_len \<and> lon_len < sizeof_lon
                                then copy_field (wp_lon data1) lon_start lon_len
                                else Inr (wp_lon data1))
                               (\<lambda>lon_buf.
                                  Inr (data1\<lparr>wp_lon := lon_buf\<rparr>,
                                       [EspLog LOGI ''GPS update: %s, %s''])))))))"

text \<open>The test both wardrive line consumers open with: a MAC address and a comma.\<close>

definition is_mac_csv :: "string \<Rightarrow> bool" where
  "is_mac_csv line =
     (length line > 18 \<and> line ! 2 = CHR '':'' \<and> line ! 5 = CHR '':'' \<and>
      line ! 8 = CHR '':'' \<and> line ! 11 = CHR '':'' \<and> line ! 14 = CHR '':'' \<and>
      line ! 17 = CHR '','')"

text \<open>
  The loop over the line that counts the commas and notes where the first nine fields
  start: \<open>p\<close> is the rest of the line, \<open>field_starts\<close> the array of nine pointers.
\<close>

fun scan_commas :: "string \<Rightarrow> nat \<Rightarrow> string option list \<Rightarrow> nat \<times> string option list" where
  "scan_commas [] comma_count field_starts = (comma_count, field_starts)"
| "scan_commas (c # p) comma_count field_starts =
     (if c = CHR '',''
      then scan_commas p (Suc comma_count)
             (if Suc comma_count < 9 then field_starts[Suc comma_count := Some p]
              else field_starts)
      else scan_commas p comma_count field_starts)"

definition csv_ssid :: "string \<Rightarrow> buf \<Rightarrow> error + buf" where
  "csv_ssid line last_ssid =
     (let ssid_start = drop 18 line in
      case strchr ssid_start (CHR '','') of
        None \<Rightarrow> Inr last_ssid
      | Some ssid_end \<Rightarrow>
          if length ssid_end < length ssid_start then
            (let ssid_len = length ssid_start - length ssid_end in
             if ssid_len < sizeof_last_ssid then copy_field last_ssid ssid_start ssid_len
             else Inr last_ssid)
          else Inr last_ssid)"

definition csv_lat_lon :: "string \<Rightarrow> buf \<times> buf \<Rightarrow> error + buf \<times> buf" where
  "csv_lat_lon line ll =
     (let (comma_count, field_starts) = scan_commas line 0 (Some line # replicate 8 None) in
      if comma_count \<ge> 8 then
        (case (field_starts ! 6, field_starts ! 7) of
           (Some lat_s, Some lon_s) \<Rightarrow>
             (case (strchr lat_s (CHR '',''), strchr lon_s (CHR '','')) of
                (Some lat_e, Some lon_e) \<Rightarrow>
                  (let la = length lat_s - length lat_e;
                       lo = length lon_s - length lon_e
                   in bind_err
                        (if la > 0 \<and> la < sizeof_lat then copy_field (fst ll) lat_s la
                         else Inr (fst ll))
                        (\<lambda>lat_buf.
                           bind_err
                             (if lo > 0 \<and> lo < sizeof_lon then copy_field (snd ll) lon_s lo
                              else Inr (snd ll))
                             (\<lambda>lon_buf. Inr (lat_buf, lon_buf))))
              | _ \<Rightarrow> Inr ll)
         | _ \<Rightarrow> Inr ll)
      else Inr ll)"

definition line_body_wp :: "string \<Rightarrow> wardrive_data_t \<Rightarrow> error + wardrive_data_t \<times> event list" where
  "line_body_wp line data =
     (if is_mac_csv line then
        bind_err (csv_ssid line (wp_last_ssid data))
          (\<lambda>ssid_buf.
             bind_err (csv_lat_lon line (wp_lat data, wp_lon data))
               (\<lambda>(lat_buf, lon_buf).
                  Inr (data\<lparr>wp_last_ssid := ssid_buf, wp_lat := lat_buf, wp_lon := lon_buf,
                             wp_unique_networks := int32 (wp_unique_networks data + 1),
                             wp_needs_redraw := True\<rparr>, [])))
      else
        (case strstr line ''Still waiting for GPS fix'' of
           Some still_waiting \<Rightarrow>
             (case strchr still_waiting (CHR ''('') of
                None \<Rightarrow> Inr (data\<lparr>wp_needs_redraw := True\<rparr>, [])
              | Some paren \<Rightarrow>
                  (let (ret, elapsed, timeout) = sscanf_countdown paren in
                   if ret = 2
                   then Inr (data\<lparr>wp_gps_wait_elapsed := elapsed, wp_gps_wait_timeout := timeout,
                                   wp_needs_redraw := True\<rparr>, [])
                   else Inr (data\<lparr>wp_needs_redraw := True\<rparr>, [])))
         | None \<Rightarrow>
             if strstr line ''GPS fix obtained'' \<noteq> None then
               bind_err (parse_lat_lon line (data\<lparr>wp_state := STATE_RUNNING\<rparr>))
                 (\<lambda>(d, ev). Inr (d\<lparr>wp_needs_redraw := True\<rparr>, EspLog LOGI ''GPS fix obtained!'' # ev))
             else if strstr line ''GPS fix lost'' \<noteq> None then
               Inr (data\<lparr>wp_state := STATE_GPS_LOST, wp_needs_redraw := True\<rparr>,
                    [EspLog LOGW ''GPS fix lost!''])
             else if strstr line ''GPS fix recovered'' \<noteq> None then
               bind_err (parse_lat_lon line (data\<lparr>wp_state := STATE_RUNNING\<rparr>))
                 (\<lambda>(d, ev). Inr (d\<lparr>wp_needs_redraw := True\<rparr>, EspLog LOGI ''GPS fix recovered!'' # ev))
             else
               (case strstr line ''Wardrive promisc:'' of
                  Some promisc_stat \<Rightarrow>
                    (let (ret, n) = sscanf_promisc promisc_stat in
                     if ret = 1
                     then Inr (data\<lparr>wp_unique_networks := n, wp_needs_redraw := True\<rparr>, [])
                     else Inr (data, []))
                | None \<Rightarrow> Inr (data, []))))"

text \<open>The line consumer as registered: a NULL context returns at once.\<close>

definition uart_line_callback_wp ::
  "string \<Rightarrow> wardrive_data_t option \<Rightarrow> error + wardrive_data_t option \<times> event list" where
  "uart_line_callback_wp line user_data =
     (case user_data of
        None \<Rightarrow> Inr (None, [])
      | Some data \<Rightarrow> bind_err (line_body_wp line data) (\<lambda>(d, ev). Inr (Some d, ev)))"

definition draw_screen_wp :: "wardrive_data_t \<Rightarrow> event list" where
  "draw_screen_wp data =
     [UiClear, UiDrawTitle (Lit ''Wardrive'')] @
     (if wp_state data = STATE_WAITING_GPS then
        [UiPrint 0 2 (Lit ''Acquiring GPS Fix...'') UI_COLOR_HIGHLIGHT,
         if wp_gps_wait_timeout data > 0
         then UiPrint 0 4 (Fmt ''Waiting: %d/%d seconds''
                [ArgInt (wp_gps_wait_elapsed data), ArgInt (wp_gps_wait_timeout data)])
                UI_COLOR_DIMMED
         else UiPrint 0 4 (Lit ''Need clear view of the sky.'') UI_COLOR_DIMMED]
      else
        [UiPrint 0 2 (Fmt ''Wardriving, %d networks found.''
           [ArgInt (wp_unique_networks data)]) UI_COLOR_TEXT,
         if cstr (wp_last_ssid data) \<noteq> []
         then UiPrint 0 4 (Fmt ''Last SSID: %s'' [ArgStr (cstr (wp_last_ssid data))]) UI_COLOR_TEXT
         else UiPrint 0 4 (Lit ''Last SSID: -'') UI_COLOR_DIMMED,
         if wp_state data = STATE_GPS_LOST
         then UiPrint 0 6 (Lit ''GPS fix lost! Pausing...'') UI_COLOR_HIGHLIGHT
         else if cstr (wp_lat data) \<noteq> [] \<and> cstr (wp_lon data) \<noteq> []
         then UiPrint 0 6 (Fmt ''Last GPS: %.5f, %.5f''
                [ArgDouble (cstr (wp_lat data)), ArgDouble (cstr (wp_lon data))]) UI_COLOR_DIMMED
         else UiPrint 0 6 (Lit ''Last GPS: Waiting...'') UI_COLOR_DIMMED]) @
     [UiDrawStatus (Lit ''ESC: Stop & Exit'')]"

text \<open>
  The timer callback; \<open>data->self->user_data\<close> is \<open>data\<close> itself, so \<open>draw_screen\<close>
  reads the block the flag was just cleared in.
\<close>

definition refresh_timer_callback_wp ::
  "wardrive_data_t option \<Rightarrow> wardrive_data_t option \<times> event list" where
  "refresh_timer_callback_wp arg =
     (case arg of
        None \<Rightarrow> (None, [])
      | Some data \<Rightarrow>
          if wp_needs_redraw data \<and> wp_self data \<noteq> None
          then (let d = data\<lparr>wp_needs_redraw := False\<rparr> in (Some d, draw_screen_wp d))
          else (Some data, []))"

definition on_destroy_wp :: "wardrive_data_t option \<Rightarrow> event list" where
  "on_destroy_wp user_data =
     (case user_data of
        None \<Rightarrow> []
      | Some data \<Rightarrow>
          (case wp_refresh_timer data of
             None \<Rightarrow> []
           | Some t \<Rightarrow> [EspTimerStop t, EspTimerDelete t])) @
     [UartClearLineCallback] @
     (case user_data of None \<Rightarrow> [] | Some data \<Rightarrow> [Free UserData])"

text \<open>
  The context block as \<open>wardrive_screen_create\<close> leaves it: zeroed by \<open>calloc\<close>, then
  \<open>self\<close>, the state and the three empty strings set, and the timer handle stored when
  the timer could be created.
\<close>

definition created_wp :: "nat option \<Rightarrow> nat \<Rightarrow> wardrive_data_t" where
  "created_wp timer screen =
     \<lparr>wp_state = STATE_WAITING_GPS, wp_last_ssid = replicate 64 NUL,
      wp_lat = replicate 16 NUL, wp_lon = replicate 16 NUL,
      wp_gps_wait_elapsed = 0, wp_gps_wait_timeout = 0, wp_unique_networks = 0,
      wp_needs_redraw = False, wp_refresh_timer = timer, wp_self = Some screen\<rparr>"

section \<open>The wardrive screen, logging variant\<close>

datatype wardrive_state_wd = WD_STATE_WAITING_GPS | WD_STATE_RUNNING

record wardrive_data_wd =
  wd_state :: wardrive_state_wd
  wd_last_log_line :: buf
  wd_last_ssid :: buf
  wd_lat :: buf
  wd_lon :: buf
  wd_needs_redraw :: bool
  wd_refresh_timer :: "nat option"
  wd_self :: "nat option"

definition MAX_LOG_LINE :: nat where
  "MAX_LOG_LINE = 128"

text \<open>\<open>strlen\<close> of a buffer; without a NUL inside it would read past the end.\<close>

definition strlen_buf :: "buf \<Rightarrow> error + nat" where
  "strlen_buf b = (if NUL \<in> set b then Inr (length (cstr b)) else Inl BufferOverflow)"

text \<open>
  The loop that removes trailing line ends and blanks from \<open>last_log_line\<close>; \<open>e\<close> is the
  index \<open>end\<close> points at, and the loop stops when \<open>end\<close> reaches the start of the buffer.
  It starts at \<open>strlen - 1\<close>; the stored text starts with the marker, so \<open>strlen\<close> is not 0.
\<close>

fun strip_trailing :: "buf \<Rightarrow> nat \<Rightarrow> error + buf" where
  "strip_trailing b 0 = Inr b"
| "strip_trailing b (Suc e) =
     (if Suc e < length b then
        (if b ! Suc e = CHR 0x0A \<or> b ! Suc e = CHR 0x0D \<or> b ! Suc e = CHR '' ''
         then strip_trailing (b[Suc e := NUL]) e
         else Inr b)
      else Inl BufferOverflow)"

definition store_log_line :: "buf \<Rightarrow> string \<Rightarrow> error + buf" where
  "store_log_line last_log_line found =
     bind_err (strncpy last_log_line found (MAX_LOG_LINE - 1))
       (\<lambda>b1. bind_err (poke b1 (MAX_LOG_LINE - 1) NUL)
          (\<lambda>b2. bind_err (strlen_buf b2)
             (\<lambda>n. strip_trailing b2 (n - 1))))"

definition csv_ssid_wd :: "string \<Rightarrow> wardrive_data_wd \<Rightarrow> error + wardrive_data_wd" where
  "csv_ssid_wd line data =
     (let ssid_start = drop 18 line in
      case strchr ssid_start (CHR '','') of
        None \<Rightarrow> Inr data
      | Some ssid_end \<Rightarrow>
          if length ssid_end < length ssid_start then
            (let ssid_len = length ssid_start - length ssid_end in
             if ssid_len < sizeof_last_ssid then
               bind_err (copy_field (wd_last_ssid data) ssid_start ssid_len)
                 (\<lambda>b. Inr (data\<lparr>wd_last_ssid := b, wd_needs_redraw := True\<rparr>))
             else Inr data)
          else Inr data)"

definition gps_lon_wd :: "string \<Rightarrow> buf \<Rightarrow> error + buf" where
  "gps_lon_wd lat_end lon =
     (case strstr lat_end ''Lon='' of
        None \<Rightarrow> Inr lon
      | Some lon_ptr \<Rightarrow>
          (let lon_start = drop (length ''Lon='') lon_ptr in
           case strchr lon_start (CHR '' '') of
             None \<Rightarrow> Inr lon
           | Some lon_end \<Rightarrow>
               (let lon_len = length lon_start - length lon_end in
                if lon_len < sizeof_lon then copy_field lon lon_start lon_len else Inr lon)))"

text \<open>
  The line consumer after its CSV test. The CSV branch does not return (the source says
  so: the line is still processed for the other patterns), so this part runs for every
  line.
\<close>

definition after_csv_wd ::
  "string \<Rightarrow> wardrive_data_wd \<Rightarrow> error + wardrive_data_wd \<times> event list" where
  "after_csv_wd line data =
     (if strstr line ''GPS fix obtained'' \<noteq> None then
        Inr (data\<lparr>wd_state := WD_STATE_RUNNING, wd_needs_redraw := True\<rparr>,
             [EspLog LOGI ''GPS fix obtained!''])
      else
        (case strstr line ''GPS: Lat='' of
           Some gps_found \<Rightarrow>
             (let lat_start = drop (length ''GPS: Lat='') gps_found in
              case strchr lat_start (CHR '' '') of
                None \<Rightarrow> Inr (data, [])
              | Some lat_end \<Rightarrow>
                  (let lat_len = length lat_start - length lat_end in
                   bind_err
                     (if lat_len < sizeof_lat then copy_field (wd_lat data) lat_start lat_len
                      else Inr (wd_lat data))
                     (\<lambda>lat_buf.
                        bind_err (gps_lon_wd lat_end (wd_lon data))
                          (\<lambda>lon_buf.
                             Inr (data\<lparr>wd_lat := lat_buf, wd_lon := lon_buf,
                                        wd_needs_redraw := True\<rparr>,
                                  [EspLog LOGI ''GPS update: %s, %s''])))))
         | None \<Rightarrow>
             (case strstr line ''Logged '' of
                None \<Rightarrow> Inr (data, [])
              | Some found \<Rightarrow>
                  if strstr found ''networks to'' \<noteq> None then
                    bind_err (store_log_line (wd_last_log_line data) found)
                      (\<lambda>b. Inr (data\<lparr>wd_last_log_line := b, wd_needs_redraw := True\<rparr>,
                                 [EspLog LOGI ''Log update: %s'']))
                  else Inr (data, []))))"

definition line_body_wd ::
  "string \<Rightarrow> wardrive_data_wd \<Rightarrow> error + wardrive_data_wd \<times> event list" where
  "line_body_wd line data0 =
     bind_err (if is_mac_csv line then csv_ssid_wd line data0 else Inr data0)
       (after_csv_wd line)"

definition uart_line_callback_wd ::
  "string \<Rightarrow> wardrive_data_wd option \<Rightarrow> error + wardrive_data_wd option \<times> event list" where
  "uart_line_callback_wd line user_data =
     (case user_data of
        None \<Rightarrow> Inr (None, [])
      | Some data \<Rightarrow> bind_err (line_body_wd line data) (\<lambda>(d, ev). Inr (Some d, ev)))"

definition draw_screen_wd :: "wardrive_data_wd \<Rightarrow> event list" where
  "draw_screen_wd data =
     [UiClear, UiDrawTitle (Lit ''Wardrive'')] @
     (if wd_state data = WD_STATE_WAITING_GPS then
        [UiPrint 0 2 (Lit ''Acquiring GPS Fix,'') UI_COLOR_HIGHLIGHT,
         UiPrint 0 3 (Lit ''need clear view of the sky.'') UI_COLOR_HIGHLIGHT]
      else
        [if cstr (wd_last_log_line data) \<noteq> []
         then UiPrint 0 2 (Lit (cstr (wd_last_log_line data))) UI_COLOR_TEXT
         else UiPrint 0 2 (Lit ''Scanning networks...'') UI_COLOR_DIMMED,
         if cstr (wd_last_ssid data) \<noteq> []
         then UiPrint 0 4 (Fmt ''Last SSID: %s'' [ArgStr (cstr (wd_last_ssid data))]) UI_COLOR_TEXT
         else UiPrint 0 4 (Lit ''Last SSID: -'') UI_COLOR_DIMMED,
         if cstr (wd_lat data) \<noteq> [] \<and> cstr (wd_lon data) \<noteq> []
         then UiPrint 0 6 (Fmt ''Last GPS: %.5f, %.5f''
                [ArgDouble (cstr (wd_lat data)), ArgDouble (cstr (wd_lon data))]) UI_COLOR_DIMMED
         else UiPrint 0 6 (Lit ''Last GPS: Waiting...'') UI_COLOR_DIMMED]) @
     [UiDrawStatus (Lit ''ESC: Stop & Exit'')]"

definition refresh_timer_callback_wd ::
  "wardrive_data_wd option \<Rightarrow> wardrive_data_wd option \<times> event list" where
  "refresh_timer_callback_wd arg =
     (case arg of
        None \<Rightarrow> (None, [])
      | Some data \<Rightarrow>
          if wd_needs_redraw data \<and> wd_self data \<noteq> None
          then (let d = data\<lparr>wd_needs_redraw := False\<rparr> in (Some d, draw_screen_wd d))
          else (Some data, []))"

definition on_destroy_wd :: "wardrive_data_wd option \<Rightarrow> event list" where
  "on_destroy_wd user_data =
     (case user_data of
        None \<Rightarrow> []
      | Some data \<Rightarrow>
          (case wd_refresh_timer data of
             None \<Rightarrow> []
           | Some t \<Rightarrow> [EspTimerStop t, EspTimerDelete t])) @
     [UartClearLineCallback] @
     (case user_data of None \<Rightarrow> [] | Some data \<Rightarrow> [Free UserData])"

definition created_wd :: "nat option \<Rightarrow> nat \<Rightarrow> wardrive_data_wd" where
  "created_wd timer screen =
     \<lparr>wd_state = WD_STATE_WAITING_GPS, wd_last_log_line = replicate 128 NUL,
      wd_last_ssid = replicate 64 NUL, wd_lat = replicate 16 NUL, wd_lon = replicate 16 NUL,
      wd_needs_redraw = False, wd_refresh_timer = timer, wd_self = Some screen\<rparr>"

section \<open>The channel-time settings screen\<close>

text \<open>
  The key codes are declared in a header outside the sources; \<open>KEY_OTHER\<close> stands for
  every code the handlers modelled here do not name. \<open>esp_err_t\<close> is an \<open>int\<close> and
  \<open>ESP_OK\<close> is 0.
\<close>

datatype key_code_t =
  KEY_UP | KEY_DOWN | KEY_LEFT | KEY_RIGHT | KEY_ENTER | KEY_SPACE | KEY_ESC | KEY_Q
  | KEY_BACKSPACE | KEY_OTHER

type_synonym esp_err_t = int

abbreviation ESP_OK :: esp_err_t where
  "ESP_OK \<equiv> 0"

definition MIN_TIME_MS :: int where
  "MIN_TIME_MS = 100"

definition MAX_TIME_MS :: int where
  "MAX_TIME_MS = 1500"

definition STEP_LARGE :: int where
  "STEP_LARGE = 10"

definition FIELD_MIN :: int where
  "FIELD_MIN = 0"

definition FIELD_MAX :: int where
  "FIELD_MAX = 1"

definition FIELD_COUNT :: int where
  "FIELD_COUNT = 2"

record channel_time_data_t =
  ct_min_value :: int
  ct_max_value :: int
  ct_edited_min :: int
  ct_edited_max :: int
  ct_selected_field :: int
  ct_loading :: bool
  ct_loading_count :: int
  ct_saved :: bool
  ct_needs_redraw :: bool
  ct_status_msg :: buf

definition parse_integer_response :: "string option \<Rightarrow> int" where
  "parse_integer_response line =
     (case line of
        None \<Rightarrow> - 1
      | Some l \<Rightarrow>
          (let l1 = dropWhile isspace l;
               start = dropWhile (\<lambda>c. \<not> isdigit c) l1
           in if start = [] then - 1 else strtol start))"

definition validate_values :: "channel_time_data_t \<Rightarrow> bool \<times> channel_time_data_t" where
  "validate_values data =
     (if ct_edited_min data < MIN_TIME_MS \<or> ct_edited_min data > MAX_TIME_MS then
        (False, data\<lparr>ct_status_msg := snprintf_lit (ct_status_msg data) ''Min must be 100-1500 ms''\<rparr>)
      else if ct_edited_max data < MIN_TIME_MS \<or> ct_edited_max data > MAX_TIME_MS then
        (False, data\<lparr>ct_status_msg := snprintf_lit (ct_status_msg data) ''Max must be 100-1500 ms''\<rparr>)
      else if ct_edited_min data \<ge> ct_edited_max data then
        (False, data\<lparr>ct_status_msg := snprintf_lit (ct_status_msg data) ''Min must be < Max''\<rparr>)
      else (True, data))"

text \<open>
  The response consumer. \<open>loading_count\<close> is positive wherever it is decremented, so the
  decrement cannot wrap (nor can the guarded steps of \<open>selected_field\<close> in \<open>on_key\<close>). \<open>status_msg[0] = '\0'\<close> is a store at a constant index of a
  64-byte array.
\<close>

definition response_store :: "string \<Rightarrow> channel_time_data_t \<Rightarrow> channel_time_data_t \<times> event list" where
  "response_store l data =
     (if strstr l ''min'' \<noteq> None then
        (let v = parse_integer_response (Some l) in
         if v \<ge> 0
         then (data\<lparr>ct_min_value := v, ct_edited_min := v,
                     ct_loading_count := ct_loading_count data - 1\<rparr>,
               [EspLog LOGI ''Parsed min: %d''])
         else (data, []))
      else if strstr l ''max'' \<noteq> None then
        (let v = parse_integer_response (Some l) in
         if v \<ge> 0
         then (data\<lparr>ct_max_value := v, ct_edited_max := v,
                     ct_loading_count := ct_loading_count data - 1\<rparr>,
               [EspLog LOGI ''Parsed max: %d''])
         else (data, []))
      else
        (let v = parse_integer_response (Some l) in
         if v \<ge> 0 \<and> ct_loading_count data > 0 then
           (if ct_loading_count data = 2
            then (data\<lparr>ct_min_value := v, ct_edited_min := v,
                        ct_loading_count := ct_loading_count data - 1\<rparr>,
                  [EspLog LOGI ''Parsed value as min: %d''])
            else if ct_loading_count data = 1
            then (data\<lparr>ct_max_value := v, ct_edited_max := v,
                        ct_loading_count := ct_loading_count data - 1\<rparr>,
                  [EspLog LOGI ''Parsed value as max: %d''])
            else (data, []))
         else (data, [])))"

definition on_uart_response ::
  "string option \<Rightarrow> channel_time_data_t \<Rightarrow> channel_time_data_t \<times> event list" where
  "on_uart_response line data =
     (case line of
        None \<Rightarrow> (data, [])
      | Some l \<Rightarrow>
          if ct_loading_count data \<le> 0 then (data, [])
          else
            (let (d1, ev) = response_store l data in
             if ct_loading_count d1 = 0
             then (d1\<lparr>ct_loading := False, ct_status_msg := (ct_status_msg d1)[0 := NUL],
                       ct_needs_redraw := True\<rparr>,
                   EspLog LOGI ''Response: %s'' # ev @ [UartClearLineCallback])
             else (d1, EspLog LOGI ''Response: %s'' # ev)))"

definition on_tick_ct :: "channel_time_data_t \<Rightarrow> channel_time_data_t \<times> event list" where
  "on_tick_ct data =
     (if ct_needs_redraw data then (data\<lparr>ct_needs_redraw := False\<rparr>, []) else (data, []))"

definition draw_screen_ct :: "channel_time_data_t \<Rightarrow> event list" where
  "draw_screen_ct data =
     [UiClear, UiDrawTitle (Lit ''Channel Time'')] @
     (if ct_loading data then [UiPrintCenter 3 (Lit ''Loading...'') UI_COLOR_DIMMED]
      else
        [UiPrint 0 2 (Lit ''Min (ms):'') UI_COLOR_TEXT,
         UiPrint 12 2
           (Fmt ''%s%4d'' [ArgStr (if ct_selected_field data = FIELD_MIN then ''> '' else ''  ''),
                           ArgInt (ct_edited_min data)])
           (if ct_selected_field data = FIELD_MIN then UI_COLOR_TITLE else UI_COLOR_TEXT),
         UiPrint 0 3 (Lit ''Max (ms):'') UI_COLOR_TEXT,
         UiPrint 12 3
           (Fmt ''%s%4d'' [ArgStr (if ct_selected_field data = FIELD_MAX then ''> '' else ''  ''),
                           ArgInt (ct_edited_max data)])
           (if ct_selected_field data = FIELD_MAX then UI_COLOR_TITLE else UI_COLOR_TEXT),
         UiPrint 0 5 (Lit ''UP/DOWN: Select field'') UI_COLOR_DIMMED,
         UiPrint 0 6 (Lit ''</>: Adjust value'') UI_COLOR_DIMMED] @
        (if cstr (ct_status_msg data) \<noteq> []
         then [UiPrint 0 8 (Lit (cstr (ct_status_msg data))) UI_COLOR_BORDER]
         else if ct_saved data then [UiPrint 0 8 (Lit ''Saved!'') UI_COLOR_TITLE]
         else [])) @
     [UiDrawStatus (Lit ''UP/DOWN:Field </>:Adj ENTER:Save ESC:Back'')]"

definition clear_status :: "channel_time_data_t \<Rightarrow> channel_time_data_t" where
  "clear_status data = data\<lparr>ct_saved := False, ct_status_msg := (ct_status_msg data)[0 := NUL]\<rparr>"

text \<open>
  The ENTER / SPACE case of \<open>on_key\<close>; \<open>ret1\<close> and \<open>ret2\<close> are what the two calls of
  \<open>uart_send_command\<close> return.
\<close>

definition save_values ::
  "channel_time_data_t \<Rightarrow> esp_err_t \<Rightarrow> esp_err_t \<Rightarrow> channel_time_data_t \<times> event list" where
  "save_values data ret1 ret2 =
     (case validate_values data of
        (False, d) \<Rightarrow> (d, draw_screen_ct d)
      | (True, d) \<Rightarrow>
          (let sends =
                 [UartSendCommand (Fmt ''channel_time set min %d'' [ArgInt (ct_edited_min d)]),
                  UartSendCommand (Fmt ''channel_time set max %d'' [ArgInt (ct_edited_max d)])]
           in if ret1 = ESP_OK \<and> ret2 = ESP_OK then
                (let d1 = d\<lparr>ct_min_value := ct_edited_min d, ct_max_value := ct_edited_max d,
                              ct_saved := True, ct_status_msg := (ct_status_msg d)[0 := NUL]\<rparr>
                 in (d1, sends @ [EspLog LOGI ''Saved: min=%d, max=%d''] @ draw_screen_ct d1))
              else
                (let d1 = d\<lparr>ct_status_msg := snprintf_lit (ct_status_msg d) ''Send failed!''\<rparr>
                 in (d1, sends @ [EspLog LOGE ''Failed to send commands''] @ draw_screen_ct d1))))"

definition on_key_ct ::
  "channel_time_data_t \<Rightarrow> key_code_t \<Rightarrow> esp_err_t \<Rightarrow> esp_err_t \<Rightarrow>
   channel_time_data_t \<times> event list" where
  "on_key_ct data key ret1 ret2 =
     (if ct_loading data then
        (if key = KEY_ESC \<or> key = KEY_Q \<or> key = KEY_BACKSPACE
         then (data, [UartClearLineCallback, ScreenManagerPop])
         else (data, []))
      else
        (case key of
           KEY_UP \<Rightarrow>
             (let d = clear_status (data\<lparr>ct_selected_field :=
                        (if ct_selected_field data > 0 then ct_selected_field data - 1
                         else FIELD_COUNT - 1)\<rparr>)
              in (d, draw_screen_ct d))
         | KEY_DOWN \<Rightarrow>
             (let d = clear_status (data\<lparr>ct_selected_field :=
                        (if ct_selected_field data < FIELD_COUNT - 1
                         then ct_selected_field data + 1 else 0)\<rparr>)
              in (d, draw_screen_ct d))
         | KEY_LEFT \<Rightarrow>
             (let d0 = clear_status data;
                  d = (if ct_selected_field d0 = FIELD_MIN then
                         (let v = int32 (ct_edited_min d0 - STEP_LARGE)
                          in d0\<lparr>ct_edited_min := (if v < MIN_TIME_MS then MIN_TIME_MS else v)\<rparr>)
                       else
                         (let v = int32 (ct_edited_max d0 - STEP_LARGE)
                          in d0\<lparr>ct_edited_max := (if v < MIN_TIME_MS then MIN_TIME_MS else v)\<rparr>))
              in (d, draw_screen_ct d))
         | KEY_RIGHT \<Rightarrow>
             (let d0 = clear_status data;
                  d = (if ct_selected_field d0 = FIELD_MIN then
                         (let v = int32 (ct_edited_min d0 + STEP_LARGE)
                          in d0\<lparr>ct_edited_min := (if v > MAX_TIME_MS then MAX_TIME_MS else v)\<rparr>)
                       else
                         (let v = int32 (ct_edited_max d0 + STEP_LARGE)
                          in d0\<lparr>ct_edited_max := (if v > MAX_TIME_MS then MAX_TIME_MS else v)\<rparr>))
              in (d, draw_screen_ct d))
         | KEY_ENTER \<Rightarrow> save_values data ret1 ret2
         | KEY_SPACE \<Rightarrow> save_values data ret1 ret2
         | KEY_ESC \<Rightarrow> (data, [UartClearLineCallback, ScreenManagerPop])
         | KEY_Q \<Rightarrow> (data, [UartClearLineCallback, ScreenManagerPop])
         | KEY_BACKSPACE \<Rightarrow> (data, [UartClearLineCallback, ScreenManagerPop])
         | KEY_OTHER \<Rightarrow> (data, [])))"

definition on_destroy_ct :: "channel_time_data_t option \<Rightarrow> event list" where
  "on_destroy_ct user_data =
     [UartClearLineCallback] @ (case user_data of None \<Rightarrow> [] | Some data \<Rightarrow> [Free UserData])"

text \<open>The context block as \<open>channel_time_settings_screen_create\<close> initialises it.\<close>

definition created_ct :: channel_time_data_t where
  "created_ct =
     \<lparr>ct_min_value = 100, ct_max_value = 300, ct_edited_min = 100, ct_edited_max = 300,
      ct_selected_field = FIELD_MIN, ct_loading = True, ct_loading_count = 2,
      ct_saved = False, ct_needs_redraw = False, ct_status_msg = replicate 64 NUL\<rparr>"

section \<open>The network-info screen and the text-input screen\<close>

text \<open>
  \<open>wifi_network_t\<close> is declared outside the sources; the record has the fields the screens
  read, the three strings as the text they hold.
\<close>

record wifi_network_t =
  net_ssid :: string
  net_bssid :: string
  net_security :: string
  net_rssi :: int
  net_channel :: int

datatype info_state_t = STATE_VIEW | STATE_CONNECTING | STATE_RESULT

record network_info_data_t =
  ni_network :: wifi_network_t
  ni_password :: buf
  ni_state :: info_state_t
  ni_success :: bool
  ni_result_msg :: buf
  ni_needs_redraw :: bool
  ni_needs_push_password :: bool
  ni_self :: "nat option"

record network_info_params_t =
  nip_network :: "wifi_network_t option"

definition uart_line_callback_ni ::
  "string \<Rightarrow> network_info_data_t option \<Rightarrow> network_info_data_t option \<times> event list" where
  "uart_line_callback_ni line user_data =
     (case user_data of
        None \<Rightarrow> (None, [])
      | Some data \<Rightarrow>
          if ni_state data \<noteq> STATE_CONNECTING then (Some data, [])
          else if strstr line ''SUCCESS:'' \<noteq> None \<and> strstr line ''Connected'' \<noteq> None then
            (Some (data\<lparr>ni_success := True,
                         ni_result_msg := snprintf_lit (ni_result_msg data) ''Connected!'',
                         ni_state := STATE_RESULT, ni_needs_redraw := True\<rparr>),
             [UartSetWifiConnected True, EspLog LOGI ''WiFi connected successfully''])
          else if strstr line ''FAILED:'' \<noteq> None then
            (Some (data\<lparr>ni_success := False,
                         ni_result_msg := snprintf_lit (ni_result_msg data) ''Connection failed'',
                         ni_state := STATE_RESULT, ni_needs_redraw := True\<rparr>),
             [UartSetWifiConnected False, EspLog LOGW ''WiFi connection failed''])
          else (Some data, []))"

definition shown_ssid :: "wifi_network_t \<Rightarrow> string" where
  "shown_ssid net = (if net_ssid net \<noteq> [] then net_ssid net else ''[Hidden]'')"

definition draw_screen_ni :: "network_info_data_t \<Rightarrow> event list" where
  "draw_screen_ni data =
     [UiClear, UiDrawTitle (Lit ''Network Info'')] @
     (if ni_state data = STATE_CONNECTING then
        [UiPrintCenter 2 (Fmt ''%.28s'' [ArgStr (shown_ssid (ni_network data))]) UI_COLOR_HIGHLIGHT,
         UiPrintCenter 4 (Lit ''Connecting...'') UI_COLOR_DIMMED,
         UiDrawStatus (Lit ''Please wait...'')]
      else if ni_state data = STATE_RESULT then
        [UiPrintCenter 2 (Fmt ''%.28s'' [ArgStr (shown_ssid (ni_network data))]) UI_COLOR_HIGHLIGHT] @
        (if ni_success data
         then [UiPrintCenter 4 (Lit (cstr (ni_result_msg data))) UI_COLOR_HIGHLIGHT,
               UiPrintCenter 5 (Lit ''ENTER: ARP Menu'') UI_COLOR_TEXT]
         else [UiPrintCenter 4 (Lit (cstr (ni_result_msg data))) UI_COLOR_TEXT,
               UiPrintCenter 5 (Lit ''ENTER: Try again'') UI_COLOR_DIMMED]) @
        [UiDrawStatus (Lit ''ENTER:Continue ESC:Back'')]
      else
        [UiPrint 0 1
           (if net_ssid (ni_network data) \<noteq> []
            then Fmt ''SSID: %.21s'' [ArgStr (net_ssid (ni_network data))]
            else Lit ''SSID: [Hidden]'') UI_COLOR_TEXT,
         UiPrint 0 2 (Fmt ''BSSID: %s'' [ArgStr (net_bssid (ni_network data))]) UI_COLOR_TEXT,
         UiPrint 0 3 (Fmt ''Security: %.18s'' [ArgStr (net_security (ni_network data))]) UI_COLOR_TEXT,
         UiPrint 0 4 (Fmt ''Signal: %d dBm'' [ArgInt (net_rssi (ni_network data))]) UI_COLOR_TEXT,
         UiPrint 0 5 (Fmt ''Channel: %d'' [ArgInt (net_channel (ni_network data))]) UI_COLOR_TEXT,
         UiPrintCenter 6 (Lit ''[ENTER to Connect]'') UI_COLOR_HIGHLIGHT,
         UiDrawStatus (Lit ''ENTER:Connect ESC:Back'')])"

definition on_destroy_ni :: "network_info_data_t option \<Rightarrow> event list" where
  "on_destroy_ni user_data =
     [UartClearLineCallback] @ (case user_data of None \<Rightarrow> [] | Some data \<Rightarrow> [Free UserData])"

text \<open>
  The context block as \<open>network_info_screen_create\<close> fills it: zeroed by \<open>calloc\<close>,
  then the network copied in and \<open>self\<close> and the state set.
\<close>

definition created_ni :: "wifi_network_t \<Rightarrow> nat \<Rightarrow> network_info_data_t" where
  "created_ni network scr =
     \<lparr>ni_network = network, ni_password = replicate 65 NUL, ni_state = STATE_VIEW,
      ni_success = False, ni_result_msg = replicate 64 NUL, ni_needs_redraw = False,
      ni_needs_push_password = False, ni_self = Some scr\<rparr>"

text \<open>A network as a scan reports it, for use in examples.\<close>

definition sample_network :: wifi_network_t where
  "sample_network =
     \<lparr>net_ssid = ''home'', net_bssid = ''AA:BB:CC:DD:EE:FF'', net_security = ''WPA2'',
      net_rssi = - 60, net_channel = 6\<rparr>"

text \<open>
  The factories. \<open>params\<close> is the parameter block (\<open>None\<close> is NULL), \<open>screen\<close> what
  \<open>screen_alloc\<close> returns and \<open>calloc_ok\<close> whether \<open>calloc\<close> succeeds. The result is the
  context block of the screen returned, \<open>None\<close> for a NULL return; the hooks of the
  screen are the handlers of this section.
\<close>

definition network_info_screen_create ::
  "network_info_params_t option \<Rightarrow> nat option \<Rightarrow> bool \<Rightarrow>
   network_info_data_t option \<times> event list" where
  "network_info_screen_create params screen calloc_ok =
     (case params of
        None \<Rightarrow> (None, [EspLog LOGE ''Invalid parameters''])
      | Some info_params \<Rightarrow>
          (case nip_network info_params of
             None \<Rightarrow> (None, [EspLog LOGE ''Invalid parameters'', Free ParamsBlock])
           | Some network \<Rightarrow>
               (case screen of
                  None \<Rightarrow>
                    (None, [EspLog LOGI ''Creating network info screen for '%s'...'', ScreenAlloc,
                            Free ParamsBlock])
                | Some scr \<Rightarrow>
                    if \<not> calloc_ok then
                      (None, [EspLog LOGI ''Creating network info screen for '%s'...'', ScreenAlloc,
                              Calloc, Free ScreenBlock, Free ParamsBlock])
                    else
                      (let data = created_ni network scr
                       in (Some data,
                           [EspLog LOGI ''Creating network info screen for '%s'...'', ScreenAlloc,
                            Calloc, Free ParamsBlock] @ draw_screen_ni data @
                           [EspLog LOGI ''Network info screen created''])))))"

record text_input_params_t =
  tip_title :: "string option"
  tip_hint :: "string option"
  tip_on_submit :: "nat option"
  tip_user_data :: "nat option"

record text_input_data_t =
  ti_title :: buf
  ti_hint :: buf
  ti_input :: buf
  ti_cursor_pos :: int
  ti_on_submit :: "nat option"
  ti_callback_user_data :: "nat option"

definition draw_screen_ti :: "text_input_data_t \<Rightarrow> event list" where
  "draw_screen_ti data =
     [UiClear, UiDrawTitle (Lit (cstr (ti_title data))),
      UiPrint 0 2 (Fmt ''%s_'' [ArgStr (cstr (ti_input data))]) UI_COLOR_HIGHLIGHT] @
     (if cstr (ti_hint data) \<noteq> [] then [UiPrint 0 4 (Lit (cstr (ti_hint data))) UI_COLOR_DIMMED]
      else []) @
     [UiDrawStatus (Lit ''ENTER:OK ESC:Cancel'')]"

text \<open>
  \<open>strncpy\<close> of at most \<open>sizeof - 1\<close> bytes into a zeroed buffer of \<open>sizeof\<close> bytes; the
  count is a constant below the size of the array.
\<close>

definition copy_param :: "nat \<Rightarrow> string option \<Rightarrow> buf" where
  "copy_param sz p =
     (case p of
        None \<Rightarrow> replicate sz NUL
      | Some s \<Rightarrow> take (sz - 1) (s @ replicate (sz - 1) NUL) @ drop (sz - 1) (replicate sz NUL))"

text \<open>\<open>TEXT_INPUT_MAX_LEN\<close> is defined in a header outside the sources; it is a parameter.\<close>

definition text_input_screen_create ::
  "nat \<Rightarrow> text_input_params_t option \<Rightarrow> nat option \<Rightarrow> bool \<Rightarrow>
   text_input_data_t option \<times> event list" where
  "text_input_screen_create TEXT_INPUT_MAX_LEN params screen calloc_ok =
     (case params of
        None \<Rightarrow> (None, [EspLog LOGE ''Invalid parameters''])
      | Some input_params \<Rightarrow>
          (case screen of
             None \<Rightarrow>
               (None, [EspLog LOGI ''Creating text input screen: %s'', ScreenAlloc,
                       Free ParamsBlock])
           | Some scr \<Rightarrow>
               if \<not> calloc_ok then
                 (None, [EspLog LOGI ''Creating text input screen: %s'', ScreenAlloc, Calloc,
                         Free ScreenBlock, Free ParamsBlock])
               else
                 (let data = \<lparr>ti_title = copy_param 32 (tip_title input_params),
                               ti_hint = copy_param 48 (tip_hint input_params),
                               ti_input = replicate (TEXT_INPUT_MAX_LEN + 1) NUL,
                               ti_cursor_pos = 0,
                               ti_on_submit = tip_on_submit input_params,
                               ti_callback_user_data = tip_user_data input_params\<rparr>
                  in (Some data,
                      [EspLog LOGI ''Creating text input screen: %s'', ScreenAlloc, Calloc,
                       Free ParamsBlock] @ draw_screen_ti data @
                      [EspLog LOGI ''Text input screen created'']))))"

section \<open>The handshaker screen: its refresh timer\<close>

record handshaker_screen_data_t =
  hs_networks :: "wifi_network_t list"
  hs_count :: int
  hs_captured_ssids :: "buf list"
  hs_captured_count :: int
  hs_needs_redraw :: bool
  hs_refresh_timer :: "nat option"
  hs_self :: "nat option"

text \<open>
  \<open>snprintf(networks_line + len, sizeof(networks_line) - len, ...)\<close> on the 64-byte
  \<open>networks_line\<close>: the text so far, cut where the array ends. It is called with
  \<open>len\<close> below 53 only.
\<close>

definition append_at :: "string \<Rightarrow> nat \<Rightarrow> string \<Rightarrow> string" where
  "append_at acc len s = take len acc @ take (63 - len) s"

fun networks_line_loop :: "wifi_network_t list \<Rightarrow> bool \<Rightarrow> nat \<Rightarrow> string \<Rightarrow> string" where
  "networks_line_loop [] first len acc = acc"
| "networks_line_loop (n # ns) first len acc =
     (if len < 50 then
        (let ssid = shown_ssid n;
             len1 = (if first then len else len + 2);
             acc1 = (if first then acc else append_at acc len '', '')
         in networks_line_loop ns False (len1 + length ssid) (append_at acc1 len1 ssid))
      else acc)"

definition networks_line :: "handshaker_screen_data_t \<Rightarrow> string" where
  "networks_line data =
     (let l = networks_line_loop (take (nat (hs_count data)) (hs_networks data)) True 0 []
      in if length l > 29 then take 26 l @ ''...'' else l)"

fun captured_rows :: "buf list \<Rightarrow> int \<Rightarrow> event list" where
  "captured_rows [] row = []"
| "captured_rows (s # ss) row =
     (if row < 7
      then UiPrint 0 row (Fmt '' %.18s - Complete!'' [ArgStr (cstr s)]) (RGB565 0 255 0)
           # captured_rows ss (row + 1)
      else [])"

definition draw_screen_hs :: "handshaker_screen_data_t \<Rightarrow> event list" where
  "draw_screen_hs data =
     [UiClear, UiDrawTitle (Lit ''Handshaker Running''),
      UiPrint 0 1 (Lit ''Attacking:'') UI_COLOR_DIMMED,
      UiPrint 0 2 (Lit (networks_line data)) UI_COLOR_TEXT] @
     (if hs_captured_count data > 0
      then UiPrint 0 4 (Lit ''Captured:'') UI_COLOR_HIGHLIGHT
           # captured_rows (take (nat (hs_captured_count data)) (hs_captured_ssids data)) 5
      else [UiPrint 0 4 (Lit ''Waiting for handshake...'') UI_COLOR_DIMMED]) @
     [UiDrawStatus (Lit ''ESC: Stop'')]"

definition refresh_timer_callback_hs ::
  "handshaker_screen_data_t option \<Rightarrow> handshaker_screen_data_t option \<times> event list" where
  "refresh_timer_callback_hs arg =
     (case arg of
        None \<Rightarrow> (None, [])
      | Some data \<Rightarrow>
          if hs_needs_redraw data \<and> hs_self data \<noteq> None
          then (let d = data\<lparr>hs_needs_redraw := False\<rparr> in (Some d, draw_screen_hs d))
          else (Some data, []))"

text \<open>
  The line consumer of the handshaker screen. \<open>MAX_SSID_LEN\<close>, the size of one row of
  \<open>captured_ssids\<close>, is defined in a header outside the sources and is a parameter; it
  is the size of an array, so it is not 0, and \<open>MAX_SSID_LEN - 1\<close> does not wrap.
  \<open>strncmp(a, b, n) == 0\<close> compares at most \<open>n\<close> bytes and stops after a NUL.
\<close>

definition MAX_CAPTURED :: int where
  "MAX_CAPTURED = 8"

definition strncmp_eq :: "buf \<Rightarrow> string \<Rightarrow> nat \<Rightarrow> bool" where
  "strncmp_eq a b n = (take n (cstr a @ [NUL]) = take n (b @ [NUL]))"

text \<open>
  The loop over the SSIDs captured so far; \<open>caps\<close> are the rows below
  \<open>captured_count\<close>. A row too short to be read at \<open>ssid_len\<close> is an access outside it.
\<close>

fun already_captured :: "buf list \<Rightarrow> string \<Rightarrow> nat \<Rightarrow> error + bool" where
  "already_captured [] ssid_start ssid_len = Inr False"
| "already_captured (c # caps) ssid_start ssid_len =
     (if strncmp_eq c ssid_start ssid_len then
        (if ssid_len < length c then
           (if c ! ssid_len = NUL then Inr True
            else already_captured caps ssid_start ssid_len)
         else Inl BufferOverflow)
      else already_captured caps ssid_start ssid_len)"

text \<open>
  The length taken from the line: up to the first blank or the end of the line, cut to
  \<open>MAX_SSID_LEN - 1\<close>.
\<close>

definition ssid_len_hs :: "nat \<Rightarrow> string \<Rightarrow> nat" where
  "ssid_len_hs MAX_SSID_LEN ssid_start =
     (let ssid_end = (case strchr ssid_start (CHR '' '') of None \<Rightarrow> [] | Some e \<Rightarrow> e);
          len0 = length ssid_start - length ssid_end
      in if len0 \<ge> MAX_SSID_LEN then MAX_SSID_LEN - 1 else len0)"

text \<open>The body of the consumer once the marker is found and there is room for a capture.\<close>

definition capture_hs ::
  "nat \<Rightarrow> handshaker_screen_data_t \<Rightarrow> string \<Rightarrow>
   error + handshaker_screen_data_t option \<times> event list" where
  "capture_hs MAX_SSID_LEN data ssid_start =
     (let ssid_len = ssid_len_hs MAX_SSID_LEN ssid_start;
          count = nat (hs_captured_count data)
      in bind_err
           (already_captured (take count (hs_captured_ssids data)) ssid_start ssid_len)
           (\<lambda>found_before.
              if found_before then Inr (Some data, [])
              else if hs_captured_count data < 0 \<or> length (hs_captured_ssids data) \<le> count
              then Inl BufferOverflow
              else bind_err
                     (copy_field (hs_captured_ssids data ! count) ssid_start ssid_len)
                     (\<lambda>b. Inr (Some (data\<lparr>hs_captured_ssids :=
                                              (hs_captured_ssids data)[count := b],
                                            hs_captured_count := hs_captured_count data + 1,
                                            hs_needs_redraw := True\<rparr>),
                               [EspLog LOGI ''Handshake captured for SSID: %s'']))))"

definition uart_line_callback_hs ::
  "nat \<Rightarrow> string \<Rightarrow> handshaker_screen_data_t option \<Rightarrow>
   error + handshaker_screen_data_t option \<times> event list" where
  "uart_line_callback_hs MAX_SSID_LEN line user_data =
     (case user_data of
        None \<Rightarrow> Inr (None, [])
      | Some data \<Rightarrow>
          (case strstr line ''Complete 4-way handshake saved for SSID: '' of
             None \<Rightarrow> Inr (Some data, [])
           | Some found \<Rightarrow>
               if hs_captured_count data < MAX_CAPTURED
               then capture_hs MAX_SSID_LEN data
                      (drop (length ''Complete 4-way handshake saved for SSID: '') found)
               else Inr (Some data, [])))"

text \<open>
  The block that \<open>handshaker_screen_create\<close> leaves: \<open>calloc\<close> gives zeroes, then the
  networks, their count and the screen are stored; \<open>timer\<close> is the handle when
  \<open>esp_timer_create\<close> succeeds.
\<close>

definition created_hs ::
  "nat \<Rightarrow> wifi_network_t list \<Rightarrow> int \<Rightarrow> nat option \<Rightarrow> nat \<Rightarrow> handshaker_screen_data_t" where
  "created_hs MAX_SSID_LEN networks count timer screen =
     \<lparr>hs_networks = networks, hs_count = count,
      hs_captured_ssids = replicate (nat MAX_CAPTURED) (replicate MAX_SSID_LEN NUL),
      hs_captured_count = 0, hs_needs_redraw = False, hs_refresh_timer = timer,
      hs_self = Some screen\<rparr>"

section \<open>The data-detail screen: its line consumer\<close>

datatype detail_state_t = DD_STATE_VIEW | DD_STATE_CONNECTING | DD_STATE_RESULT

record data_detail_data_t =
  dd_title :: buf
  dd_lines :: "string option list"
  dd_line_count :: int
  dd_scroll_offset :: int
  dd_connect_ssid :: buf
  dd_connect_password :: buf
  dd_has_connect :: bool
  dd_state :: detail_state_t
  dd_connect_success :: bool
  dd_result_msg :: buf
  dd_needs_redraw :: bool
  dd_self :: "nat option"

definition uart_line_callback_dd ::
  "string \<Rightarrow> data_detail_data_t option \<Rightarrow> data_detail_data_t option \<times> event list" where
  "uart_line_callback_dd line user_data =
     (case user_data of
        None \<Rightarrow> (None, [])
      | Some data \<Rightarrow>
          if dd_state data \<noteq> DD_STATE_CONNECTING then (Some data, [])
          else if strstr line ''SUCCESS:'' \<noteq> None \<and> strstr line ''Connected'' \<noteq> None then
            (Some (data\<lparr>dd_connect_success := True,
                         dd_result_msg := snprintf_lit (dd_result_msg data) ''Connected!'',
                         dd_state := DD_STATE_RESULT, dd_needs_redraw := True\<rparr>),
             [UartSetWifiConnected True, EspLog LOGI ''WiFi connected successfully''])
          else if strstr line ''FAILED:'' \<noteq> None then
            (Some (data\<lparr>dd_connect_success := False,
                         dd_result_msg := snprintf_lit (dd_result_msg data) ''Connection failed'',
                         dd_state := DD_STATE_RESULT, dd_needs_redraw := True\<rparr>),
             [UartSetWifiConnected False, EspLog LOGW ''WiFi connection failed''])
          else (Some data, []))"

section \<open>Well-formed context blocks and the fields of a CSV row\<close>

text \<open>
  A buffer of a context block has the size of its array and, once it has been zeroed or
  written by a handler, a NUL inside: it holds a terminated string.
\<close>

definition holds_string :: "nat \<Rightarrow> buf \<Rightarrow> bool" where
  "holds_string n b = (length b = n \<and> NUL \<in> set b)"

definition wf_wp :: "wardrive_data_t \<Rightarrow> bool" where
  "wf_wp d =
     (holds_string sizeof_last_ssid (wp_last_ssid d) \<and> holds_string sizeof_lat (wp_lat d) \<and>
      holds_string sizeof_lon (wp_lon d))"

definition wf_wd :: "wardrive_data_wd \<Rightarrow> bool" where
  "wf_wd d =
     (holds_string MAX_LOG_LINE (wd_last_log_line d) \<and>
      holds_string sizeof_last_ssid (wd_last_ssid d) \<and> holds_string sizeof_lat (wd_lat d) \<and>
      holds_string sizeof_lon (wd_lon d))"

text \<open>
  The comma-separated fields of a line, counted from 0, as the format of a row describes
  them: \<open>field_from k\<close> is the line from the start of field \<open>k\<close> on, \<open>csv_field k\<close> the
  field itself. They are the reference the comma scan of the line consumer is compared with.
\<close>

fun field_from :: "nat \<Rightarrow> string \<Rightarrow> string option" where
  "field_from 0 s = Some s"
| "field_from (Suc k) [] = None"
| "field_from (Suc k) (c # cs) =
     (if c = CHR '','' then field_from k cs else field_from (Suc k) cs)"

definition csv_field :: "nat \<Rightarrow> string \<Rightarrow> string option" where
  "csv_field k line = map_option (takeWhile (\<lambda>c. c \<noteq> CHR '','')) (field_from k line)"

text \<open>
  The handshaker block: \<open>MAX_CAPTURED\<close> rows of \<open>MAX_SSID_LEN\<close> bytes, and a count of
  captured SSIDs that is not negative.
\<close>

definition wf_hs :: "nat \<Rightarrow> handshaker_screen_data_t \<Rightarrow> bool" where
  "wf_hs MAX_SSID_LEN d =
     (0 < MAX_SSID_LEN \<and> int (length (hs_captured_ssids d)) = MAX_CAPTURED \<and>
      list_all (\<lambda>b. length b = MAX_SSID_LEN) (hs_captured_ssids d) \<and>
      0 \<le> hs_captured_count d)"

text \<open>
  Traces by what they call: only the log; the log and \<open>uart_clear_line_callback\<close>; the
  log and \<open>uart_set_wifi_connected\<close>; only display primitives.
\<close>

definition only_logs :: "event list \<Rightarrow> bool" where
  "only_logs ev = list_all is_log ev"

definition logs_and_clear :: "event list \<Rightarrow> bool" where
  "logs_and_clear ev = list_all (\<lambda>e. is_log e \<or> e = UartClearLineCallback) ev"

definition logs_and_wifi :: "event list \<Rightarrow> bool" where
  "logs_and_wifi ev =
     list_all (\<lambda>e. is_log e \<or> e = UartSetWifiConnected True \<or> e = UartSetWifiConnected False) ev"

definition only_draws :: "event list \<Rightarrow> bool" where
  "only_draws ev = list_all is_draw ev"

text \<open>A trace in which no display primitive is called.\<close>

definition no_draw :: "event list \<Rightarrow> bool" where
  "no_draw ev = list_all (\<lambda>e. \<not> is_draw e) ev"

text \<open>
  The shape of a longitude as the last field of a line: digits, minus signs, and periods
  that a digit follows (\<open>lon_chars\<close>); and what may come after it: the end of the line,
  or a character that is none of these (\<open>lon_stops\<close>).
\<close>

fun lon_chars :: "string \<Rightarrow> bool" where
  "lon_chars [] = True"
| "lon_chars (c # cs) =
     ((isdigit c \<or> c = CHR ''-'' \<or> (c = CHR ''.'' \<and> cs \<noteq> [] \<and> isdigit (hd cs))) \<and>
      lon_chars cs)"

definition lon_stops :: "string \<Rightarrow> bool" where
  "lon_stops r =
     (case r of
        [] \<Rightarrow> True
      | c # cs \<Rightarrow>
          \<not> isdigit c \<and> c \<noteq> CHR ''-'' \<and>
          (c \<noteq> CHR ''.'' \<or> (case cs of [] \<Rightarrow> True | n # r' \<Rightarrow> \<not> isdigit n)))"

section \<open>Buffers: what a guarded copy leaves behind\<close>

lemma copy_field_Inr:
  assumes "n < length dst"
  shows "copy_field dst src n = Inr (take n (src @ replicate n NUL) @ NUL # drop (Suc n) dst)"
proof -
  let ?p = "take n (src @ replicate n NUL)"
  have len: "length ?p = n"
    by simp
  have d: "drop n dst = dst ! n # drop (Suc n) dst"
    using assms by (simp add: Cons_nth_drop_Suc)
  have "(?p @ drop n dst)[n := NUL] = ?p @ (drop n dst)[n - length ?p := NUL]"
    unfolding list_update_append using len by simp
  also have "\<dots> = ?p @ NUL # drop (Suc n) dst"
    unfolding len d by simp
  finally have "(?p @ drop n dst)[n := NUL] = ?p @ NUL # drop (Suc n) dst" .
  then show ?thesis
    using assms by (simp add: copy_field_def strncpy_def poke_def bind_err_def)
qed

lemma cstr_append_NUL: "NUL \<notin> set xs \<Longrightarrow> cstr (xs @ NUL # ys) = xs"
  by (induction xs) (auto simp: cstr_def)

lemma cstr_snprintf_lit:
  "length s < length dst \<Longrightarrow> NUL \<notin> set s \<Longrightarrow> cstr (snprintf_lit dst s) = s"
  by (auto simp: snprintf_lit_def Let_def min_def cstr_append_NUL)

section \<open>Teardown order\<close>

lemma on_destroy_wp_trace:
  "on_destroy_wp ud =
     (case ud of
        None \<Rightarrow> [UartClearLineCallback]
      | Some d \<Rightarrow>
          (case wp_refresh_timer d of
             None \<Rightarrow> [UartClearLineCallback, Free UserData]
           | Some t \<Rightarrow> [EspTimerStop t, EspTimerDelete t, UartClearLineCallback, Free UserData]))"
  by (simp add: on_destroy_wp_def split: option.split)

lemma on_destroy_wd_trace:
  "on_destroy_wd ud =
     (case ud of
        None \<Rightarrow> [UartClearLineCallback]
      | Some d \<Rightarrow>
          (case wd_refresh_timer d of
             None \<Rightarrow> [UartClearLineCallback, Free UserData]
           | Some t \<Rightarrow> [EspTimerStop t, EspTimerDelete t, UartClearLineCallback, Free UserData]))"
  by (simp add: on_destroy_wd_def split: option.split)

lemma before_free_wp:
  assumes "on_destroy_wp ud = pre @ Free UserData # post"
  shows "UartClearLineCallback \<in> set pre \<and>
      (\<forall>d t. ud = Some d \<and> wp_refresh_timer d = Some t \<longrightarrow>
         EspTimerStop t \<in> set pre \<and> EspTimerDelete t \<in> set pre)"
  using assms unfolding on_destroy_wp_trace
  by (auto simp: Cons_eq_append_conv append_eq_Cons_conv split: option.splits)

lemma before_free_wd:
  assumes "on_destroy_wd ud = pre @ Free UserData # post"
  shows "UartClearLineCallback \<in> set pre \<and>
      (\<forall>d t. ud = Some d \<and> wd_refresh_timer d = Some t \<longrightarrow>
         EspTimerStop t \<in> set pre \<and> EspTimerDelete t \<in> set pre)"
  using assms unfolding on_destroy_wd_trace
  by (auto simp: Cons_eq_append_conv append_eq_Cons_conv split: option.splits)

lemma before_free_ct:
  assumes "on_destroy_ct ud = pre @ Free UserData # post"
  shows "UartClearLineCallback \<in> set pre"
  using assms
  by (auto simp: on_destroy_ct_def Cons_eq_append_conv append_eq_Cons_conv split: option.splits)

lemma before_free_ni:
  assumes "on_destroy_ni ud = pre @ Free UserData # post"
  shows "UartClearLineCallback \<in> set pre"
  using assms
  by (auto simp: on_destroy_ni_def Cons_eq_append_conv append_eq_Cons_conv split: option.splits)

lemma destroy_frees_last_wp:
  "\<exists>pre. on_destroy_wp (Some d) = pre @ [Free UserData] \<and> Free UserData \<notin> set pre \<and>
     UartClearLineCallback \<in> set pre \<and>
     (\<forall>t. wp_refresh_timer d = Some t \<longrightarrow>
        EspTimerStop t \<in> set pre \<and> EspTimerDelete t \<in> set pre)"
proof (cases "wp_refresh_timer d")
  case None
  then have "on_destroy_wp (Some d) = [UartClearLineCallback] @ [Free UserData]"
    by (simp add: on_destroy_wp_trace)
  then show ?thesis using None by (intro exI[of _ "[UartClearLineCallback]"]) simp
next
  case (Some t)
  then have "on_destroy_wp (Some d) =
      [EspTimerStop t, EspTimerDelete t, UartClearLineCallback] @ [Free UserData]"
    by (simp add: on_destroy_wp_trace)
  then show ?thesis using Some
    by (intro exI[of _ "[EspTimerStop t, EspTimerDelete t, UartClearLineCallback]"]) simp
qed

lemma destroy_frees_last_wd:
  "\<exists>pre. on_destroy_wd (Some d) = pre @ [Free UserData] \<and> Free UserData \<notin> set pre \<and>
     UartClearLineCallback \<in> set pre \<and>
     (\<forall>t. wd_refresh_timer d = Some t \<longrightarrow>
        EspTimerStop t \<in> set pre \<and> EspTimerDelete t \<in> set pre)"
proof (cases "wd_refresh_timer d")
  case None
  then have "on_destroy_wd (Some d) = [UartClearLineCallback] @ [Free UserData]"
    by (simp add: on_destroy_wd_trace)
  then show ?thesis using None by (intro exI[of _ "[UartClearLineCallback]"]) simp
next
  case (Some t)
  then have "on_destroy_wd (Some d) =
      [EspTimerStop t, EspTimerDelete t, UartClearLineCallback] @ [Free UserData]"
    by (simp add: on_destroy_wd_trace)
  then show ?thesis using Some
    by (intro exI[of _ "[EspTimerStop t, EspTimerDelete t, UartClearLineCallback]"]) simp
qed

lemma destroy_frees_last_ct:
  "\<exists>pre. on_destroy_ct (Some d) = pre @ [Free UserData] \<and> Free UserData \<notin> set pre \<and>
     UartClearLineCallback \<in> set pre"
  by (intro exI[of _ "[UartClearLineCallback]"]) (simp add: on_destroy_ct_def)

lemma destroy_frees_last_ni:
  "\<exists>pre. on_destroy_ni (Some d) = pre @ [Free UserData] \<and> Free UserData \<notin> set pre \<and>
     UartClearLineCallback \<in> set pre"
  by (intro exI[of _ "[UartClearLineCallback]"]) (simp add: on_destroy_ni_def)

lemma destroy_null:
  "on_destroy_wp None = [UartClearLineCallback]" "on_destroy_wd None = [UartClearLineCallback]"
  "on_destroy_ct None = [UartClearLineCallback]" "on_destroy_ni None = [UartClearLineCallback]"
  by (simp_all add: on_destroy_wp_def on_destroy_wd_def on_destroy_ct_def on_destroy_ni_def)

text \<open>
  Claim C1. \<open>on_destroy\<close> of the two wardrive screens, of the channel-time screen and of
  the network-info screen, called with a context block, ends with the one \<open>free\<close> of that
  block, and what it did before contains the call of \<open>uart_clear_line_callback\<close> and,
  where the screen holds a timer, \<open>esp_timer_stop\<close> and \<open>esp_timer_delete\<close> of it. Called
  with no context block it clears the line consumer and frees nothing. So in every trace
  of these handlers, whatever comes before a \<open>free\<close> of the context block contains these
  calls: on no path is the block freed before them.
\<close>

theorem C1_teardown_before_free:
  "((\<exists>p. on_destroy_wp (Some d) = p @ [Free UserData] \<and> Free UserData \<notin> set p \<and>
       UartClearLineCallback \<in> set p \<and>
       (\<forall>t. wp_refresh_timer d = Some t \<longrightarrow>
          EspTimerStop t \<in> set p \<and> EspTimerDelete t \<in> set p)) \<and>
    on_destroy_wp None = [UartClearLineCallback]) \<and>
   ((\<exists>p. on_destroy_wd (Some w) = p @ [Free UserData] \<and> Free UserData \<notin> set p \<and>
       UartClearLineCallback \<in> set p \<and>
       (\<forall>t. wd_refresh_timer w = Some t \<longrightarrow>
          EspTimerStop t \<in> set p \<and> EspTimerDelete t \<in> set p)) \<and>
    on_destroy_wd None = [UartClearLineCallback]) \<and>
   ((\<exists>p. on_destroy_ct (Some c) = p @ [Free UserData] \<and> Free UserData \<notin> set p \<and>
       UartClearLineCallback \<in> set p) \<and>
    on_destroy_ct None = [UartClearLineCallback]) \<and>
   ((\<exists>p. on_destroy_ni (Some n) = p @ [Free UserData] \<and> Free UserData \<notin> set p \<and>
       UartClearLineCallback \<in> set p) \<and>
    on_destroy_ni None = [UartClearLineCallback]) \<and>
   (on_destroy_wp ud = pre @ Free UserData # post \<longrightarrow>
      UartClearLineCallback \<in> set pre \<and>
      (\<forall>d t. ud = Some d \<and> wp_refresh_timer d = Some t \<longrightarrow>
         EspTimerStop t \<in> set pre \<and> EspTimerDelete t \<in> set pre)) \<and>
   (on_destroy_wd ud' = pre @ Free UserData # post \<longrightarrow>
      UartClearLineCallback \<in> set pre \<and>
      (\<forall>d t. ud' = Some d \<and> wd_refresh_timer d = Some t \<longrightarrow>
         EspTimerStop t \<in> set pre \<and> EspTimerDelete t \<in> set pre)) \<and>
   (on_destroy_ct udc = pre @ Free UserData # post \<longrightarrow> UartClearLineCallback \<in> set pre) \<and>
   (on_destroy_ni udn = pre @ Free UserData # post \<longrightarrow> UartClearLineCallback \<in> set pre)"
proof -
  have wp: "on_destroy_wp ud = pre @ Free UserData # post \<longrightarrow>
      UartClearLineCallback \<in> set pre \<and>
      (\<forall>d t. ud = Some d \<and> wp_refresh_timer d = Some t \<longrightarrow>
         EspTimerStop t \<in> set pre \<and> EspTimerDelete t \<in> set pre)"
    by (rule impI) (erule before_free_wp)
  have wd: "on_destroy_wd ud' = pre @ Free UserData # post \<longrightarrow>
      UartClearLineCallback \<in> set pre \<and>
      (\<forall>d t. ud' = Some d \<and> wd_refresh_timer d = Some t \<longrightarrow>
         EspTimerStop t \<in> set pre \<and> EspTimerDelete t \<in> set pre)"
    by (rule impI) (erule before_free_wd)
  have ct: "on_destroy_ct udc = pre @ Free UserData # post \<longrightarrow> UartClearLineCallback \<in> set pre"
    by (rule impI) (erule before_free_ct)
  have ni: "on_destroy_ni udn = pre @ Free UserData # post \<longrightarrow> UartClearLineCallback \<in> set pre"
    by (rule impI) (erule before_free_ni)
  show ?thesis
    by (rule conjI[OF conjI[OF destroy_frees_last_wp destroy_null(1)]
          conjI[OF conjI[OF destroy_frees_last_wd destroy_null(2)]
          conjI[OF conjI[OF destroy_frees_last_ct destroy_null(3)]
          conjI[OF conjI[OF destroy_frees_last_ni destroy_null(4)]
          conjI[OF wp conjI[OF wd conjI[OF ct ni]]]]]]])
qed

theorem C1_teardown_before_free_witness:
  "wp_refresh_timer (created_wp (Some 7) 1) = Some 7 \<and>
   wd_refresh_timer (created_wd (Some 7) 1) = Some 7 \<and>
   (\<exists>p. on_destroy_wp (Some (created_wp (Some 7) 1)) = p @ [Free UserData] \<and>
      Free UserData \<notin> set p \<and> UartClearLineCallback \<in> set p \<and>
      EspTimerStop 7 \<in> set p \<and> EspTimerDelete 7 \<in> set p) \<and>
   (\<exists>p. on_destroy_wd (Some (created_wd (Some 7) 1)) = p @ [Free UserData] \<and>
      Free UserData \<notin> set p \<and> UartClearLineCallback \<in> set p \<and>
      EspTimerStop 7 \<in> set p \<and> EspTimerDelete 7 \<in> set p) \<and>
   wp_refresh_timer (created_wp None 1) = None \<and>
   (\<exists>p. on_destroy_wp (Some (created_wp None 1)) = p @ [Free UserData] \<and>
      Free UserData \<notin> set p \<and> UartClearLineCallback \<in> set p) \<and>
   on_destroy_wp None = [UartClearLineCallback] \<and>
   on_destroy_wp (Some (created_wp (Some 7) 1)) =
     [EspTimerStop 7, EspTimerDelete 7, UartClearLineCallback] @ Free UserData # [] \<and>
   on_destroy_wd (Some (created_wd (Some 7) 1)) =
     [EspTimerStop 7, EspTimerDelete 7, UartClearLineCallback] @ Free UserData # [] \<and>
   on_destroy_ct (Some created_ct) = [UartClearLineCallback] @ Free UserData # [] \<and>
   on_destroy_ni (Some (created_ni sample_network 1)) =
     [UartClearLineCallback] @ Free UserData # [] \<and>
   UartClearLineCallback \<in> set [EspTimerStop 7, EspTimerDelete 7, UartClearLineCallback] \<and>
   EspTimerStop 7 \<in> set [EspTimerStop 7, EspTimerDelete 7, UartClearLineCallback] \<and>
   EspTimerDelete 7 \<in> set [EspTimerStop 7, EspTimerDelete 7, UartClearLineCallback] \<and>
   UartClearLineCallback \<in> set [UartClearLineCallback]"
proof -
  have t: "wp_refresh_timer (created_wp (Some 7) 1) = Some 7"
    "wd_refresh_timer (created_wd (Some 7) 1) = Some 7"
    "wp_refresh_timer (created_wp None 1) = None"
    by (simp_all add: created_wp_def created_wd_def)
  note a = C1_teardown_before_free
          [where d = "created_wp (Some 7) 1" and w = "created_wd (Some 7) 1"
             and ud = "Some (created_wp (Some 7) 1)"
             and pre = "[EspTimerStop 7, EspTimerDelete 7, UartClearLineCallback]"
             and post = "[]" and ud' = "Some (created_wd (Some 7) 1)"
             and udc = "Some created_ct" and udn = "Some (created_ni sample_network 1)"]
  note b = C1_teardown_before_free
          [where d = "created_wp None 1"
             and ud = "Some (created_wp (Some 7) 1)" and pre = "[UartClearLineCallback]"
             and post = "[]" and ud' = "Some (created_wd (Some 7) 1)"
             and udc = "Some created_ct" and udn = "Some (created_ni sample_network 1)"]
  have wp: "\<exists>p. on_destroy_wp (Some (created_wp (Some 7) 1)) = p @ [Free UserData] \<and>
      Free UserData \<notin> set p \<and> UartClearLineCallback \<in> set p \<and>
      EspTimerStop 7 \<in> set p \<and> EspTimerDelete 7 \<in> set p"
    using a[THEN conjunct1, THEN conjunct1] t(1) by simp
  have wd: "\<exists>p. on_destroy_wd (Some (created_wd (Some 7) 1)) = p @ [Free UserData] \<and>
      Free UserData \<notin> set p \<and> UartClearLineCallback \<in> set p \<and>
      EspTimerStop 7 \<in> set p \<and> EspTimerDelete 7 \<in> set p"
    using a[THEN conjunct2, THEN conjunct1, THEN conjunct1] t(2) by simp
  have nt: "\<exists>p. on_destroy_wp (Some (created_wp None 1)) = p @ [Free UserData] \<and>
      Free UserData \<notin> set p \<and> UartClearLineCallback \<in> set p"
    using b[THEN conjunct1, THEN conjunct1] by blast
  have nul: "on_destroy_wp None = [UartClearLineCallback]"
    by (rule a[THEN conjunct1, THEN conjunct2])
  have tr: "on_destroy_wp (Some (created_wp (Some 7) 1)) =
     [EspTimerStop 7, EspTimerDelete 7, UartClearLineCallback] @ Free UserData # []"
    "on_destroy_wd (Some (created_wd (Some 7) 1)) =
     [EspTimerStop 7, EspTimerDelete 7, UartClearLineCallback] @ Free UserData # []"
    "on_destroy_ct (Some created_ct) = [UartClearLineCallback] @ Free UserData # []"
    "on_destroy_ni (Some (created_ni sample_network 1)) =
     [UartClearLineCallback] @ Free UserData # []"
    by (simp_all add: on_destroy_wp_def on_destroy_wd_def on_destroy_ct_def on_destroy_ni_def
        created_wp_def created_wd_def)
  show ?thesis
    using t wp wd nt nul tr by simp
qed

section \<open>Saving the channel times\<close>

lemma sent_commands_append: "sent_commands (xs @ ys) = sent_commands xs @ sent_commands ys"
  by (induction xs rule: sent_commands.induct) simp_all

lemma sent_commands_draws: "\<forall>e\<in>set es. is_draw e \<Longrightarrow> sent_commands es = []"
  by (induction es rule: sent_commands.induct) simp_all

lemma draw_ct_is_draw: "e \<in> set (draw_screen_ct d) \<Longrightarrow> is_draw e"
  by (auto simp: draw_screen_ct_def split: if_splits)

lemma sent_draw_ct: "sent_commands (draw_screen_ct d) = []"
  by (rule sent_commands_draws) (simp add: draw_ct_is_draw)

lemma validate_values_fst:
  "fst (validate_values d) \<longleftrightarrow>
     \<not> (ct_edited_min d < MIN_TIME_MS \<or> ct_edited_min d > MAX_TIME_MS) \<and>
     \<not> (ct_edited_max d < MIN_TIME_MS \<or> ct_edited_max d > MAX_TIME_MS) \<and>
     \<not> (ct_edited_min d \<ge> ct_edited_max d)"
  unfolding validate_values_def by (simp split: if_splits)

lemma validate_values_iff:
  "fst (validate_values d) \<longleftrightarrow>
     100 \<le> ct_edited_min d \<and> ct_edited_min d \<le> 1500 \<and>
     100 \<le> ct_edited_max d \<and> ct_edited_max d \<le> 1500 \<and> ct_edited_min d < ct_edited_max d"
  unfolding validate_values_fst MIN_TIME_MS_def MAX_TIME_MS_def by linarith

lemma validate_values_True: "fst (validate_values d) \<Longrightarrow> validate_values d = (True, d)"
  unfolding validate_values_def by (simp split: if_splits)

lemma validate_values_False:
  assumes "\<not> fst (validate_values d)"
  shows "validate_values d =
     (False, d\<lparr>ct_status_msg := snprintf_lit (ct_status_msg d)
        (if ct_edited_min d < MIN_TIME_MS \<or> ct_edited_min d > MAX_TIME_MS
         then ''Min must be 100-1500 ms''
         else if ct_edited_max d < MIN_TIME_MS \<or> ct_edited_max d > MAX_TIME_MS
         then ''Max must be 100-1500 ms'' else ''Min must be < Max'')\<rparr>)"
proof (cases "ct_edited_min d < MIN_TIME_MS \<or> ct_edited_min d > MAX_TIME_MS")
  case True
  then show ?thesis by (simp add: validate_values_def)
next
  case min_ok: False
  show ?thesis
  proof (cases "ct_edited_max d < MIN_TIME_MS \<or> ct_edited_max d > MAX_TIME_MS")
    case True
    with min_ok show ?thesis by (simp add: validate_values_def)
  next
    case max_ok: False
    from assms min_ok max_ok have "ct_edited_min d \<ge> ct_edited_max d"
      unfolding validate_values_fst by blast
    with min_ok max_ok show ?thesis by (simp add: validate_values_def)
  qed
qed

lemma save_values_invalid:
  assumes "\<not> fst (validate_values d)"
  shows "save_values d r1 r2 = (snd (validate_values d), draw_screen_ct (snd (validate_values d)))"
  using assms by (cases "validate_values d") (simp add: save_values_def)

lemma save_values_failed:
  assumes "fst (validate_values d)" "r1 \<noteq> ESP_OK \<or> r2 \<noteq> ESP_OK"
  shows "save_values d r1 r2 =
    (d\<lparr>ct_status_msg := snprintf_lit (ct_status_msg d) ''Send failed!''\<rparr>,
     [UartSendCommand (Fmt ''channel_time set min %d'' [ArgInt (ct_edited_min d)]),
      UartSendCommand (Fmt ''channel_time set max %d'' [ArgInt (ct_edited_max d)]),
      EspLog LOGE ''Failed to send commands''] @
     draw_screen_ct (d\<lparr>ct_status_msg := snprintf_lit (ct_status_msg d) ''Send failed!''\<rparr>))"
  using assms(2) by (auto simp add: save_values_def validate_values_True[OF assms(1)] Let_def)

lemma save_values_ok:
  assumes "fst (validate_values d)"
  shows "save_values d ESP_OK ESP_OK =
    (d\<lparr>ct_min_value := ct_edited_min d, ct_max_value := ct_edited_max d,
       ct_saved := True, ct_status_msg := (ct_status_msg d)[0 := NUL]\<rparr>,
     [UartSendCommand (Fmt ''channel_time set min %d'' [ArgInt (ct_edited_min d)]),
      UartSendCommand (Fmt ''channel_time set max %d'' [ArgInt (ct_edited_max d)]),
      EspLog LOGI ''Saved: min=%d, max=%d''] @
     draw_screen_ct (d\<lparr>ct_min_value := ct_edited_min d, ct_max_value := ct_edited_max d,
       ct_saved := True, ct_status_msg := (ct_status_msg d)[0 := NUL]\<rparr>))"
  by (simp add: save_values_def validate_values_True[OF assms(1)] Let_def)

lemma on_key_ct_save:
  "\<not> ct_loading d \<Longrightarrow> key = KEY_ENTER \<or> key = KEY_SPACE \<Longrightarrow>
   on_key_ct d key r1 r2 = save_values d r1 r2"
  by (auto simp: on_key_ct_def)


lemma sent_save_values_valid:
  assumes "fst (validate_values d)"
  shows "sent_commands (snd (save_values d r1 r2)) =
    [Fmt ''channel_time set min %d'' [ArgInt (ct_edited_min d)],
     Fmt ''channel_time set max %d'' [ArgInt (ct_edited_max d)]]"
proof (cases "r1 = ESP_OK \<and> r2 = ESP_OK")
  case True
  then show ?thesis
    using save_values_ok[OF assms] by (simp add: sent_commands_append sent_draw_ct)
next
  case False
  then have "r1 \<noteq> ESP_OK \<or> r2 \<noteq> ESP_OK" by blast
  from save_values_failed[OF assms this] show ?thesis
    by (simp add: sent_commands_append sent_draw_ct)
qed

text \<open>
  Claim C10. Outside the loading state ENTER or SPACE hands the two \<open>channel_time set\<close>
  commands to the serial bridge exactly when both edited values lie in 100..1500 and the
  minimum is below the maximum. Otherwise nothing is sent, the stored values stay, and
  \<open>status_msg\<close> holds the message of the first check that failed.
\<close>

theorem C10_save_iff_valid:
  assumes "\<not> ct_loading d" and "key = KEY_ENTER \<or> key = KEY_SPACE"
    and "length (ct_status_msg d) = 64"
  shows
    "(100 \<le> ct_edited_min d \<and> ct_edited_min d \<le> 1500 \<and>
      100 \<le> ct_edited_max d \<and> ct_edited_max d \<le> 1500 \<and>
      ct_edited_min d < ct_edited_max d \<longrightarrow>
        sent_commands (snd (on_key_ct d key ret1 ret2)) =
          [Fmt ''channel_time set min %d'' [ArgInt (ct_edited_min d)],
           Fmt ''channel_time set max %d'' [ArgInt (ct_edited_max d)]]) \<and>
     (\<not> (100 \<le> ct_edited_min d \<and> ct_edited_min d \<le> 1500 \<and>
         100 \<le> ct_edited_max d \<and> ct_edited_max d \<le> 1500 \<and>
         ct_edited_min d < ct_edited_max d) \<longrightarrow>
        sent_commands (snd (on_key_ct d key ret1 ret2)) = [] \<and>
        ct_min_value (fst (on_key_ct d key ret1 ret2)) = ct_min_value d \<and>
        ct_max_value (fst (on_key_ct d key ret1 ret2)) = ct_max_value d \<and>
        cstr (ct_status_msg (fst (on_key_ct d key ret1 ret2))) =
          (if ct_edited_min d < 100 \<or> ct_edited_min d > 1500 then ''Min must be 100-1500 ms''
           else if ct_edited_max d < 100 \<or> ct_edited_max d > 1500
           then ''Max must be 100-1500 ms'' else ''Min must be < Max''))"
proof (cases "fst (validate_values d)")
  case True
  then show ?thesis
    using sent_save_values_valid[OF True, of ret1 ret2]
    by (simp add: on_key_ct_save[OF assms(1,2)] validate_values_iff)
next
  case False
  have key: "on_key_ct d key ret1 ret2 =
    (snd (validate_values d), draw_screen_ct (snd (validate_values d)))"
    by (simp add: on_key_ct_save[OF assms(1,2)] save_values_invalid[OF False])
  have msg: "cstr (snprintf_lit (ct_status_msg d) m) = m"
    if "length m < 64" "NUL \<notin> set m" for m
    using that assms(3) by (simp add: cstr_snprintf_lit)
  have "cstr (ct_status_msg (snd (validate_values d))) =
          (if ct_edited_min d < 100 \<or> ct_edited_min d > 1500 then ''Min must be 100-1500 ms''
           else if ct_edited_max d < 100 \<or> ct_edited_max d > 1500
           then ''Max must be 100-1500 ms'' else ''Min must be < Max'')"
    unfolding validate_values_False[OF False] MIN_TIME_MS_def MAX_TIME_MS_def
    by (simp add: msg)
  moreover have "ct_min_value (snd (validate_values d)) = ct_min_value d"
    "ct_max_value (snd (validate_values d)) = ct_max_value d"
    unfolding validate_values_False[OF False] by simp_all
  ultimately show ?thesis
    using False unfolding key validate_values_iff by (simp add: sent_draw_ct)
qed

theorem C10_save_iff_valid_witness:
  "sent_commands (snd (on_key_ct (created_ct\<lparr>ct_loading := False\<rparr>) KEY_ENTER 0 0)) =
     [Fmt ''channel_time set min %d'' [ArgInt 100], Fmt ''channel_time set max %d'' [ArgInt 300]] \<and>
   sent_commands
     (snd (on_key_ct (created_ct\<lparr>ct_loading := False, ct_edited_min := 300\<rparr>) KEY_SPACE 0 0)) = [] \<and>
   cstr (ct_status_msg
     (fst (on_key_ct (created_ct\<lparr>ct_loading := False, ct_edited_min := 300\<rparr>) KEY_SPACE 0 0))) =
     ''Min must be < Max''"
  using C10_save_iff_valid [of "created_ct\<lparr>ct_loading := False\<rparr>" KEY_ENTER 0 0]
        C10_save_iff_valid
          [of "created_ct\<lparr>ct_loading := False, ct_edited_min := 300\<rparr>" KEY_SPACE 0 0]
  by (simp add: created_ct_def)

text \<open>
  Claim C8. When the edited values are valid and one of the two sends fails, ENTER or SPACE
  leaves \<open>Send failed!\<close> in \<open>status_msg\<close> and the stored values as they were; each
  command went out once, nothing is sent again by the handler, and the same key repeats
  the attempt: it sends both commands again and, when both sends succeed, stores the
  edited values.
\<close>

theorem C8_send_failure_reported:
  assumes "\<not> ct_loading d" and "key = KEY_ENTER \<or> key = KEY_SPACE"
    and "length (ct_status_msg d) = 64"
    and "100 \<le> ct_edited_min d" and "ct_edited_min d \<le> 1500"
    and "100 \<le> ct_edited_max d" and "ct_edited_max d \<le> 1500"
    and "ct_edited_min d < ct_edited_max d"
    and "ret1 \<noteq> ESP_OK \<or> ret2 \<noteq> ESP_OK"
  shows
    "cstr (ct_status_msg (fst (on_key_ct d key ret1 ret2))) = ''Send failed!'' \<and>
     ct_min_value (fst (on_key_ct d key ret1 ret2)) = ct_min_value d \<and>
     ct_max_value (fst (on_key_ct d key ret1 ret2)) = ct_max_value d \<and>
     sent_commands (snd (on_key_ct d key ret1 ret2)) =
       [Fmt ''channel_time set min %d'' [ArgInt (ct_edited_min d)],
        Fmt ''channel_time set max %d'' [ArgInt (ct_edited_max d)]] \<and>
     sent_commands (snd (on_key_ct (fst (on_key_ct d key ret1 ret2)) key again1 again2)) =
       [Fmt ''channel_time set min %d'' [ArgInt (ct_edited_min d)],
        Fmt ''channel_time set max %d'' [ArgInt (ct_edited_max d)]] \<and>
     ct_min_value (fst (on_key_ct (fst (on_key_ct d key ret1 ret2)) key ESP_OK ESP_OK)) =
       ct_edited_min d \<and>
     ct_max_value (fst (on_key_ct (fst (on_key_ct d key ret1 ret2)) key ESP_OK ESP_OK)) =
       ct_edited_max d \<and>
     ct_saved (fst (on_key_ct (fst (on_key_ct d key ret1 ret2)) key ESP_OK ESP_OK))"
proof -
  let ?d' = "d\<lparr>ct_status_msg := snprintf_lit (ct_status_msg d) ''Send failed!''\<rparr>"
  have valid: "fst (validate_values d)"
    using assms(4-8) by (simp add: validate_values_iff)
  have valid': "fst (validate_values ?d')"
    using assms(4-8) by (simp add: validate_values_iff)
  have loading': "\<not> ct_loading ?d'"
    using assms(1) by simp
  have first: "on_key_ct d key ret1 ret2 =
    (?d', [UartSendCommand (Fmt ''channel_time set min %d'' [ArgInt (ct_edited_min d)]),
           UartSendCommand (Fmt ''channel_time set max %d'' [ArgInt (ct_edited_max d)]),
           EspLog LOGE ''Failed to send commands''] @ draw_screen_ct ?d')"
    by (simp only: on_key_ct_save[OF assms(1,2)] save_values_failed[OF valid assms(9)])
  have msg: "cstr (ct_status_msg ?d') = ''Send failed!''"
    using assms(3) by (simp add: cstr_snprintf_lit)
  have again: "sent_commands (snd (on_key_ct ?d' key again1 again2)) =
       [Fmt ''channel_time set min %d'' [ArgInt (ct_edited_min d)],
        Fmt ''channel_time set max %d'' [ArgInt (ct_edited_max d)]]"
    using sent_save_values_valid[OF valid', of again1 again2]
    by (simp add: on_key_ct_save[OF loading' assms(2)])
  have ok: "on_key_ct ?d' key ESP_OK ESP_OK = save_values ?d' ESP_OK ESP_OK"
    by (rule on_key_ct_save[OF loading' assms(2)])
  show ?thesis
    unfolding first fst_conv snd_conv ok save_values_ok[OF valid']
    using msg again by (simp add: sent_commands_append sent_draw_ct)
qed

theorem C8_send_failure_reported_witness:
  "cstr (ct_status_msg (fst (on_key_ct (created_ct\<lparr>ct_loading := False\<rparr>) KEY_ENTER 0 (- 1)))) =
     ''Send failed!'' \<and>
   ct_min_value (fst (on_key_ct (created_ct\<lparr>ct_loading := False, ct_edited_min := 120\<rparr>)
     KEY_ENTER 0 (- 1))) = 100 \<and>
   ct_min_value (fst (on_key_ct (fst (on_key_ct
     (created_ct\<lparr>ct_loading := False, ct_edited_min := 120\<rparr>) KEY_ENTER 0 (- 1)))
     KEY_ENTER ESP_OK ESP_OK)) = 120"
  using C8_send_failure_reported [of "created_ct\<lparr>ct_loading := False\<rparr>" KEY_ENTER 0 "- 1"]
        C8_send_failure_reported
          [of "created_ct\<lparr>ct_loading := False, ct_edited_min := 120\<rparr>" KEY_ENTER 0 "- 1"]
  by (simp add: created_ct_def)

section \<open>The factories and their parameter block\<close>

lemma draw_screen_ti_no_free: "count_list (draw_screen_ti d) (Free b) = 0"
  by (simp add: draw_screen_ti_def)

lemma draw_screen_ni_no_free: "count_list (draw_screen_ni d) (Free b) = 0"
  by (simp add: draw_screen_ni_def)

lemma ti_create_frees:
  "count_list (snd (text_input_screen_create m (Some p) screen calloc_ok)) (Free ParamsBlock) = 1"
  by (cases screen; cases calloc_ok)
     (simp_all add: text_input_screen_create_def Let_def draw_screen_ti_no_free)

lemma ti_create_null:
  "fst (text_input_screen_create m (Some p) screen calloc_ok) = None
     \<longleftrightarrow> screen = None \<or> \<not> calloc_ok"
  by (cases screen; cases calloc_ok) (simp_all add: text_input_screen_create_def Let_def)

lemma ni_create_frees:
  "count_list (snd (network_info_screen_create (Some q) screen calloc_ok)) (Free ParamsBlock) = 1"
  by (cases "nip_network q"; cases screen; cases calloc_ok)
     (simp_all add: network_info_screen_create_def Let_def draw_screen_ni_no_free)

lemma ni_create_null:
  "fst (network_info_screen_create (Some q) screen calloc_ok) = None
     \<longleftrightarrow> nip_network q = None \<or> screen = None \<or> \<not> calloc_ok"
  by (cases "nip_network q"; cases screen; cases calloc_ok)
     (simp_all add: network_info_screen_create_def Let_def)

text \<open>
  Claim C9. Given a parameter block that is not NULL, \<open>text_input_screen_create\<close> and
  \<open>network_info_screen_create\<close> free it exactly once whatever path they take, and return
  NULL exactly when the parameters are rejected or an allocation fails.
\<close>

theorem C9_factories_free_params_once:
  "count_list (snd (text_input_screen_create m (Some p) screen calloc_ok)) (Free ParamsBlock) = 1 \<and>
   (fst (text_input_screen_create m (Some p) screen calloc_ok) = None
      \<longleftrightarrow> screen = None \<or> \<not> calloc_ok) \<and>
   count_list (snd (network_info_screen_create (Some q) screen' calloc_ok')) (Free ParamsBlock) = 1 \<and>
   (fst (network_info_screen_create (Some q) screen' calloc_ok') = None
      \<longleftrightarrow> nip_network q = None \<or> screen' = None \<or> \<not> calloc_ok')"
proof (intro conjI)
  show "count_list (snd (text_input_screen_create m (Some p) screen calloc_ok))
          (Free ParamsBlock) = 1"
    by (rule ti_create_frees)
  show "fst (text_input_screen_create m (Some p) screen calloc_ok) = None
          \<longleftrightarrow> screen = None \<or> \<not> calloc_ok"
    by (rule ti_create_null)
  show "count_list (snd (network_info_screen_create (Some q) screen' calloc_ok'))
          (Free ParamsBlock) = 1"
    by (rule ni_create_frees)
  show "fst (network_info_screen_create (Some q) screen' calloc_ok') = None
          \<longleftrightarrow> nip_network q = None \<or> screen' = None \<or> \<not> calloc_ok'"
    by (rule ni_create_null)
qed

theorem C9_factories_free_params_once_witness:
  "count_list (snd (text_input_screen_create 64
      (Some \<lparr>tip_title = Some ''Enter Password'', tip_hint = Some ''WiFi password'',
             tip_on_submit = Some 1, tip_user_data = Some 2\<rparr>) (Some 3) True)) (Free ParamsBlock) = 1 \<and>
   fst (text_input_screen_create 64
      (Some \<lparr>tip_title = Some ''Enter Password'', tip_hint = Some ''WiFi password'',
             tip_on_submit = Some 1, tip_user_data = Some 2\<rparr>) (Some 3) True) \<noteq> None \<and>
   count_list (snd (network_info_screen_create (Some \<lparr>nip_network = None\<rparr>) (Some 3) True))
      (Free ParamsBlock) = 1 \<and>
   fst (network_info_screen_create (Some \<lparr>nip_network = None\<rparr>) (Some 3) True) = None \<and>
   fst (network_info_screen_create (Some \<lparr>nip_network = Some sample_network\<rparr>) (Some 3) False) = None"
  using C9_factories_free_params_once
          [of 64 "\<lparr>tip_title = Some ''Enter Password'', tip_hint = Some ''WiFi password'',
             tip_on_submit = Some 1, tip_user_data = Some 2\<rparr>" "Some 3" True
              "\<lparr>nip_network = None\<rparr>" "Some 3" True]
        C9_factories_free_params_once
          [of 64 "\<lparr>tip_title = Some ''Enter Password'', tip_hint = Some ''WiFi password'',
             tip_on_submit = Some 1, tip_user_data = Some 2\<rparr>" "Some 3" True
              "\<lparr>nip_network = Some sample_network\<rparr>" "Some 3" False]
  by simp

section \<open>Loading the channel times\<close>

lemma isdigit_not_space: "isdigit c \<Longrightarrow> \<not> isspace c"
  by (simp add: isdigit_def isspace_def)

lemma isdigit_not_sign: "isdigit c \<Longrightarrow> c \<noteq> CHR ''-'' \<and> c \<noteq> CHR ''+''"
  by (auto simp: isdigit_def)


lemma takeWhile_run:
  assumes "\<forall>c\<in>set ds. P c" and "post = [] \<or> \<not> P (hd post)"
  shows "takeWhile P (ds @ post) = ds"
  using assms by (cases post) (simp_all add: takeWhile_append2)

lemma scan_int_digits:
  assumes "ds \<noteq> []" and "\<forall>c\<in>set ds. isdigit c" and "post = [] \<or> \<not> isdigit (hd post)"
  shows "scan_int (ds @ post) = Some (min INT_MAX (dec_val ds), post)"
proof -
  from assms obtain c cs where ds: "ds = c # cs" "isdigit c"
    by (cases ds) auto
  have sp: "dropWhile isspace (ds @ post) = ds @ post"
    using ds by (simp add: isdigit_not_space)
  have sg: "scan_sign (ds @ post) = (False, ds @ post)"
    using ds isdigit_not_sign[of c] by (simp add: scan_sign_def)
  have tw: "takeWhile isdigit (ds @ post) = ds"
    by (rule takeWhile_run[OF assms(2,3)])
  have dw: "dropWhile isdigit (ds @ post) = post"
    using assms(2,3) by (cases post) (simp_all add: dropWhile_append2)
  show ?thesis
    unfolding scan_int_def sp sg using assms(1) by (simp add: tw dw)
qed























section \<open>Searching a line, and the fields of a CSV row\<close>

lemma strchr_eq:
  "strchr s c = (if c \<in> set s then Some (dropWhile (\<lambda>x. x \<noteq> c) s) else None)"
  by (induction s) auto

lemma strchr_None_iff: "strchr s c = None \<longleftrightarrow> c \<notin> set s"
  by (simp add: strchr_eq)

lemma length_minus_dropWhile:
  "length s - length (dropWhile P s) = length (takeWhile P s)"
proof -
  have "length (takeWhile P s) + length (dropWhile P s) = length s"
    by (metis length_append takeWhile_dropWhile_id)
  then show ?thesis by simp
qed

lemma strchr_Some:
  assumes "strchr s c = Some e"
  shows "e = dropWhile (\<lambda>x. x \<noteq> c) s"
    and "length s - length e = length (takeWhile (\<lambda>x. x \<noteq> c) s)"
    and "c \<in> set s"
proof -
  from assms show "c \<in> set s" and e: "e = dropWhile (\<lambda>x. x \<noteq> c) s"
    by (simp_all add: strchr_eq split: if_splits)
  show "length s - length e = length (takeWhile (\<lambda>x. x \<noteq> c) s)"
    unfolding e by (rule length_minus_dropWhile)
qed

lemma copied_holds_string:
  assumes "holds_string N dst" and "n < N"
  shows "holds_string N (take n (src @ replicate n NUL) @ NUL # drop (Suc n) dst)"
proof -
  have "length (take n (src @ replicate n NUL)) = n"
    by simp
  moreover have "length (drop (Suc n) dst) = N - Suc n"
    using assms by (simp add: holds_string_def)
  ultimately have "length (take n (src @ replicate n NUL) @ NUL # drop (Suc n) dst) = N"
    using assms(2) by (simp del: length_take length_drop take_append)
  then show ?thesis
    by (simp add: holds_string_def del: take_append)
qed

lemma guarded_copy:
  assumes "holds_string N dst"
  shows "\<exists>b. (if P \<and> n < N then copy_field dst src n else Inr dst) = Inr b \<and>
             holds_string N b \<and>
             (b = dst \<or> (P \<and> n < N \<and> b = take n (src @ replicate n NUL) @ NUL # drop (Suc n) dst))"
proof (cases "P \<and> n < N")
  case True
  then have n: "n < length dst" using assms by (simp add: holds_string_def)
  from True have "n < N" by simp
  from copied_holds_string[OF assms this, of src] True show ?thesis
    unfolding copy_field_Inr[OF n] by (intro exI[of _ "take n (src @ replicate n NUL) @ NUL # drop (Suc n) dst"]) (simp del: take_append)
next
  case False
  then have "(if P \<and> n < N then copy_field dst src n else Inr dst) = Inr dst"
    by (simp only: if_False)
  then show ?thesis using assms by blast
qed


lemma csv_ssid_eq:
  "csv_ssid line b =
     (case strchr (drop 18 line) (CHR '','') of
        None \<Rightarrow> Inr b
      | Some e \<Rightarrow>
          (if length e < length (drop 18 line) \<and>
              length (drop 18 line) - length e < sizeof_last_ssid
           then copy_field b (drop 18 line) (length (drop 18 line) - length e)
           else Inr b))"
  by (simp add: csv_ssid_def Let_def split: option.split)

lemma csv_ssid_safe:
  assumes "holds_string sizeof_last_ssid b"
  shows "\<exists>b'. csv_ssid line b = Inr b' \<and> holds_string sizeof_last_ssid b'"
proof (cases "strchr (drop 18 line) (CHR '','')")
  case None
  then show ?thesis using assms by (simp add: csv_ssid_eq)
next
  case (Some e)
  from guarded_copy[OF assms, of "length e < length (drop 18 line)"
      "length (drop 18 line) - length e" "drop 18 line"]
  show ?thesis unfolding csv_ssid_eq Some option.case by blast
qed



lemma scan_commas_count:
  "fst (scan_commas p cc fs) = cc + count_list p (CHR '','')"
  by (induction p arbitrary: cc fs) simp_all

lemma field_from_Suc_diff:
  "cc < k \<Longrightarrow> field_from (k - cc) (c # p) =
     (if c = CHR '','' then field_from (k - Suc cc) p else field_from (k - cc) p)"
proof -
  assume "cc < k"
  then obtain n where k: "k = Suc (cc + n)"
    by (metis less_iff_Suc_add add_Suc_right)
  have "k - cc = Suc n" "k - Suc cc = n"
    unfolding k by simp_all
  then show ?thesis by simp
qed

lemma scan_commas_nth:
  assumes "k < length fs" and "length fs = 9"
  shows "snd (scan_commas p cc fs) ! k =
     (if cc < k \<and> k \<le> cc + count_list p (CHR '','') then field_from (k - cc) p else fs ! k)"
  using assms
proof (induction p arbitrary: cc fs)
  case Nil
  then show ?case by auto
next
  case (Cons c p)
  show ?case
  proof (cases "c = CHR '',''")
    case False
    then show ?thesis
      using Cons.IH[of fs cc] Cons.prems by (simp add: field_from_Suc_diff)
  next
    case True
    let ?fs = "if Suc cc < 9 then fs[Suc cc := Some p] else fs"
    have len: "k < length ?fs" "length ?fs = 9"
      using Cons.prems by simp_all
    have step: "snd (scan_commas (c # p) cc fs) ! k =
      (if Suc cc < k \<and> k \<le> Suc cc + count_list p (CHR '','')
       then field_from (k - Suc cc) p else ?fs ! k)"
      using Cons.IH[OF len, of "Suc cc"] True by simp
    show ?thesis
    proof (cases "k = Suc cc")
      case True
      then show ?thesis
        using step Cons.prems \<open>c = CHR '',''\<close> by simp
    next
      case False
      then have "?fs ! k = fs ! k" by simp
      with step False \<open>c = CHR '',''\<close> show ?thesis
        by (auto simp add: field_from_Suc_diff)
    qed
  qed
qed


lemma write_pair:
  assumes "holds_string sizeof_lat lat" and "holds_string sizeof_lon lon"
  shows "\<exists>lat' lon'.
     bind_err (if 0 < la \<and> la < sizeof_lat then copy_field lat lat_s la else Inr lat)
       (\<lambda>lat_buf.
          bind_err (if 0 < lo \<and> lo < sizeof_lon then copy_field lon lon_s lo else Inr lon)
            (\<lambda>lon_buf. Inr (lat_buf, lon_buf))) = Inr (lat', lon') \<and>
     holds_string sizeof_lat lat' \<and> holds_string sizeof_lon lon' \<and>
     (sizeof_lat \<le> la \<longrightarrow> lat' = lat) \<and> (sizeof_lon \<le> lo \<longrightarrow> lon' = lon)"
proof -
  from guarded_copy[OF assms(1), of "0 < la" la lat_s] obtain b1 where
    b1: "(if 0 < la \<and> la < sizeof_lat then copy_field lat lat_s la else Inr lat) = Inr b1"
      "holds_string sizeof_lat b1" "b1 = lat \<or> la < sizeof_lat"
    by blast
  from guarded_copy[OF assms(2), of "0 < lo" lo lon_s] obtain b2 where
    b2: "(if 0 < lo \<and> lo < sizeof_lon then copy_field lon lon_s lo else Inr lon) = Inr b2"
      "holds_string sizeof_lon b2" "b2 = lon \<or> lo < sizeof_lon"
    by blast
  have "bind_err (if 0 < la \<and> la < sizeof_lat then copy_field lat lat_s la else Inr lat)
       (\<lambda>lat_buf.
          bind_err (if 0 < lo \<and> lo < sizeof_lon then copy_field lon lon_s lo else Inr lon)
            (\<lambda>lon_buf. Inr (lat_buf, lon_buf))) = Inr (b1, b2)"
    unfolding b1(1) b2(1) by (simp add: bind_err_def)
  moreover have "sizeof_lat \<le> la \<longrightarrow> b1 = lat" "sizeof_lon \<le> lo \<longrightarrow> b2 = lon"
    using b1(3) b2(3) by auto
  ultimately show ?thesis using b1(2) b2(2) by blast
qed

lemma csv_lat_lon_eq:
  "csv_lat_lon line ll =
     (if 8 \<le> count_list line (CHR '','') then
        (case (field_from 6 line, field_from 7 line) of
           (Some lat_s, Some lon_s) \<Rightarrow>
             (case (strchr lat_s (CHR '',''), strchr lon_s (CHR '','')) of
                (Some lat_e, Some lon_e) \<Rightarrow>
                  bind_err
                    (if 0 < length lat_s - length lat_e \<and> length lat_s - length lat_e < sizeof_lat
                     then copy_field (fst ll) lat_s (length lat_s - length lat_e)
                     else Inr (fst ll))
                    (\<lambda>lat_buf.
                       bind_err
                         (if 0 < length lon_s - length lon_e \<and>
                             length lon_s - length lon_e < sizeof_lon
                          then copy_field (snd ll) lon_s (length lon_s - length lon_e)
                          else Inr (snd ll))
                         (\<lambda>lon_buf. Inr (lat_buf, lon_buf)))
              | _ \<Rightarrow> Inr ll)
         | _ \<Rightarrow> Inr ll)
      else Inr ll)"
proof -
  let ?fs = "Some line # replicate 8 None"
  have len: "length ?fs = 9" by simp
  have f6: "snd (scan_commas line 0 ?fs) ! 6 = field_from 6 line"
    if "8 \<le> count_list line (CHR '','')"
    using scan_commas_nth[of 6 ?fs line 0] that by simp
  have f7: "snd (scan_commas line 0 ?fs) ! 7 = field_from 7 line"
    if "8 \<le> count_list line (CHR '','')"
    using scan_commas_nth[of 7 ?fs line 0] that by simp
  have cnt: "fst (scan_commas line 0 ?fs) = count_list line (CHR '','')"
    by (simp add: scan_commas_count)
  show ?thesis
  proof (cases "8 \<le> count_list line (CHR '','')")
    case True
    show ?thesis
      unfolding csv_lat_lon_def case_prod_unfold cnt f6[OF True] f7[OF True] Let_def
      using True by simp
  next
    case False
    show ?thesis
      unfolding csv_lat_lon_def case_prod_unfold cnt Let_def
      using False by simp
  qed
qed


lemma csv_lat_lon_safe:
  assumes "holds_string sizeof_lat lat" and "holds_string sizeof_lon lon"
  shows "\<exists>lat' lon'. csv_lat_lon line (lat, lon) = Inr (lat', lon') \<and>
     holds_string sizeof_lat lat' \<and> holds_string sizeof_lon lon' \<and>
     (\<forall>f. csv_field 6 line = Some f \<and> sizeof_lat \<le> length f \<longrightarrow> lat' = lat) \<and>
     (\<forall>f. csv_field 7 line = Some f \<and> sizeof_lon \<le> length f \<longrightarrow> lon' = lon)"
proof -
  have trivial: ?thesis if "csv_lat_lon line (lat, lon) = Inr (lat, lon)"
    using that assms by simp
  show ?thesis
  proof (cases "8 \<le> count_list line (CHR '','')")
    case False
    then show ?thesis by (intro trivial) (simp add: csv_lat_lon_eq)
  next
    case True
    show ?thesis
    proof (cases "field_from 6 line")
      case None
      then show ?thesis by (intro trivial) (simp add: csv_lat_lon_eq)
    next
      case lat_s: (Some lat_s)
      show ?thesis
      proof (cases "field_from 7 line")
        case None
        then show ?thesis using lat_s by (intro trivial) (simp add: csv_lat_lon_eq)
      next
        case lon_s: (Some lon_s)
        show ?thesis
        proof (cases "strchr lat_s (CHR '','')")
          case None
          then show ?thesis using lat_s lon_s by (intro trivial) (simp add: csv_lat_lon_eq)
        next
          case lat_e: (Some lat_e)
          show ?thesis
          proof (cases "strchr lon_s (CHR '','')")
            case None
            then show ?thesis
              using lat_s lon_s lat_e by (intro trivial) (simp add: csv_lat_lon_eq)
          next
            case lon_e: (Some lon_e)
            have la: "length lat_s - length lat_e = length (takeWhile (\<lambda>c. c \<noteq> CHR '','') lat_s)"
              by (rule strchr_Some(2)[OF lat_e])
            have lo: "length lon_s - length lon_e = length (takeWhile (\<lambda>c. c \<noteq> CHR '','') lon_s)"
              by (rule strchr_Some(2)[OF lon_e])
            have f6: "csv_field 6 line = Some (takeWhile (\<lambda>c. c \<noteq> CHR '','') lat_s)"
              and f7: "csv_field 7 line = Some (takeWhile (\<lambda>c. c \<noteq> CHR '','') lon_s)"
              by (simp_all add: csv_field_def lat_s lon_s)
            have eq: "csv_lat_lon line (lat, lon) =
              bind_err
                (if 0 < length lat_s - length lat_e \<and> length lat_s - length lat_e < sizeof_lat
                 then copy_field lat lat_s (length lat_s - length lat_e) else Inr lat)
                (\<lambda>lat_buf.
                   bind_err
                     (if 0 < length lon_s - length lon_e \<and>
                         length lon_s - length lon_e < sizeof_lon
                      then copy_field lon lon_s (length lon_s - length lon_e) else Inr lon)
                     (\<lambda>lon_buf. Inr (lat_buf, lon_buf)))"
              unfolding csv_lat_lon_eq[of line "(lat, lon)"]
              by (simp only: True if_True lat_s lon_s lat_e lon_e option.case prod.case
                  fst_conv snd_conv)
            from write_pair[OF assms, of "length lat_s - length lat_e" lat_s
                "length lon_s - length lon_e" lon_s]
            obtain lat' lon' where w:
              "csv_lat_lon line (lat, lon) = Inr (lat', lon')"
              "holds_string sizeof_lat lat'" "holds_string sizeof_lon lon'"
              "sizeof_lat \<le> length lat_s - length lat_e \<longrightarrow> lat' = lat"
              "sizeof_lon \<le> length lon_s - length lon_e \<longrightarrow> lon' = lon"
              unfolding eq[symmetric] by blast
            have "\<forall>f. csv_field 6 line = Some f \<and> sizeof_lat \<le> length f \<longrightarrow> lat' = lat"
              using w(4) unfolding la f6 by simp
            moreover
            have "\<forall>f. csv_field 7 line = Some f \<and> sizeof_lon \<le> length f \<longrightarrow> lon' = lon"
              using w(5) unfolding lo f7 by simp
            ultimately show ?thesis
              using w(1,2,3) by blast
          qed
        qed
      qed
    qed
  qed
qed

lemma csv_line_wp:
  assumes "is_mac_csv line" and "wf_wp d"
  shows "\<exists>ssid lat lon.
     line_body_wp line d =
       Inr (d\<lparr>wp_last_ssid := ssid, wp_lat := lat, wp_lon := lon,
              wp_unique_networks := int32 (wp_unique_networks d + 1),
              wp_needs_redraw := True\<rparr>, []) \<and>
     csv_ssid line (wp_last_ssid d) = Inr ssid \<and>
     csv_lat_lon line (wp_lat d, wp_lon d) = Inr (lat, lon) \<and>
     holds_string sizeof_last_ssid ssid \<and> holds_string sizeof_lat lat \<and>
     holds_string sizeof_lon lon"
proof -
  from assms(2) have h: "holds_string sizeof_last_ssid (wp_last_ssid d)"
    "holds_string sizeof_lat (wp_lat d)" "holds_string sizeof_lon (wp_lon d)"
    by (simp_all add: wf_wp_def)
  from csv_ssid_safe[OF h(1), of line] obtain ssid where
    s: "csv_ssid line (wp_last_ssid d) = Inr ssid" "holds_string sizeof_last_ssid ssid"
    by blast
  from csv_lat_lon_safe[OF h(2,3), of line] obtain lat lon where
    l: "csv_lat_lon line (wp_lat d, wp_lon d) = Inr (lat, lon)"
      "holds_string sizeof_lat lat" "holds_string sizeof_lon lon"
    by blast
  have "line_body_wp line d =
       Inr (d\<lparr>wp_last_ssid := ssid, wp_lat := lat, wp_lon := lon,
              wp_unique_networks := int32 (wp_unique_networks d + 1),
              wp_needs_redraw := True\<rparr>, [])"
    unfolding line_body_wp_def using assms(1) by (simp add: s(1) l(1) bind_err_def)
  then show ?thesis using s l by blast
qed

section \<open>The logging variant never leaves its buffers\<close>

lemma guarded_copy_plain:
  assumes "holds_string N dst"
  shows "\<exists>b. (if n < N then copy_field dst src n else Inr dst) = Inr b \<and> holds_string N b \<and>
             (N \<le> n \<longrightarrow> b = dst)"
  using guarded_copy[OF assms, of True n src] by auto

lemma cstr_shorter: "NUL \<in> set b \<Longrightarrow> length (cstr b) < length b"
proof -
  assume "NUL \<in> set b"
  then have "takeWhile (\<lambda>c. c \<noteq> NUL) b \<noteq> b"
    by (auto simp: takeWhile_eq_all_conv)
  moreover have "length (takeWhile (\<lambda>c. c \<noteq> NUL) b) \<le> length b"
    by (rule length_takeWhile_le)
  ultimately show ?thesis
    unfolding cstr_def by (metis le_neq_implies_less takeWhile_eq_take take_all_iff order_refl)
qed

lemma strip_trailing_safe:
  "e < length b \<Longrightarrow> NUL \<in> set b \<Longrightarrow>
   \<exists>b'. strip_trailing b e = Inr b' \<and> length b' = length b \<and> NUL \<in> set b'"
proof (induction e arbitrary: b)
  case 0
  then show ?case by simp
next
  case (Suc e)
  show ?case
  proof (cases "b ! Suc e = CHR 0x0A \<or> b ! Suc e = CHR 0x0D \<or> b ! Suc e = CHR '' ''")
    case True
    have "e < length (b[Suc e := NUL])" "NUL \<in> set (b[Suc e := NUL])"
      using Suc.prems by (simp_all add: set_update_memI)
    from Suc.IH[OF this] True Suc.prems show ?thesis by auto
  next
    case False
    then show ?thesis using Suc.prems by auto
  qed
qed

lemma store_log_line_safe:
  assumes "holds_string MAX_LOG_LINE b"
  shows "\<exists>b'. store_log_line b found = Inr b' \<and> holds_string MAX_LOG_LINE b'"
proof -
  let ?b1 = "take 127 (found @ replicate 127 NUL) @ drop 127 b"
  let ?b2 = "?b1[127 := NUL]"
  have len: "length b = 128"
    using assms by (simp add: holds_string_def MAX_LOG_LINE_def)
  have l1: "length ?b1 = 128"
    using len by simp
  have s1: "strncpy b found (MAX_LOG_LINE - 1) = Inr ?b1"
    using len by (simp add: strncpy_def MAX_LOG_LINE_def)
  have s2: "poke ?b1 (MAX_LOG_LINE - 1) NUL = Inr ?b2"
    using l1 by (simp add: poke_def MAX_LOG_LINE_def del: take_append)
  have l2: "length ?b2 = 128"
    using l1 by (simp del: take_append)
  have n2: "NUL \<in> set ?b2"
    using l1 by (intro set_update_memI) (simp del: take_append)
  have s3: "strlen_buf ?b2 = Inr (length (cstr ?b2))"
    using n2 by (simp only: strlen_buf_def if_True)
  have "length (cstr ?b2) - 1 < length ?b2"
    using cstr_shorter[OF n2] by simp
  from strip_trailing_safe[OF this n2] obtain b' where
    b': "strip_trailing ?b2 (length (cstr ?b2) - 1) = Inr b'" "length b' = 128" "NUL \<in> set b'"
    using l2 by auto
  have "store_log_line b found = Inr b'"
    unfolding store_log_line_def s1 bind_err_def sum.case s2 s3 by (rule b'(1))
  then show ?thesis
    using b'(2,3) by (simp add: holds_string_def MAX_LOG_LINE_def)
qed

lemma gps_lon_wd_safe:
  assumes "holds_string sizeof_lon lon"
  shows "\<exists>b. gps_lon_wd lat_end lon = Inr b \<and> holds_string sizeof_lon b"
proof (cases "strstr lat_end ''Lon=''")
  case None
  then show ?thesis using assms by (simp add: gps_lon_wd_def)
next
  case (Some lon_ptr)
  show ?thesis
  proof (cases "strchr (drop (length ''Lon='') lon_ptr) (CHR '' '')")
    case None
    then show ?thesis using assms Some by (simp add: gps_lon_wd_def)
  next
    case e: (Some lon_end)
    from guarded_copy_plain[OF assms,
        of "length (drop (length ''Lon='') lon_ptr) - length lon_end"
           "drop (length ''Lon='') lon_ptr"]
    show ?thesis
      unfolding gps_lon_wd_def Some option.case Let_def e by blast
  qed
qed

lemma gps_lon_wd_no_space:
  "strstr lat_end ''Lon='' = Some lon_ptr \<Longrightarrow> CHR '' '' \<notin> set (drop 4 lon_ptr) \<Longrightarrow>
   gps_lon_wd lat_end lon = Inr lon"
proof -
  assume p: "strstr lat_end ''Lon='' = Some lon_ptr" and n: "CHR '' '' \<notin> set (drop 4 lon_ptr)"
  have four: "length ''Lon='' = 4" by simp
  show ?thesis
    unfolding gps_lon_wd_def p option.case four Let_def using n by (simp add: strchr_eq)
qed


lemma after_csv_wd_safe:
  assumes "wf_wd d"
  shows "\<exists>d' ev. after_csv_wd line d = Inr (d', ev) \<and> wf_wd d' \<and> only_logs ev \<and>
           wd_last_ssid d' = wd_last_ssid d"
proof -
  from assms have h: "holds_string MAX_LOG_LINE (wd_last_log_line d)"
    "holds_string sizeof_last_ssid (wd_last_ssid d)"
    "holds_string sizeof_lat (wd_lat d)" "holds_string sizeof_lon (wd_lon d)"
    by (simp_all add: wf_wd_def)
  have same: ?thesis if "after_csv_wd line d = Inr (d, [])"
    using that assms by (simp add: only_logs_def)
  show ?thesis
  proof (cases "strstr line ''GPS fix obtained'' \<noteq> None")
    case True
    then have "after_csv_wd line d =
      Inr (d\<lparr>wd_state := WD_STATE_RUNNING, wd_needs_redraw := True\<rparr>,
           [EspLog LOGI ''GPS fix obtained!''])"
      by (simp add: after_csv_wd_def)
    moreover have "wf_wd (d\<lparr>wd_state := WD_STATE_RUNNING, wd_needs_redraw := True\<rparr>)"
      using assms by (simp add: wf_wd_def)
    ultimately show ?thesis by (simp add: only_logs_def)
  next
    case nofix: False
    show ?thesis
    proof (cases "strstr line ''GPS: Lat=''")
      case (Some gps_found)
      let ?lat_start = "drop (length ''GPS: Lat='') gps_found"
      show ?thesis
      proof (cases "strchr ?lat_start (CHR '' '')")
        case None
        then show ?thesis
          using nofix Some by (intro same) (simp add: after_csv_wd_def)
      next
        case e: (Some lat_end)
        let ?n = "length ?lat_start - length lat_end"
        from guarded_copy_plain[OF h(3), of ?n ?lat_start] obtain b1 where
          b1: "(if ?n < sizeof_lat then copy_field (wd_lat d) ?lat_start ?n else Inr (wd_lat d))
                = Inr b1" "holds_string sizeof_lat b1"
          by blast
        from gps_lon_wd_safe[OF h(4), of lat_end] obtain b2 where
          b2: "gps_lon_wd lat_end (wd_lon d) = Inr b2" "holds_string sizeof_lon b2"
          by blast
        have "after_csv_wd line d =
          Inr (d\<lparr>wd_lat := b1, wd_lon := b2, wd_needs_redraw := True\<rparr>,
               [EspLog LOGI ''GPS update: %s, %s''])"
          unfolding after_csv_wd_def Let_def using nofix
          by (simp only: if_False Some option.case e b1(1) b2(1) bind_err_def sum.case simp_thms)
        moreover have "wf_wd (d\<lparr>wd_lat := b1, wd_lon := b2, wd_needs_redraw := True\<rparr>)"
          using h b1(2) b2(2) by (simp add: wf_wd_def)
        ultimately show ?thesis by (simp add: only_logs_def)
      qed
    next
      case None
      show ?thesis
      proof (cases "strstr line ''Logged ''")
        case nolog: None
        then show ?thesis
          using nofix None by (intro same) (simp add: after_csv_wd_def)
      next
        case (Some found)
        show ?thesis
        proof (cases "strstr found ''networks to'' \<noteq> None")
          case False
          then show ?thesis
            using nofix None Some by (intro same) (simp add: after_csv_wd_def)
        next
          case True
          from store_log_line_safe[OF h(1), of found] obtain b where
            b: "store_log_line (wd_last_log_line d) found = Inr b" "holds_string MAX_LOG_LINE b"
            by blast
          have "after_csv_wd line d =
            Inr (d\<lparr>wd_last_log_line := b, wd_needs_redraw := True\<rparr>,
                 [EspLog LOGI ''Log update: %s''])"
            unfolding after_csv_wd_def using nofix True
            by (simp only: if_False if_True None Some option.case b(1) bind_err_def sum.case simp_thms)
          moreover have "wf_wd (d\<lparr>wd_last_log_line := b, wd_needs_redraw := True\<rparr>)"
            using h b(2) by (simp add: wf_wd_def)
          ultimately show ?thesis by (simp add: only_logs_def)
        qed
      qed
    qed
  qed
qed

lemma csv_ssid_wd_safe:
  assumes "holds_string sizeof_last_ssid (wd_last_ssid d)"
  shows "\<exists>b r. csv_ssid_wd line d = Inr (d\<lparr>wd_last_ssid := b, wd_needs_redraw := r\<rparr>) \<and>
           holds_string sizeof_last_ssid b \<and> csv_ssid line (wd_last_ssid d) = Inr b"
proof -
  have same: ?thesis
    if "csv_ssid_wd line d = Inr d" "csv_ssid line (wd_last_ssid d) = Inr (wd_last_ssid d)"
  proof -
    have "d = d\<lparr>wd_last_ssid := wd_last_ssid d, wd_needs_redraw := wd_needs_redraw d\<rparr>"
      by simp
    with that assms show ?thesis by metis
  qed
  show ?thesis
  proof (cases "strchr (drop 18 line) (CHR '','')")
    case None
    then show ?thesis by (intro same) (simp_all add: csv_ssid_wd_def csv_ssid_eq)
  next
    case (Some e)
    let ?n = "length (drop 18 line) - length e"
    show ?thesis
    proof (cases "length e < length (drop 18 line) \<and> ?n < sizeof_last_ssid")
      case False
      then show ?thesis
        using Some by (intro same) (auto simp add: csv_ssid_wd_def csv_ssid_eq Let_def)
    next
      case True
      then have n: "?n < length (wd_last_ssid d)"
        using assms by (simp add: holds_string_def)
      let ?b = "take ?n (drop 18 line @ replicate ?n NUL) @ NUL # drop (Suc ?n) (wd_last_ssid d)"
      have hb: "holds_string sizeof_last_ssid ?b"
        using copied_holds_string[OF assms, of ?n "drop 18 line"] True by blast
      have "csv_ssid_wd line d = Inr (d\<lparr>wd_last_ssid := ?b, wd_needs_redraw := True\<rparr>)"
        unfolding csv_ssid_wd_def Let_def Some option.case using True
        by (simp only: if_True copy_field_Inr[OF n] bind_err_def sum.case simp_thms)
      moreover have "csv_ssid line (wd_last_ssid d) = Inr ?b"
        unfolding csv_ssid_eq Some option.case using True
        by (simp only: if_True copy_field_Inr[OF n] simp_thms)
      ultimately show ?thesis using hb by blast
    qed
  qed
qed

lemma line_body_wd_safe:
  assumes "wf_wd d"
  shows "\<exists>d' ev. line_body_wd line d = Inr (d', ev) \<and> wf_wd d' \<and> only_logs ev \<and>
     (is_mac_csv line \<longrightarrow> csv_ssid line (wd_last_ssid d) = Inr (wd_last_ssid d')) \<and>
     (\<not> is_mac_csv line \<longrightarrow> wd_last_ssid d' = wd_last_ssid d)"
proof (cases "is_mac_csv line")
  case False
  from after_csv_wd_safe[OF assms, of line] False show ?thesis
    by (auto simp: line_body_wd_def bind_err_def)
next
  case True
  from assms have "holds_string sizeof_last_ssid (wd_last_ssid d)"
    by (simp add: wf_wd_def)
  from csv_ssid_wd_safe[OF this, of line] obtain b r where
    c: "csv_ssid_wd line d = Inr (d\<lparr>wd_last_ssid := b, wd_needs_redraw := r\<rparr>)"
      "holds_string sizeof_last_ssid b" "csv_ssid line (wd_last_ssid d) = Inr b"
    by blast
  have "wf_wd (d\<lparr>wd_last_ssid := b, wd_needs_redraw := r\<rparr>)"
    using assms c(2) by (simp add: wf_wd_def)
  from after_csv_wd_safe[OF this, of line] obtain d' ev where
    a: "after_csv_wd line (d\<lparr>wd_last_ssid := b, wd_needs_redraw := r\<rparr>) = Inr (d', ev)"
      "wf_wd d'" "only_logs ev" "wd_last_ssid d' = b"
    by auto
  have "line_body_wd line d = Inr (d', ev)"
    unfolding line_body_wd_def using True by (simp add: c(1) a(1) bind_err_def)
  then show ?thesis using a c(3) True by simp
qed

section \<open>Latitude and longitude by label\<close>

lemma isdigit_not_blank:
  "isdigit c \<Longrightarrow> c \<noteq> CHR '' '' \<and> c \<noteq> CHR 0x0A \<and> c \<noteq> CHR 0x0D \<and> c \<noteq> CHR ''.''"
  by (auto simp: isdigit_def)

lemma lon_scan_run:
  "lon_chars num \<Longrightarrow> lon_stops rest \<Longrightarrow> lon_scan (num @ rest) = rest"
proof (induction num)
  case Nil
  then show ?case
    by (cases rest) (auto simp: lon_stops_def isdigit_not_blank split: list.splits)
next
  case (Cons c cs)
  from Cons.prems(1) have cs: "lon_chars cs" by simp
  note ih = Cons.IH[OF cs Cons.prems(2)]
  from Cons.prems(1) consider "isdigit c" | "c = CHR ''-''"
    | "c = CHR ''.''" "cs \<noteq> []" "isdigit (hd cs)" by auto
  then show ?case
  proof cases
    case 1
    then show ?thesis using ih isdigit_not_blank[of c] by simp
  next
    case 2
    then show ?thesis using ih by simp
  next
    case 3
    then obtain n r where "cs = n # r" "isdigit n" by (cases cs) auto
    then show ?thesis using ih 3(1) by (simp add: isdigit_def)
  qed
qed

lemma parse_lat_lon_no_space:
  assumes "strstr str ''Lat='' = Some p" and "CHR '' '' \<notin> set (drop 4 p)"
  shows "parse_lat_lon str d = Inr (d, [])"
proof -
  have four: "length ''Lat='' = 4" by simp
  show ?thesis
    unfolding parse_lat_lon_def assms(1) option.case four Let_def
    using assms(2) by (simp add: strchr_eq)
qed

lemma parse_lat_lon_no_marker:
  "strstr str ''Lat='' = None \<Longrightarrow> parse_lat_lon str d = Inr (d, [])"
  by (simp add: parse_lat_lon_def)

lemma only_logs_Nil: "only_logs []"
  by (simp add: only_logs_def)

lemma parse_lat_lon_safe:
  assumes "holds_string sizeof_lat (wp_lat d)" and "holds_string sizeof_lon (wp_lon d)"
  shows "\<exists>lat lon ev. parse_lat_lon str d = Inr (d\<lparr>wp_lat := lat, wp_lon := lon\<rparr>, ev) \<and>
           holds_string sizeof_lat lat \<and> holds_string sizeof_lon lon \<and> only_logs ev"
proof -
  have same: ?thesis if "parse_lat_lon str d = Inr (d, [])"
  proof -
    have "d = d\<lparr>wp_lat := wp_lat d, wp_lon := wp_lon d\<rparr>" by simp
    with that assms show ?thesis by (metis only_logs_Nil)
  qed
  show ?thesis
  proof (cases "strstr str ''Lat=''")
    case None
    then show ?thesis by (intro same) (rule parse_lat_lon_no_marker)
  next
    case (Some lat_ptr)
    let ?lat_start = "drop (length ''Lat='') lat_ptr"
    show ?thesis
    proof (cases "strchr ?lat_start (CHR '' '')")
      case None
      then show ?thesis using Some by (intro same) (simp add: parse_lat_lon_def)
    next
      case e: (Some lat_end)
      let ?n = "length ?lat_start - length lat_end"
      from guarded_copy_plain[OF assms(1), of ?n ?lat_start] obtain b1 where
        b1: "(if ?n < sizeof_lat then copy_field (wp_lat d) ?lat_start ?n else Inr (wp_lat d))
              = Inr b1" "holds_string sizeof_lat b1"
        by blast
      show ?thesis
      proof (cases "strstr lat_end ''Lon=''")
        case None
        have "parse_lat_lon str d = Inr (d\<lparr>wp_lat := b1\<rparr>, [])"
          unfolding parse_lat_lon_def Let_def
          by (simp only: Some option.case e b1(1) bind_err_def sum.case None)
        moreover have "d\<lparr>wp_lat := b1\<rparr> = d\<lparr>wp_lat := b1, wp_lon := wp_lon d\<rparr>"
          by simp
        ultimately show ?thesis
          using b1(2) assms(2) by (metis only_logs_Nil)
      next
        case lp: (Some lon_ptr)
        let ?lon_start = "drop (length ''Lon='') lon_ptr"
        let ?m = "length ?lon_start - length (lon_scan ?lon_start)"
        from guarded_copy[OF assms(2), of "0 < ?m" ?m ?lon_start] obtain b2 where
          b2: "(if 0 < ?m \<and> ?m < sizeof_lon then copy_field (wp_lon d) ?lon_start ?m
                else Inr (wp_lon d)) = Inr b2" "holds_string sizeof_lon b2"
          by blast
        have sel: "wp_lon (d\<lparr>wp_lat := b1\<rparr>) = wp_lon d"
          by simp
        have "parse_lat_lon str d =
          Inr (d\<lparr>wp_lat := b1, wp_lon := b2\<rparr>, [EspLog LOGI ''GPS update: %s, %s''])"
          unfolding parse_lat_lon_def Let_def
          by (simp only: Some option.case e b1(1) bind_err_def sum.case lp sel b2(1))
        then show ?thesis
          using b1(2) b2(2) by (auto simp: only_logs_def)
      qed
    qed
  qed
qed

section \<open>The countdown\<close>

lemma countdown_branch:
  assumes "\<not> is_mac_csv line" and "strstr line ''Still waiting for GPS fix'' = Some sw"
  shows "line_body_wp line d =
     Inr (case strchr sw (CHR ''('') of
            None \<Rightarrow> d\<lparr>wp_needs_redraw := True\<rparr>
          | Some paren \<Rightarrow>
              if fst (sscanf_countdown paren) = 2
              then d\<lparr>wp_gps_wait_elapsed := fst (snd (sscanf_countdown paren)),
                     wp_gps_wait_timeout := snd (snd (sscanf_countdown paren)),
                     wp_needs_redraw := True\<rparr>
              else d\<lparr>wp_needs_redraw := True\<rparr>, [])"
  using assms
  by (simp add: line_body_wp_def case_prod_unfold Let_def split: option.split)

lemma countdown_no_paren:
  assumes "\<not> is_mac_csv line" and "strstr line ''Still waiting for GPS fix'' = Some sw"
    and "CHR ''('' \<notin> set sw"
  shows "line_body_wp line d = Inr (d\<lparr>wp_needs_redraw := True\<rparr>, [])"
  using assms(3) by (simp add: countdown_branch[OF assms(1,2)] strchr_eq)

lemma sscanf_countdown_two:
  "fst (sscanf_countdown (CHR ''('' # r)) = 2 \<longleftrightarrow>
     (\<exists>a r2 b r3. scan_int r = Some (a, CHR ''/'' # r2) \<and> scan_int r2 = Some (b, r3))"
  by (auto simp: sscanf_countdown_def split: option.splits list.splits)

lemma sscanf_countdown_values:
  "scan_int r = Some (a, CHR ''/'' # r2) \<Longrightarrow> scan_int r2 = Some (b, r3) \<Longrightarrow>
   sscanf_countdown (CHR ''('' # r) = (2, a, b)"
  by (simp add: sscanf_countdown_def)

lemma strchr_hd: "strchr s c = Some e \<Longrightarrow> \<exists>r. e = c # r"
proof (induction s)
  case Nil
  then show ?case by simp
next
  case (Cons a s)
  then show ?case by (cases "a = c") auto
qed


lemma callback_wp_Inr:
  "line_body_wp line d = Inr (d', ev) \<Longrightarrow> uart_line_callback_wp line (Some d) = Inr (Some d', ev)"
  by (simp add: uart_line_callback_wp_def bind_err_def)

lemma callback_wd_Inr:
  "line_body_wd line d = Inr (d', ev) \<Longrightarrow> uart_line_callback_wd line (Some d) = Inr (Some d', ev)"
  by (simp add: uart_line_callback_wd_def bind_err_def)

lemma not_csv_short: "length line \<le> 18 \<Longrightarrow> \<not> is_mac_csv line"
  by (simp add: is_mac_csv_def)

lemma waiting_example_not_csv:
  "\<not> is_mac_csv (''Still waiting for GPS fix'' @ rest)"
  by (simp add: is_mac_csv_def)

lemma strstr_prefix: "needle \<noteq> [] \<Longrightarrow> strstr (needle @ rest) needle = Some (needle @ rest)"
proof -
  have sw: "starts_with (n @ r) n" for n r :: string
    by (induction n) simp_all
  assume "needle \<noteq> []"
  then obtain c cs where "needle = c # cs" by (cases needle) auto
  then show ?thesis using sw[of needle rest] by simp
qed

lemma countdown_digits:
  assumes "\<not> is_mac_csv line" and "strstr line ''Still waiting for GPS fix'' = Some sw"
    and "strchr sw (CHR ''('') = Some (CHR ''('' # ds1 @ CHR ''/'' # ds2 @ rest)"
    and "ds1 \<noteq> []" "\<forall>c\<in>set ds1. isdigit c" "ds2 \<noteq> []" "\<forall>c\<in>set ds2. isdigit c"
    and "rest = [] \<or> \<not> isdigit (hd rest)"
  shows "line_body_wp line d =
     Inr (d\<lparr>wp_gps_wait_elapsed := min INT_MAX (dec_val ds1),
            wp_gps_wait_timeout := min INT_MAX (dec_val ds2),
            wp_needs_redraw := True\<rparr>, [])"
proof -
  have slash: "CHR ''/'' # ds2 @ rest = [] \<or> \<not> isdigit (hd (CHR ''/'' # ds2 @ rest))"
    by (simp add: isdigit_def)
  have s1: "scan_int (ds1 @ CHR ''/'' # ds2 @ rest) =
      Some (min INT_MAX (dec_val ds1), CHR ''/'' # ds2 @ rest)"
    by (rule scan_int_digits[OF assms(4,5) slash])
  have s2: "scan_int (ds2 @ rest) = Some (min INT_MAX (dec_val ds2), rest)"
    by (rule scan_int_digits[OF assms(6,7,8)])
  show ?thesis
    unfolding countdown_branch[OF assms(1,2)] assms(3) option.case
      sscanf_countdown_values[OF s1 s2]
    by simp
qed

text \<open>
  The countdown scan accepts a line as soon as both numbers are read: what follows the
  second number is not compared with the pattern. Here the parentheses hold
  \<open>7/30 minutes\<close>, and the two values are stored all the same.
\<close>

theorem C7_counterexample:
  "uart_line_callback_wp ''Still waiting for GPS fix... (7/30 minutes)''
     (Some (created_wp (Some 1) 1)) =
   Inr (Some ((created_wp (Some 1) 1)\<lparr>wp_gps_wait_elapsed := 7, wp_gps_wait_timeout := 30,
                                        wp_needs_redraw := True\<rparr>), []) \<and>
   wp_gps_wait_elapsed (created_wp (Some 1) 1) = 0 \<and>
   wp_gps_wait_timeout (created_wp (Some 1) 1) = 0"
proof -
  let ?line = "''Still waiting for GPS fix... (7/30 minutes)''"
  have n: "\<not> is_mac_csv ?line"
    by (simp add: is_mac_csv_def)
  have m: "strstr ?line ''Still waiting for GPS fix'' = Some ?line"
    by simp
  have p: "strchr ?line (CHR ''('') = Some (CHR ''('' # ''7'' @ CHR ''/'' # ''30'' @ '' minutes)'')"
    by simp
  have "line_body_wp ?line (created_wp (Some 1) 1) =
     Inr ((created_wp (Some 1) 1)\<lparr>wp_gps_wait_elapsed := min INT_MAX (dec_val ''7''),
            wp_gps_wait_timeout := min INT_MAX (dec_val ''30''),
            wp_needs_redraw := True\<rparr>, [])"
    by (rule countdown_digits[OF n m p]) (simp_all add: isdigit_def)
  then show ?thesis
    by (simp add: callback_wp_Inr dec_val_def digit_val_def INT_MAX_def created_wp_def)
qed

text \<open>
  Claim C7, as the code has it. The line \<open>Still waiting for GPS fix... (7/30 seconds)\<close>
  sets \<open>gps_wait_elapsed\<close> to 7 and \<open>gps_wait_timeout\<close> to 30. A line with the marker
  leaves both as they were when no \<open>(\<close> follows the marker, or when the first \<open>(\<close> is
  not followed by an integer, a \<open>/\<close> and an integer. When it is, the two integers are
  stored whatever comes after the second one.
\<close>

theorem C7_countdown:
  assumes "\<not> is_mac_csv line" and "strstr line ''Still waiting for GPS fix'' = Some sw"
  shows
    "uart_line_callback_wp ''Still waiting for GPS fix... (7/30 seconds)'' (Some d) =
       Inr (Some (d\<lparr>wp_gps_wait_elapsed := 7, wp_gps_wait_timeout := 30,
                    wp_needs_redraw := True\<rparr>), []) \<and>
     (CHR ''('' \<notin> set sw \<longrightarrow>
        uart_line_callback_wp line (Some d) = Inr (Some (d\<lparr>wp_needs_redraw := True\<rparr>), [])) \<and>
     (strchr sw (CHR ''('') = Some (CHR ''('' # r) \<and>
      \<not> (\<exists>a r2 b r3. scan_int r = Some (a, CHR ''/'' # r2) \<and> scan_int r2 = Some (b, r3)) \<longrightarrow>
        uart_line_callback_wp line (Some d) = Inr (Some (d\<lparr>wp_needs_redraw := True\<rparr>), [])) \<and>
     (strchr sw (CHR ''('') = Some (CHR ''('' # r) \<and>
      scan_int r = Some (a, CHR ''/'' # r2) \<and> scan_int r2 = Some (b, r3) \<longrightarrow>
        uart_line_callback_wp line (Some d) =
          Inr (Some (d\<lparr>wp_gps_wait_elapsed := a, wp_gps_wait_timeout := b,
                       wp_needs_redraw := True\<rparr>), [])) \<and>
     (strchr sw (CHR ''('') = Some (CHR ''('' # ds1 @ CHR ''/'' # ds2 @ rest) \<and>
      ds1 \<noteq> [] \<and> (\<forall>c\<in>set ds1. isdigit c) \<and> ds2 \<noteq> [] \<and> (\<forall>c\<in>set ds2. isdigit c) \<and>
      (rest = [] \<or> \<not> isdigit (hd rest)) \<longrightarrow>
        uart_line_callback_wp line (Some d) =
          Inr (Some (d\<lparr>wp_gps_wait_elapsed := min INT_MAX (dec_val ds1),
                       wp_gps_wait_timeout := min INT_MAX (dec_val ds2),
                       wp_needs_redraw := True\<rparr>), []))"
proof (intro conjI impI)
  let ?ex = "''Still waiting for GPS fix... (7/30 seconds)''"
  have n: "\<not> is_mac_csv ?ex"
    by (simp add: is_mac_csv_def)
  have m: "strstr ?ex ''Still waiting for GPS fix'' = Some ?ex"
    by simp
  have p: "strchr ?ex (CHR ''('') = Some (CHR ''('' # ''7'' @ CHR ''/'' # ''30'' @ '' seconds)'')"
    by simp
  have "line_body_wp ?ex d =
     Inr (d\<lparr>wp_gps_wait_elapsed := min INT_MAX (dec_val ''7''),
            wp_gps_wait_timeout := min INT_MAX (dec_val ''30''),
            wp_needs_redraw := True\<rparr>, [])"
    by (rule countdown_digits[OF n m p]) (simp_all add: isdigit_def)
  then show "uart_line_callback_wp ?ex (Some d) =
       Inr (Some (d\<lparr>wp_gps_wait_elapsed := 7, wp_gps_wait_timeout := 30,
                    wp_needs_redraw := True\<rparr>), [])"
    by (simp add: callback_wp_Inr dec_val_def digit_val_def INT_MAX_def)
next
  assume "CHR ''('' \<notin> set sw"
  from countdown_no_paren[OF assms this]
  show "uart_line_callback_wp line (Some d) = Inr (Some (d\<lparr>wp_needs_redraw := True\<rparr>), [])"
    by (rule callback_wp_Inr)
next
  assume h: "strchr sw (CHR ''('') = Some (CHR ''('' # r) \<and>
      \<not> (\<exists>a r2 b r3. scan_int r = Some (a, CHR ''/'' # r2) \<and> scan_int r2 = Some (b, r3))"
  then have "fst (sscanf_countdown (CHR ''('' # r)) \<noteq> 2"
    unfolding sscanf_countdown_two by blast
  then have "line_body_wp line d = Inr (d\<lparr>wp_needs_redraw := True\<rparr>, [])"
    using h by (simp add: countdown_branch[OF assms])
  then show "uart_line_callback_wp line (Some d) = Inr (Some (d\<lparr>wp_needs_redraw := True\<rparr>), [])"
    by (rule callback_wp_Inr)
next
  assume h: "strchr sw (CHR ''('') = Some (CHR ''('' # r) \<and>
      scan_int r = Some (a, CHR ''/'' # r2) \<and> scan_int r2 = Some (b, r3)"
  then have "sscanf_countdown (CHR ''('' # r) = (2, a, b)"
    by (simp add: sscanf_countdown_values)
  then have "line_body_wp line d =
     Inr (d\<lparr>wp_gps_wait_elapsed := a, wp_gps_wait_timeout := b, wp_needs_redraw := True\<rparr>, [])"
    using h by (simp add: countdown_branch[OF assms])
  then show "uart_line_callback_wp line (Some d) =
          Inr (Some (d\<lparr>wp_gps_wait_elapsed := a, wp_gps_wait_timeout := b,
                       wp_needs_redraw := True\<rparr>), [])"
    by (rule callback_wp_Inr)
next
  assume h: "strchr sw (CHR ''('') = Some (CHR ''('' # ds1 @ CHR ''/'' # ds2 @ rest) \<and>
      ds1 \<noteq> [] \<and> (\<forall>c\<in>set ds1. isdigit c) \<and> ds2 \<noteq> [] \<and> (\<forall>c\<in>set ds2. isdigit c) \<and>
      (rest = [] \<or> \<not> isdigit (hd rest))"
  have "line_body_wp line d =
     Inr (d\<lparr>wp_gps_wait_elapsed := min INT_MAX (dec_val ds1),
            wp_gps_wait_timeout := min INT_MAX (dec_val ds2),
            wp_needs_redraw := True\<rparr>, [])"
    by (rule countdown_digits[OF assms]) (use h in blast)+
  then show "uart_line_callback_wp line (Some d) =
          Inr (Some (d\<lparr>wp_gps_wait_elapsed := min INT_MAX (dec_val ds1),
                       wp_gps_wait_timeout := min INT_MAX (dec_val ds2),
                       wp_needs_redraw := True\<rparr>), [])"
    by (rule callback_wp_Inr)
qed

theorem C7_countdown_witness:
  "\<not> is_mac_csv ''Still waiting for GPS fix (7 of 30)'' \<and>
   strstr ''Still waiting for GPS fix (7 of 30)'' ''Still waiting for GPS fix'' =
     Some ''Still waiting for GPS fix (7 of 30)'' \<and>
   uart_line_callback_wp ''Still waiting for GPS fix (7 of 30)''
     (Some ((created_wp (Some 1) 1)\<lparr>wp_gps_wait_elapsed := 5, wp_gps_wait_timeout := 30\<rparr>)) =
   Inr (Some ((created_wp (Some 1) 1)\<lparr>wp_gps_wait_elapsed := 5, wp_gps_wait_timeout := 30,
                                        wp_needs_redraw := True\<rparr>), []) \<and>
   uart_line_callback_wp ''Still waiting for GPS fix...''
     (Some ((created_wp (Some 1) 1)\<lparr>wp_gps_wait_elapsed := 5, wp_gps_wait_timeout := 30\<rparr>)) =
   Inr (Some ((created_wp (Some 1) 1)\<lparr>wp_gps_wait_elapsed := 5, wp_gps_wait_timeout := 30,
                                        wp_needs_redraw := True\<rparr>), []) \<and>
   uart_line_callback_wp ''Still waiting for GPS fix... (8/30)''
     (Some ((created_wp (Some 1) 1)\<lparr>wp_gps_wait_elapsed := 5, wp_gps_wait_timeout := 30\<rparr>)) =
   Inr (Some ((created_wp (Some 1) 1)\<lparr>wp_gps_wait_elapsed := 8, wp_gps_wait_timeout := 30,
                                        wp_needs_redraw := True\<rparr>), []) \<and>
   uart_line_callback_wp ''Still waiting for GPS fix... (7/30 seconds)''
     (Some (created_wp (Some 1) 1)) =
   Inr (Some ((created_wp (Some 1) 1)\<lparr>wp_gps_wait_elapsed := 7, wp_gps_wait_timeout := 30,
                                        wp_needs_redraw := True\<rparr>), [])"
  using C7_countdown
          [where line = "''Still waiting for GPS fix (7 of 30)''"
             and sw = "''Still waiting for GPS fix (7 of 30)''"
             and r = "''7 of 30)''"
             and d = "(created_wp (Some 1) 1)\<lparr>wp_gps_wait_elapsed := 5, wp_gps_wait_timeout := 30\<rparr>"]
        C7_countdown
          [where line = "''Still waiting for GPS fix...''"
             and sw = "''Still waiting for GPS fix...''"
             and d = "(created_wp (Some 1) 1)\<lparr>wp_gps_wait_elapsed := 5, wp_gps_wait_timeout := 30\<rparr>"]
        C7_countdown
          [where line = "''Still waiting for GPS fix... (8/30)''"
             and sw = "''Still waiting for GPS fix... (8/30)''"
             and ?ds1.0 = "''8''" and ?ds2.0 = "''30''" and rest = "'')''"
             and d = "(created_wp (Some 1) 1)\<lparr>wp_gps_wait_elapsed := 5, wp_gps_wait_timeout := 30\<rparr>"]
        C7_countdown
          [where line = "''Still waiting for GPS fix (7 of 30)''"
             and sw = "''Still waiting for GPS fix (7 of 30)''"
             and d = "created_wp (Some 1) 1"]
  by (simp add: is_mac_csv_def scan_int_def scan_sign_def isspace_def isdigit_def created_wp_def
      dec_val_def digit_val_def INT_MAX_def)

lemma wf_wp_fields:
  "wf_wp d \<Longrightarrow> holds_string sizeof_last_ssid (wp_last_ssid d) \<and>
     holds_string sizeof_lat (wp_lat d) \<and> holds_string sizeof_lon (wp_lon d)"
  by (simp add: wf_wp_def)

lemma gps_marker_branch:
  assumes "wf_wp d"
  shows "\<exists>lat lon ev.
     bind_err (parse_lat_lon line (d\<lparr>wp_state := STATE_RUNNING\<rparr>))
       (\<lambda>(d', ev). Inr (d'\<lparr>wp_needs_redraw := True\<rparr>, EspLog LOGI msg # ev)) =
     Inr (d\<lparr>wp_state := STATE_RUNNING, wp_lat := lat, wp_lon := lon, wp_needs_redraw := True\<rparr>,
          EspLog LOGI msg # ev) \<and>
     holds_string sizeof_lat lat \<and> holds_string sizeof_lon lon \<and> only_logs ev \<and>
     parse_lat_lon line (d\<lparr>wp_state := STATE_RUNNING\<rparr>) =
       Inr (d\<lparr>wp_state := STATE_RUNNING, wp_lat := lat, wp_lon := lon\<rparr>, ev)"
proof -
  let ?d = "d\<lparr>wp_state := STATE_RUNNING\<rparr>"
  have "holds_string sizeof_lat (wp_lat ?d)" "holds_string sizeof_lon (wp_lon ?d)"
    using wf_wp_fields[OF assms] by simp_all
  from parse_lat_lon_safe[OF this, of line] obtain lat lon ev where
    p: "parse_lat_lon line ?d = Inr (?d\<lparr>wp_lat := lat, wp_lon := lon\<rparr>, ev)"
      "holds_string sizeof_lat lat" "holds_string sizeof_lon lon" "only_logs ev"
    by blast
  show ?thesis
    using p by (intro exI[of _ lat] exI[of _ lon] exI[of _ ev]) (simp add: bind_err_def)
qed

lemma line_body_wp_safe:
  assumes "wf_wp d"
  shows "\<exists>d' ev. line_body_wp line d = Inr (d', ev) \<and> wf_wp d' \<and> only_logs ev"
proof (cases "is_mac_csv line")
  case True
  from csv_line_wp[OF True assms] obtain ssid lat lon where
    c: "line_body_wp line d =
       Inr (d\<lparr>wp_last_ssid := ssid, wp_lat := lat, wp_lon := lon,
              wp_unique_networks := int32 (wp_unique_networks d + 1),
              wp_needs_redraw := True\<rparr>, [])"
      "holds_string sizeof_last_ssid ssid" "holds_string sizeof_lat lat"
      "holds_string sizeof_lon lon"
    by blast
  then show ?thesis by (simp add: wf_wp_def only_logs_def)
next
  case csv: False
  show ?thesis
  proof (cases "strstr line ''Still waiting for GPS fix''")
    case (Some sw)
    show ?thesis
      unfolding countdown_branch[OF csv Some]
      using assms by (simp add: wf_wp_def only_logs_def split: option.split)
  next
    case waiting: None
    show ?thesis
    proof (cases "strstr line ''GPS fix obtained'' \<noteq> None")
      case True
      from gps_marker_branch[OF assms, of line "''GPS fix obtained!''"]
      obtain lat lon ev where g:
        "bind_err (parse_lat_lon line (d\<lparr>wp_state := STATE_RUNNING\<rparr>))
           (\<lambda>(d', ev). Inr (d'\<lparr>wp_needs_redraw := True\<rparr>, EspLog LOGI ''GPS fix obtained!'' # ev)) =
         Inr (d\<lparr>wp_state := STATE_RUNNING, wp_lat := lat, wp_lon := lon, wp_needs_redraw := True\<rparr>,
          EspLog LOGI ''GPS fix obtained!'' # ev)"
        "holds_string sizeof_lat lat" "holds_string sizeof_lon lon" "only_logs ev"
        by blast
      have "line_body_wp line d =
        Inr (d\<lparr>wp_state := STATE_RUNNING, wp_lat := lat, wp_lon := lon, wp_needs_redraw := True\<rparr>,
          EspLog LOGI ''GPS fix obtained!'' # ev)"
        unfolding line_body_wp_def using csv waiting True g(1) by simp
      then show ?thesis
        using g(2,3,4) wf_wp_fields[OF assms] by (simp add: wf_wp_def only_logs_def)
    next
      case obtained: False
      show ?thesis
      proof (cases "strstr line ''GPS fix lost'' \<noteq> None")
        case True
        then have "line_body_wp line d =
          Inr (d\<lparr>wp_state := STATE_GPS_LOST, wp_needs_redraw := True\<rparr>,
               [EspLog LOGW ''GPS fix lost!''])"
          unfolding line_body_wp_def using csv waiting obtained by simp
        then show ?thesis using assms by (simp add: wf_wp_def only_logs_def)
      next
        case lost: False
        show ?thesis
        proof (cases "strstr line ''GPS fix recovered'' \<noteq> None")
          case True
          from gps_marker_branch[OF assms, of line "''GPS fix recovered!''"]
          obtain lat lon ev where g:
            "bind_err (parse_lat_lon line (d\<lparr>wp_state := STATE_RUNNING\<rparr>))
               (\<lambda>(d', ev). Inr (d'\<lparr>wp_needs_redraw := True\<rparr>,
                  EspLog LOGI ''GPS fix recovered!'' # ev)) =
             Inr (d\<lparr>wp_state := STATE_RUNNING, wp_lat := lat, wp_lon := lon,
                    wp_needs_redraw := True\<rparr>, EspLog LOGI ''GPS fix recovered!'' # ev)"
            "holds_string sizeof_lat lat" "holds_string sizeof_lon lon" "only_logs ev"
            by blast
          have "line_body_wp line d =
            Inr (d\<lparr>wp_state := STATE_RUNNING, wp_lat := lat, wp_lon := lon,
                   wp_needs_redraw := True\<rparr>, EspLog LOGI ''GPS fix recovered!'' # ev)"
            unfolding line_body_wp_def using csv waiting obtained lost True g(1) by simp
          then show ?thesis
            using g(2,3,4) wf_wp_fields[OF assms] by (simp add: wf_wp_def only_logs_def)
        next
          case recovered: False
          have "line_body_wp line d =
            (case strstr line ''Wardrive promisc:'' of
               Some promisc_stat \<Rightarrow>
                 if fst (sscanf_promisc promisc_stat) = 1
                 then Inr (d\<lparr>wp_unique_networks := snd (sscanf_promisc promisc_stat),
                             wp_needs_redraw := True\<rparr>, [])
                 else Inr (d, [])
             | None \<Rightarrow> Inr (d, []))"
            unfolding line_body_wp_def using csv waiting obtained lost recovered
            by (simp add: case_prod_unfold Let_def split: option.split)
          then show ?thesis
            using assms by (simp add: wf_wp_def only_logs_def split: option.split)
        qed
      qed
    qed
  qed
qed

section \<open>CSV rows, first match, and the coordinates\<close>










lemma created_wf: "wf_wp (created_wp t s)" "wf_wd (created_wd t s)"
  by (simp_all add: wf_wp_def wf_wd_def created_wp_def created_wd_def holds_string_def
      sizeof_last_ssid_def sizeof_lat_def sizeof_lon_def MAX_LOG_LINE_def)






lemma buffer_lengths_wp:
  "wf_wp d \<Longrightarrow> length (wp_last_ssid d) = 64 \<and> length (wp_lat d) = 16 \<and> length (wp_lon d) = 16"
  by (simp add: wf_wp_def holds_string_def sizeof_last_ssid_def sizeof_lat_def sizeof_lon_def)

lemma buffer_lengths_wd:
  "wf_wd d \<Longrightarrow> length (wd_last_ssid d) = 64 \<and> length (wd_lat d) = 16 \<and> length (wd_lon d) = 16"
  by (simp add: wf_wd_def holds_string_def sizeof_last_ssid_def sizeof_lat_def sizeof_lon_def)

lemma lat_lon_end_of_line:
  assumes "wf_wp d"
  shows "parse_lat_lon ''Lat=12.345 Lon=-6.78'' d =
     Inr (d\<lparr>wp_lat := ''12.345'' @ NUL # drop 7 (wp_lat d),
            wp_lon := ''-6.78'' @ NUL # drop 6 (wp_lon d)\<rparr>, [EspLog LOGI ''GPS update: %s, %s''])"
  using buffer_lengths_wp[OF assms]
  by (simp add: parse_lat_lon_def copy_field_Inr bind_err_def sizeof_lat_def sizeof_lon_def
      isdigit_def eval_nat_numeral)

lemma lat_lon_period:
  assumes "wf_wp d"
  shows "parse_lat_lon ''Lat=12.345 Lon=-6.78.'' d =
     Inr (d\<lparr>wp_lat := ''12.345'' @ NUL # drop 7 (wp_lat d),
            wp_lon := ''-6.78'' @ NUL # drop 6 (wp_lon d)\<rparr>, [EspLog LOGI ''GPS update: %s, %s''])"
  using buffer_lengths_wp[OF assms]
  by (simp add: parse_lat_lon_def copy_field_Inr bind_err_def sizeof_lat_def sizeof_lon_def
      isdigit_def eval_nat_numeral)

lemma gps_line_end_of_line_wd:
  assumes "wf_wd w"
  shows "uart_line_callback_wd ''GPS: Lat=12.345 Lon=-6.78'' (Some w) =
     Inr (Some (w\<lparr>wd_lat := ''12.345'' @ NUL # drop 7 (wd_lat w), wd_needs_redraw := True\<rparr>),
          [EspLog LOGI ''GPS update: %s, %s''])"
  using buffer_lengths_wd[OF assms]
  by (simp add: uart_line_callback_wd_def line_body_wd_def after_csv_wd_def gps_lon_wd_def
      is_mac_csv_def copy_field_Inr bind_err_def sizeof_lat_def sizeof_lon_def eval_nat_numeral)

lemma gps_line_spaced_wd:
  assumes "wf_wd w"
  shows "uart_line_callback_wd ''GPS: Lat=12.345 Lon=-6.78 Alt=3'' (Some w) =
     Inr (Some (w\<lparr>wd_lat := ''12.345'' @ NUL # drop 7 (wd_lat w),
                  wd_lon := ''-6.78'' @ NUL # drop 6 (wd_lon w), wd_needs_redraw := True\<rparr>),
          [EspLog LOGI ''GPS update: %s, %s''])"
  using buffer_lengths_wd[OF assms]
  by (simp add: uart_line_callback_wd_def line_body_wd_def after_csv_wd_def gps_lon_wd_def
      is_mac_csv_def copy_field_Inr bind_err_def sizeof_lat_def sizeof_lon_def eval_nat_numeral)

lemma cstr_literals:
  "cstr (''12.345'' @ NUL # r) = ''12.345''" "cstr (''-6.78'' @ NUL # r) = ''-6.78''"
  by (simp_all add: cstr_def)


lemma fix_obtained_period:
  assumes "wf_wp d"
  shows "uart_line_callback_wp ''GPS fix obtained: Lat=12.345 Lon=-6.78.'' (Some d) =
     Inr (Some (d\<lparr>wp_state := STATE_RUNNING, wp_lat := ''12.345'' @ NUL # drop 7 (wp_lat d),
                  wp_lon := ''-6.78'' @ NUL # drop 6 (wp_lon d), wp_needs_redraw := True\<rparr>),
          [EspLog LOGI ''GPS fix obtained!'', EspLog LOGI ''GPS update: %s, %s''])"
  using buffer_lengths_wp[OF assms]
  by (simp add: uart_line_callback_wp_def line_body_wp_def is_mac_csv_def parse_lat_lon_def
      copy_field_Inr bind_err_def sizeof_lat_def sizeof_lon_def isdigit_def eval_nat_numeral)

lemma gps_line_no_space_wd:
  assumes "\<not> is_mac_csv line" and "strstr line ''GPS fix obtained'' = None"
    and "strstr line ''GPS: Lat='' = Some q" and "CHR '' '' \<notin> set (drop 9 q)"
  shows "uart_line_callback_wd line (Some w) = Inr (Some w, [])"
proof -
  have nine: "length ''GPS: Lat='' = 9" by simp
  have "after_csv_wd line w = Inr (w, [])"
    unfolding after_csv_wd_def assms(2,3) option.case nine Let_def
    using assms(4) by (simp add: strchr_eq)
  then show ?thesis
    using assms(1) by (simp add: uart_line_callback_wd_def line_body_wd_def bind_err_def)
qed

text \<open>
  In the logging variant the longitude ends at a space: when the line ends right after
  it, the latitude is stored and the longitude stays empty.
\<close>

theorem C4_counterexample:
  "uart_line_callback_wd ''GPS: Lat=12.345 Lon=-6.78'' (Some (created_wd (Some 1) 1)) =
     Inr (Some ((created_wd (Some 1) 1)
            \<lparr>wd_lat := ''12.345'' @ NUL # replicate 9 NUL, wd_needs_redraw := True\<rparr>),
          [EspLog LOGI ''GPS update: %s, %s'']) \<and>
   cstr (wd_lon ((created_wd (Some 1) 1)
            \<lparr>wd_lat := ''12.345'' @ NUL # replicate 9 NUL, wd_needs_redraw := True\<rparr>)) = []"
  using gps_line_end_of_line_wd[OF created_wf(2), of "Some 1" 1]
  by (simp add: created_wd_def cstr_def)

text \<open>
  Claim C4, as the code has it. In the promiscuous variant \<open>parse_lat_lon\<close> takes
  \<open>12.345\<close> and \<open>-6.78\<close> from \<open>Lat=12.345 Lon=-6.78\<close>, and the same with a period at
  the end of the line; the longitude ends at the first character that is not a digit, a
  minus sign, or a period before a digit. A \<open>Lat=\<close> value with no space after it leaves
  both fields as they were, in both variants. In the logging variant the marker is
  \<open>GPS: Lat=\<close> and the longitude, too, ends at a space: without one it is not stored.
\<close>

theorem C4_lat_lon_by_label:
  assumes "wf_wp d" and "wf_wd w"
  shows
    "(\<exists>lat lon. parse_lat_lon ''Lat=12.345 Lon=-6.78'' d =
         Inr (d\<lparr>wp_lat := lat, wp_lon := lon\<rparr>, [EspLog LOGI ''GPS update: %s, %s'']) \<and>
       cstr lat = ''12.345'' \<and> cstr lon = ''-6.78'') \<and>
     (\<exists>lat lon. parse_lat_lon ''Lat=12.345 Lon=-6.78.'' d =
         Inr (d\<lparr>wp_lat := lat, wp_lon := lon\<rparr>, [EspLog LOGI ''GPS update: %s, %s'']) \<and>
       cstr lat = ''12.345'' \<and> cstr lon = ''-6.78'') \<and>
     (\<exists>lat lon. uart_line_callback_wp ''GPS fix obtained: Lat=12.345 Lon=-6.78.'' (Some d) =
         Inr (Some (d\<lparr>wp_state := STATE_RUNNING, wp_lat := lat, wp_lon := lon,
                      wp_needs_redraw := True\<rparr>),
              [EspLog LOGI ''GPS fix obtained!'', EspLog LOGI ''GPS update: %s, %s'']) \<and>
       cstr lat = ''12.345'' \<and> cstr lon = ''-6.78'') \<and>
     (lon_chars num \<and> lon_stops rest \<longrightarrow> lon_scan (num @ rest) = rest) \<and>
     (strstr str ''Lat='' = Some p \<and> CHR '' '' \<notin> set (drop 4 p) \<longrightarrow>
        parse_lat_lon str d = Inr (d, [])) \<and>
     (\<exists>lat. uart_line_callback_wd ''GPS: Lat=12.345 Lon=-6.78'' (Some w) =
         Inr (Some (w\<lparr>wd_lat := lat, wd_needs_redraw := True\<rparr>),
              [EspLog LOGI ''GPS update: %s, %s'']) \<and>
       cstr lat = ''12.345'') \<and>
     (\<exists>lat lon. uart_line_callback_wd ''GPS: Lat=12.345 Lon=-6.78 Alt=3'' (Some w) =
         Inr (Some (w\<lparr>wd_lat := lat, wd_lon := lon, wd_needs_redraw := True\<rparr>),
              [EspLog LOGI ''GPS update: %s, %s'']) \<and>
       cstr lat = ''12.345'' \<and> cstr lon = ''-6.78'') \<and>
     (\<not> is_mac_csv line \<and> strstr line ''GPS fix obtained'' = None \<and>
      strstr line ''GPS: Lat='' = Some q \<and> CHR '' '' \<notin> set (drop 9 q) \<longrightarrow>
        uart_line_callback_wd line (Some w) = Inr (Some w, []))"
proof (intro conjI impI)
  show "\<exists>lat lon. parse_lat_lon ''Lat=12.345 Lon=-6.78'' d =
         Inr (d\<lparr>wp_lat := lat, wp_lon := lon\<rparr>, [EspLog LOGI ''GPS update: %s, %s'']) \<and>
       cstr lat = ''12.345'' \<and> cstr lon = ''-6.78''"
    using lat_lon_end_of_line[OF assms(1)] cstr_literals by blast
  show "\<exists>lat lon. parse_lat_lon ''Lat=12.345 Lon=-6.78.'' d =
         Inr (d\<lparr>wp_lat := lat, wp_lon := lon\<rparr>, [EspLog LOGI ''GPS update: %s, %s'']) \<and>
       cstr lat = ''12.345'' \<and> cstr lon = ''-6.78''"
    using lat_lon_period[OF assms(1)] cstr_literals by blast
  show "\<exists>lat lon. uart_line_callback_wp ''GPS fix obtained: Lat=12.345 Lon=-6.78.'' (Some d) =
         Inr (Some (d\<lparr>wp_state := STATE_RUNNING, wp_lat := lat, wp_lon := lon,
                      wp_needs_redraw := True\<rparr>),
              [EspLog LOGI ''GPS fix obtained!'', EspLog LOGI ''GPS update: %s, %s'']) \<and>
       cstr lat = ''12.345'' \<and> cstr lon = ''-6.78''"
    using fix_obtained_period[OF assms(1)] cstr_literals by blast
  show "\<exists>lat. uart_line_callback_wd ''GPS: Lat=12.345 Lon=-6.78'' (Some w) =
         Inr (Some (w\<lparr>wd_lat := lat, wd_needs_redraw := True\<rparr>),
              [EspLog LOGI ''GPS update: %s, %s'']) \<and>
       cstr lat = ''12.345''"
    using gps_line_end_of_line_wd[OF assms(2)] cstr_literals by blast
  show "\<exists>lat lon. uart_line_callback_wd ''GPS: Lat=12.345 Lon=-6.78 Alt=3'' (Some w) =
         Inr (Some (w\<lparr>wd_lat := lat, wd_lon := lon, wd_needs_redraw := True\<rparr>),
              [EspLog LOGI ''GPS update: %s, %s'']) \<and>
       cstr lat = ''12.345'' \<and> cstr lon = ''-6.78''"
    using gps_line_spaced_wd[OF assms(2)] cstr_literals by blast
next
  assume "lon_chars num \<and> lon_stops rest"
  then show "lon_scan (num @ rest) = rest"
    by (simp add: lon_scan_run)
next
  assume "strstr str ''Lat='' = Some p \<and> CHR '' '' \<notin> set (drop 4 p)"
  then show "parse_lat_lon str d = Inr (d, [])"
    by (simp add: parse_lat_lon_no_space)
next
  assume "\<not> is_mac_csv line \<and> strstr line ''GPS fix obtained'' = None \<and>
      strstr line ''GPS: Lat='' = Some q \<and> CHR '' '' \<notin> set (drop 9 q)"
  then show "uart_line_callback_wd line (Some w) = Inr (Some w, [])"
    by (simp add: gps_line_no_space_wd)
qed

theorem C4_lat_lon_by_label_witness:
  "wf_wp (created_wp (Some 1) 1) \<and> wf_wd (created_wd (Some 1) 1) \<and>
   lon_chars ''-6.78'' \<and> lon_stops ''.'' \<and> lon_scan (''-6.78'' @ ''.'') = ''.'' \<and>
   strstr ''GPS fix obtained: Lat=12.345'' ''Lat='' = Some ''Lat=12.345'' \<and>
   parse_lat_lon ''GPS fix obtained: Lat=12.345'' (created_wp (Some 1) 1) =
     Inr (created_wp (Some 1) 1, []) \<and>
   uart_line_callback_wd ''GPS: Lat=12.345'' (Some (created_wd (Some 1) 1)) =
     Inr (Some (created_wd (Some 1) 1), []) \<and>
   (\<exists>lat lon. parse_lat_lon ''Lat=12.345 Lon=-6.78.'' (created_wp (Some 1) 1) =
         Inr ((created_wp (Some 1) 1)\<lparr>wp_lat := lat, wp_lon := lon\<rparr>,
              [EspLog LOGI ''GPS update: %s, %s'']) \<and>
       cstr lat = ''12.345'' \<and> cstr lon = ''-6.78'')"
proof -
  note wf = created_wf[of "Some 1" 1]
  note c = C4_lat_lon_by_label[OF wf, where num = "''-6.78''" and rest = "''.''"
      and str = "''GPS fix obtained: Lat=12.345''" and p = "''Lat=12.345''"
      and line = "''GPS: Lat=12.345''" and q = "''GPS: Lat=12.345''"]
  have h: "lon_chars ''-6.78''" "lon_stops ''.''"
    "strstr ''GPS fix obtained: Lat=12.345'' ''Lat='' = Some ''Lat=12.345''"
    "CHR '' '' \<notin> set (drop 4 ''Lat=12.345'')"
    "\<not> is_mac_csv ''GPS: Lat=12.345''" "strstr ''GPS: Lat=12.345'' ''GPS fix obtained'' = None"
    "strstr ''GPS: Lat=12.345'' ''GPS: Lat='' = Some ''GPS: Lat=12.345''"
    "CHR '' '' \<notin> set (drop 9 ''GPS: Lat=12.345'')"
    by (simp_all add: lon_stops_def isdigit_def is_mac_csv_def)
  show ?thesis
    using c h wf by blast
qed

section \<open>Who draws\<close>

lemma is_log_not_draw: "is_log e \<Longrightarrow> \<not> is_draw e"
  by (cases e) simp_all

lemma only_logs_no_draw: "only_logs ev \<Longrightarrow> no_draw ev"
  by (auto simp: only_logs_def no_draw_def list_all_iff is_log_not_draw)

lemma logs_and_clear_no_draw: "logs_and_clear ev \<Longrightarrow> no_draw ev"
  by (auto simp: logs_and_clear_def no_draw_def list_all_iff is_log_not_draw)

lemma logs_and_wifi_no_draw: "logs_and_wifi ev \<Longrightarrow> no_draw ev"
  by (auto simp: logs_and_wifi_def no_draw_def list_all_iff is_log_not_draw)

lemma only_logs_response_store: "only_logs (snd (response_store l c))"
  unfolding response_store_def Let_def by (simp add: only_logs_def)

lemma logs_and_clear_on_uart_response: "logs_and_clear (snd (on_uart_response resp c))"
proof (cases resp)
  case None
  then show ?thesis by (simp add: on_uart_response_def logs_and_clear_def)
next
  case (Some l)
  obtain d1 ev where r: "response_store l c = (d1, ev)"
    by (cases "response_store l c")
  with only_logs_response_store[of l c] have "only_logs ev" by simp
  then show ?thesis
    unfolding Some on_uart_response_def option.case r prod.case
    by (auto simp: only_logs_def logs_and_clear_def list_all_iff)
qed

lemma logs_and_wifi_callback_ni: "logs_and_wifi (snd (uart_line_callback_ni line n))"
  unfolding uart_line_callback_ni_def by (simp add: logs_and_wifi_def split: option.split)

lemma logs_and_wifi_callback_dd: "logs_and_wifi (snd (uart_line_callback_dd line q))"
  unfolding uart_line_callback_dd_def by (simp add: logs_and_wifi_def split: option.split)

lemma already_captured_Inr:
  "list_all (\<lambda>b. length b = M) caps \<Longrightarrow> n < M \<Longrightarrow> \<exists>r. already_captured caps s n = Inr r"
  by (induction caps) auto

lemma ssid_len_hs_less: "0 < M \<Longrightarrow> ssid_len_hs M s < M"
  by (simp add: ssid_len_hs_def Let_def)

lemma capture_hs_safe:
  assumes "wf_hs M h" and "hs_captured_count h < MAX_CAPTURED"
  shows "\<exists>h' ev. capture_hs M h s = Inr (Some h', ev) \<and> wf_hs M h' \<and> only_logs ev"
proof -
  from assms(1) have m: "0 < M" and len: "length (hs_captured_ssids h) = 8"
    and rows: "list_all (\<lambda>b. length b = M) (hs_captured_ssids h)"
    and nonneg: "0 \<le> hs_captured_count h"
    by (simp_all add: wf_hs_def MAX_CAPTURED_def)
  define n where "n = ssid_len_hs M s"
  define k where "k = nat (hs_captured_count h)"
  have n: "n < M"
    unfolding n_def by (rule ssid_len_hs_less[OF m])
  have k: "k < length (hs_captured_ssids h)"
    using assms(2) nonneg len by (simp add: MAX_CAPTURED_def k_def)
  have "list_all (\<lambda>b. length b = M) (take k (hs_captured_ssids h))"
    using rows by (auto simp: list_all_iff dest: in_set_takeD)
  from already_captured_Inr[OF this n, of s] obtain r where
    r: "already_captured (take k (hs_captured_ssids h)) s n = Inr r"
    by blast
  have step: "capture_hs M h s =
      (if r then Inr (Some h, [])
       else bind_err (copy_field (hs_captured_ssids h ! k) s n)
              (\<lambda>b. Inr (Some (h\<lparr>hs_captured_ssids := (hs_captured_ssids h)[k := b],
                                   hs_captured_count := hs_captured_count h + 1,
                                   hs_needs_redraw := True\<rparr>),
                        [EspLog LOGI ''Handshake captured for SSID: %s''])))"
    unfolding capture_hs_def Let_def n_def[symmetric] k_def[symmetric] r
    using nonneg k by (simp add: bind_err_def)
  show ?thesis
  proof (cases r)
    case True
    with step assms(1) show ?thesis by (simp add: only_logs_def)
  next
    case False
    have row: "length (hs_captured_ssids h ! k) = M"
      using rows k by (simp add: list_all_length)
    define b where "b = take n (s @ replicate n NUL) @ NUL # drop (Suc n) (hs_captured_ssids h ! k)"
    have cf: "copy_field (hs_captured_ssids h ! k) s n = Inr b"
      unfolding b_def by (rule copy_field_Inr) (use n row in simp)
    have lb: "length b = M"
      unfolding b_def using n row by simp
    have rows': "list_all (\<lambda>b. length b = M) ((hs_captured_ssids h)[k := b])"
      using rows lb k by (auto simp: list_all_length nth_list_update)
    have wf: "wf_hs M (h\<lparr>hs_captured_ssids := (hs_captured_ssids h)[k := b],
                        hs_captured_count := hs_captured_count h + 1,
                        hs_needs_redraw := True\<rparr>)"
      using m len rows' nonneg by (simp add: wf_hs_def MAX_CAPTURED_def)
    have "capture_hs M h s =
        Inr (Some (h\<lparr>hs_captured_ssids := (hs_captured_ssids h)[k := b],
                        hs_captured_count := hs_captured_count h + 1,
                        hs_needs_redraw := True\<rparr>),
             [EspLog LOGI ''Handshake captured for SSID: %s''])"
      unfolding step cf using False by (simp add: bind_err_def)
    with wf show ?thesis by (simp add: only_logs_def)
  qed
qed

lemma callback_hs_safe:
  assumes "wf_hs M h"
  shows "\<exists>h' ev. uart_line_callback_hs M line (Some h) = Inr (Some h', ev) \<and> wf_hs M h' \<and>
           only_logs ev"
proof -
  have same: ?thesis if "uart_line_callback_hs M line (Some h) = Inr (Some h, [])"
    using that assms by (simp add: only_logs_def)
  show ?thesis
  proof (cases "strstr line ''Complete 4-way handshake saved for SSID: ''")
    case None
    then show ?thesis by (intro same) (simp add: uart_line_callback_hs_def)
  next
    case (Some found)
    show ?thesis
    proof (cases "hs_captured_count h < MAX_CAPTURED")
      case False
      then show ?thesis using Some by (intro same) (simp add: uart_line_callback_hs_def)
    next
      case True
      have "uart_line_callback_hs M line (Some h) =
          capture_hs M h (drop (length ''Complete 4-way handshake saved for SSID: '') found)"
        unfolding uart_line_callback_hs_def option.case Some using True by (simp only: if_True)
      with capture_hs_safe[OF assms True] show ?thesis by simp
    qed
  qed
qed

lemma callback_null:
  "uart_line_callback_wp line None = Inr (None, [])"
  "uart_line_callback_wd line None = Inr (None, [])"
  "uart_line_callback_hs M line None = Inr (None, [])"
  by (simp_all add: uart_line_callback_wp_def uart_line_callback_wd_def
      uart_line_callback_hs_def)

lemma only_draws_captured_rows: "only_draws (captured_rows ss row)"
  by (induction ss row rule: captured_rows.induct) (simp_all add: only_draws_def)

lemma only_draws_wp: "only_draws (draw_screen_wp x) \<and> draw_screen_wp x \<noteq> []"
  by (simp add: draw_screen_wp_def only_draws_def)

lemma only_draws_wd: "only_draws (draw_screen_wd x) \<and> draw_screen_wd x \<noteq> []"
  by (simp add: draw_screen_wd_def only_draws_def)

lemma only_draws_hs: "only_draws (draw_screen_hs x) \<and> draw_screen_hs x \<noteq> []"
  using only_draws_captured_rows[of "take (nat (hs_captured_count x)) (hs_captured_ssids x)" 5]
  by (simp add: draw_screen_hs_def only_draws_def)

lemma draws_wp: "\<not> no_draw (draw_screen_wp x)"
  by (simp add: draw_screen_wp_def no_draw_def)

lemma draws_wd: "\<not> no_draw (draw_screen_wd x)"
  by (simp add: draw_screen_wd_def no_draw_def)

lemma draws_hs: "\<not> no_draw (draw_screen_hs x)"
  by (simp add: draw_screen_hs_def no_draw_def)

lemma no_draw_Nil: "no_draw []"
  by (simp add: no_draw_def)

lemma timer_wp:
  "(\<forall>t. tp = Some t \<and> wp_needs_redraw t \<and> wp_self t \<noteq> None \<longrightarrow>
      refresh_timer_callback_wp tp =
        (Some (t\<lparr>wp_needs_redraw := False\<rparr>), draw_screen_wp (t\<lparr>wp_needs_redraw := False\<rparr>))) \<and>
   (\<not> (\<exists>t. tp = Some t \<and> wp_needs_redraw t \<and> wp_self t \<noteq> None) \<longrightarrow>
      refresh_timer_callback_wp tp = (tp, [])) \<and>
   (no_draw (snd (refresh_timer_callback_wp tp)) \<longleftrightarrow>
      \<not> (\<exists>t. tp = Some t \<and> wp_needs_redraw t \<and> wp_self t \<noteq> None))"
  by (cases tp) (auto simp: refresh_timer_callback_wp_def draws_wp no_draw_Nil Let_def)

lemma timer_wd:
  "(\<forall>t. tp = Some t \<and> wd_needs_redraw t \<and> wd_self t \<noteq> None \<longrightarrow>
      refresh_timer_callback_wd tp =
        (Some (t\<lparr>wd_needs_redraw := False\<rparr>), draw_screen_wd (t\<lparr>wd_needs_redraw := False\<rparr>))) \<and>
   (\<not> (\<exists>t. tp = Some t \<and> wd_needs_redraw t \<and> wd_self t \<noteq> None) \<longrightarrow>
      refresh_timer_callback_wd tp = (tp, [])) \<and>
   (no_draw (snd (refresh_timer_callback_wd tp)) \<longleftrightarrow>
      \<not> (\<exists>t. tp = Some t \<and> wd_needs_redraw t \<and> wd_self t \<noteq> None))"
  by (cases tp) (auto simp: refresh_timer_callback_wd_def draws_wd no_draw_Nil Let_def)

lemma timer_hs:
  "(\<forall>t. tp = Some t \<and> hs_needs_redraw t \<and> hs_self t \<noteq> None \<longrightarrow>
      refresh_timer_callback_hs tp =
        (Some (t\<lparr>hs_needs_redraw := False\<rparr>), draw_screen_hs (t\<lparr>hs_needs_redraw := False\<rparr>))) \<and>
   (\<not> (\<exists>t. tp = Some t \<and> hs_needs_redraw t \<and> hs_self t \<noteq> None) \<longrightarrow>
      refresh_timer_callback_hs tp = (tp, [])) \<and>
   (no_draw (snd (refresh_timer_callback_hs tp)) \<longleftrightarrow>
      \<not> (\<exists>t. tp = Some t \<and> hs_needs_redraw t \<and> hs_self t \<noteq> None))"
  by (cases tp) (auto simp: refresh_timer_callback_hs_def draws_hs no_draw_Nil Let_def)

text \<open>
  The refresh timer of the wardrive screen draws: with the flag set it clears the flag
  and calls \<open>draw_screen\<close>, which calls the display primitives.
\<close>

theorem C2_counterexample:
  "snd (refresh_timer_callback_wp (Some ((created_wp (Some 1) 1)\<lparr>wp_needs_redraw := True\<rparr>))) =
     [UiClear, UiDrawTitle (Lit ''Wardrive''),
      UiPrint 0 2 (Lit ''Acquiring GPS Fix...'') UI_COLOR_HIGHLIGHT,
      UiPrint 0 4 (Lit ''Need clear view of the sky.'') UI_COLOR_DIMMED,
      UiDrawStatus (Lit ''ESC: Stop & Exit'')] \<and>
   is_draw UiClear"
  by (simp add: refresh_timer_callback_wp_def draw_screen_wp_def created_wp_def)

text \<open>
  Claim C2, as the code has it. The line consumers never call a display primitive. Those of
  the two wardrive screens and of the handshaker screen finish without a store outside a
  buffer and call nothing but the log; with no context block they do nothing. The response
  consumer of the channel-time screen calls nothing but the log and
  \<open>uart_clear_line_callback\<close>; the consumers of the network-info and data-detail screens
  call nothing but the log and \<open>uart_set_wifi_connected\<close>. Everything else a consumer does
  is in the context block it returns. The refresh timer callbacks of the wardrive screens
  and of the handshaker screen do draw: when their context is not NULL, \<open>needs_redraw\<close> is
  set and \<open>self\<close> is not NULL they clear the flag and call \<open>draw_screen\<close>, and otherwise
  they change nothing and call nothing. \<open>draw_screen\<close> calls display primitives and
  nothing else, so these timers draw exactly in the first case.
\<close>

theorem C2_line_consumers_never_draw:
  assumes "wf_wp d" and "wf_wd w" and "wf_hs M h"
  shows
    "((\<exists>r ev. uart_line_callback_wp line (Some d) = Inr (r, ev) \<and> only_logs ev \<and> no_draw ev) \<and>
      (\<exists>r ev. uart_line_callback_wd line (Some w) = Inr (r, ev) \<and> only_logs ev \<and> no_draw ev) \<and>
      (\<exists>r ev. uart_line_callback_hs M line (Some h) = Inr (r, ev) \<and> only_logs ev \<and>
         no_draw ev) \<and>
      uart_line_callback_wp line None = Inr (None, []) \<and>
      uart_line_callback_wd line None = Inr (None, []) \<and>
      uart_line_callback_hs M line None = Inr (None, []) \<and>
      logs_and_clear (snd (on_uart_response resp c)) \<and>
      no_draw (snd (on_uart_response resp c)) \<and>
      logs_and_wifi (snd (uart_line_callback_ni line n)) \<and>
      no_draw (snd (uart_line_callback_ni line n)) \<and>
      logs_and_wifi (snd (uart_line_callback_dd line q)) \<and>
      no_draw (snd (uart_line_callback_dd line q))) \<and>
     ((\<forall>t. tp = Some t \<and> wp_needs_redraw t \<and> wp_self t \<noteq> None \<longrightarrow>
         refresh_timer_callback_wp tp =
           (Some (t\<lparr>wp_needs_redraw := False\<rparr>),
            draw_screen_wp (t\<lparr>wp_needs_redraw := False\<rparr>))) \<and>
      (\<not> (\<exists>t. tp = Some t \<and> wp_needs_redraw t \<and> wp_self t \<noteq> None) \<longrightarrow>
         refresh_timer_callback_wp tp = (tp, [])) \<and>
      (no_draw (snd (refresh_timer_callback_wp tp)) \<longleftrightarrow>
         \<not> (\<exists>t. tp = Some t \<and> wp_needs_redraw t \<and> wp_self t \<noteq> None))) \<and>
     ((\<forall>t. td = Some t \<and> wd_needs_redraw t \<and> wd_self t \<noteq> None \<longrightarrow>
         refresh_timer_callback_wd td =
           (Some (t\<lparr>wd_needs_redraw := False\<rparr>),
            draw_screen_wd (t\<lparr>wd_needs_redraw := False\<rparr>))) \<and>
      (\<not> (\<exists>t. td = Some t \<and> wd_needs_redraw t \<and> wd_self t \<noteq> None) \<longrightarrow>
         refresh_timer_callback_wd td = (td, [])) \<and>
      (no_draw (snd (refresh_timer_callback_wd td)) \<longleftrightarrow>
         \<not> (\<exists>t. td = Some t \<and> wd_needs_redraw t \<and> wd_self t \<noteq> None))) \<and>
     ((\<forall>t. th = Some t \<and> hs_needs_redraw t \<and> hs_self t \<noteq> None \<longrightarrow>
         refresh_timer_callback_hs th =
           (Some (t\<lparr>hs_needs_redraw := False\<rparr>),
            draw_screen_hs (t\<lparr>hs_needs_redraw := False\<rparr>))) \<and>
      (\<not> (\<exists>t. th = Some t \<and> hs_needs_redraw t \<and> hs_self t \<noteq> None) \<longrightarrow>
         refresh_timer_callback_hs th = (th, [])) \<and>
      (no_draw (snd (refresh_timer_callback_hs th)) \<longleftrightarrow>
         \<not> (\<exists>t. th = Some t \<and> hs_needs_redraw t \<and> hs_self t \<noteq> None))) \<and>
     ((only_draws (draw_screen_wp x) \<and> draw_screen_wp x \<noteq> []) \<and>
      (only_draws (draw_screen_wd y) \<and> draw_screen_wd y \<noteq> []) \<and>
      (only_draws (draw_screen_hs z) \<and> draw_screen_hs z \<noteq> []))"
proof -
  from line_body_wp_safe[OF assms(1), of line] obtain d' ev where
    "line_body_wp line d = Inr (d', ev)" "only_logs ev"
    by blast
  then have a: "\<exists>r ev. uart_line_callback_wp line (Some d) = Inr (r, ev) \<and> only_logs ev \<and>
      no_draw ev"
    using callback_wp_Inr only_logs_no_draw by blast
  from line_body_wd_safe[OF assms(2), of line] obtain w' ev' where
    "line_body_wd line w = Inr (w', ev')" "only_logs ev'"
    by blast
  then have b: "\<exists>r ev. uart_line_callback_wd line (Some w) = Inr (r, ev) \<and> only_logs ev \<and>
      no_draw ev"
    using callback_wd_Inr only_logs_no_draw by blast
  from callback_hs_safe[OF assms(3), of line]
  have c: "\<exists>r ev. uart_line_callback_hs M line (Some h) = Inr (r, ev) \<and> only_logs ev \<and>
      no_draw ev"
    using only_logs_no_draw by blast
  note ct = logs_and_clear_on_uart_response[of resp c]
  note ni = logs_and_wifi_callback_ni[of line n]
  note dd = logs_and_wifi_callback_dd[of line q]
  have consumers:
     "(\<exists>r ev. uart_line_callback_wp line (Some d) = Inr (r, ev) \<and> only_logs ev \<and> no_draw ev) \<and>
      (\<exists>r ev. uart_line_callback_wd line (Some w) = Inr (r, ev) \<and> only_logs ev \<and> no_draw ev) \<and>
      (\<exists>r ev. uart_line_callback_hs M line (Some h) = Inr (r, ev) \<and> only_logs ev \<and>
         no_draw ev) \<and>
      uart_line_callback_wp line None = Inr (None, []) \<and>
      uart_line_callback_wd line None = Inr (None, []) \<and>
      uart_line_callback_hs M line None = Inr (None, []) \<and>
      logs_and_clear (snd (on_uart_response resp c)) \<and>
      no_draw (snd (on_uart_response resp c)) \<and>
      logs_and_wifi (snd (uart_line_callback_ni line n)) \<and>
      no_draw (snd (uart_line_callback_ni line n)) \<and>
      logs_and_wifi (snd (uart_line_callback_dd line q)) \<and>
      no_draw (snd (uart_line_callback_dd line q))"
    using a b c callback_null(1)[of line] callback_null(2)[of line] callback_null(3)[of M line]
      ct ni dd logs_and_clear_no_draw[OF ct] logs_and_wifi_no_draw[OF ni]
      logs_and_wifi_no_draw[OF dd]
    by (simp only: simp_thms)
  show ?thesis
    by (rule conjI[OF consumers conjI[OF timer_wp conjI[OF timer_wd conjI[OF timer_hs
          conjI[OF only_draws_wp conjI[OF only_draws_wd only_draws_hs]]]]]])
qed


theorem C2_line_consumers_never_draw_witness:
  "wf_wp (created_wp (Some 1) 1) \<and> wf_wd (created_wd (Some 1) 1) \<and>
   wf_hs 33 (created_hs 33 [] 0 (Some 1) 1) \<and>
   (\<exists>r ev. uart_line_callback_wp ''GPS fix lost! Pausing wardrive...''
       (Some (created_wp (Some 1) 1)) = Inr (r, ev) \<and> only_logs ev \<and> no_draw ev) \<and>
   (\<exists>r ev. uart_line_callback_hs 33 ''Complete 4-way handshake saved for SSID: home (1)''
       (Some (created_hs 33 [] 0 (Some 1) 1)) = Inr (r, ev) \<and> only_logs ev \<and> no_draw ev) \<and>
   no_draw (snd (on_uart_response (Some ''max: 300'') created_ct)) \<and>
   refresh_timer_callback_wp (Some ((created_wp (Some 1) 1)\<lparr>wp_needs_redraw := True\<rparr>)) =
     (Some ((created_wp (Some 1) 1)\<lparr>wp_needs_redraw := True, wp_needs_redraw := False\<rparr>),
      draw_screen_wp ((created_wp (Some 1) 1)\<lparr>wp_needs_redraw := True,
        wp_needs_redraw := False\<rparr>)) \<and>
   \<not> no_draw (snd (refresh_timer_callback_wp
       (Some ((created_wp (Some 1) 1)\<lparr>wp_needs_redraw := True\<rparr>)))) \<and>
   refresh_timer_callback_wp (Some (created_wp (Some 1) 1)) =
     (Some (created_wp (Some 1) 1), []) \<and>
   no_draw (snd (refresh_timer_callback_wp (Some (created_wp (Some 1) 1))))"
proof -
  note wf = created_wf[of "Some 1" 1]
  have wfh: "wf_hs 33 (created_hs 33 [] 0 (Some 1) 1)"
    by (simp add: wf_hs_def created_hs_def MAX_CAPTURED_def list_all_iff)
  note c1 = C2_line_consumers_never_draw[OF wf wfh,
      where line = "''GPS fix lost! Pausing wardrive...''" and resp = "Some ''max: 300''"
        and c = created_ct
        and tp = "Some ((created_wp (Some 1) 1)\<lparr>wp_needs_redraw := True\<rparr>)"]
  note c2 = C2_line_consumers_never_draw[OF wf wfh,
      where line = "''GPS fix lost! Pausing wardrive...''"
        and tp = "Some (created_wp (Some 1) 1)"]
  note c3 = C2_line_consumers_never_draw[OF wf wfh,
      where line = "''Complete 4-way handshake saved for SSID: home (1)''"]
  note k1 = c1[THEN conjunct1] and t1 = c1[THEN conjunct2, THEN conjunct1]
    and t2 = c2[THEN conjunct2, THEN conjunct1]
  have s1: "\<exists>t. Some ((created_wp (Some 1) 1)\<lparr>wp_needs_redraw := True\<rparr>) = Some t \<and>
      wp_needs_redraw t \<and> wp_self t \<noteq> None"
    by (simp add: created_wp_def)
  have s1': "wp_needs_redraw ((created_wp (Some 1) 1)\<lparr>wp_needs_redraw := True\<rparr>) \<and>
      wp_self ((created_wp (Some 1) 1)\<lparr>wp_needs_redraw := True\<rparr>) \<noteq> None"
    by (simp add: created_wp_def)
  have s2: "\<not> (\<exists>t. Some (created_wp (Some 1) 1) = Some t \<and>
      wp_needs_redraw t \<and> wp_self t \<noteq> None)"
    by (simp add: created_wp_def)
  have a: "\<exists>r ev. uart_line_callback_wp ''GPS fix lost! Pausing wardrive...''
       (Some (created_wp (Some 1) 1)) = Inr (r, ev) \<and> only_logs ev \<and> no_draw ev"
    by (rule k1[THEN conjunct1])
  have ah: "\<exists>r ev. uart_line_callback_hs 33 ''Complete 4-way handshake saved for SSID: home (1)''
       (Some (created_hs 33 [] 0 (Some 1) 1)) = Inr (r, ev) \<and> only_logs ev \<and> no_draw ev"
    by (rule c3[THEN conjunct1, THEN conjunct2, THEN conjunct2, THEN conjunct1])
  have b: "no_draw (snd (on_uart_response (Some ''max: 300'') created_ct))"
    by (rule k1[THEN conjunct2, THEN conjunct2, THEN conjunct2, THEN conjunct2,
          THEN conjunct2, THEN conjunct2, THEN conjunct2, THEN conjunct1])
  have e1: "refresh_timer_callback_wp (Some ((created_wp (Some 1) 1)\<lparr>wp_needs_redraw := True\<rparr>)) =
     (Some ((created_wp (Some 1) 1)\<lparr>wp_needs_redraw := True, wp_needs_redraw := False\<rparr>),
      draw_screen_wp ((created_wp (Some 1) 1)\<lparr>wp_needs_redraw := True,
        wp_needs_redraw := False\<rparr>))"
    using t1[THEN conjunct1, THEN spec,
        of "(created_wp (Some 1) 1)\<lparr>wp_needs_redraw := True\<rparr>"] s1'
    by (simp only: simp_thms)
  have d1: "\<not> no_draw (snd (refresh_timer_callback_wp
       (Some ((created_wp (Some 1) 1)\<lparr>wp_needs_redraw := True\<rparr>))))"
    using t1[THEN conjunct2, THEN conjunct2] s1 by (simp only: simp_thms)
  have e2: "refresh_timer_callback_wp (Some (created_wp (Some 1) 1)) =
     (Some (created_wp (Some 1) 1), [])"
    using t2[THEN conjunct2, THEN conjunct1] s2 by (simp only: simp_thms)
  have d2: "no_draw (snd (refresh_timer_callback_wp (Some (created_wp (Some 1) 1))))"
    using t2[THEN conjunct2, THEN conjunct2] s2 by (simp only: simp_thms)
  show ?thesis
    using wf wfh a ah b e1 d1 e2 d2 by (simp only: simp_thms)
qed

end
